(* ===== verification/Prelude.thy ===== *)
theory Prelude
  imports Main "HOL-Library.Word" "HOL-Library.List_Lexorder" "HOL-Library.Char_ord"
begin

text \<open>
  Shared vocabulary of the development: Go's bytes and strings, the outcome of a Go call
  (a value, a returned error or a panic), computations that thread a state, and Go maps with
  string keys as association lists sorted by key. The collections \<open>monad_simps\<close> and
  \<open>len_simps\<close> gather the rewrite rules the component proofs run on.
\<close>

named_theorems monad_simps "unfolding of computations over a state"
named_theorems len_simps "lengths of byte strings the code slices"

section \<open>Bytes, integers and strings\<close>

type_synonym byte = "8 word"
type_synonym bytes = "byte list"

text \<open>Go's \<open>int\<close> has 64 bits here: sums wrap around.\<close>

definition wrap64 :: "int \<Rightarrow> int" where
  "wrap64 i = (i + 2 ^ 63) mod 2 ^ 64 - 2 ^ 63"

text \<open>\<open>[]byte(s)\<close> and \<open>string(b)\<close>: a Go string is a sequence of bytes, one per \<open>char\<close>.\<close>

definition byte_of_char :: "char \<Rightarrow> byte" where
  "byte_of_char c = word_of_nat (of_char c)"

definition char_of_byte :: "byte \<Rightarrow> char" where
  "char_of_byte b = char_of (unat b)"

definition bytes_of_string :: "string \<Rightarrow> bytes" where
  "bytes_of_string s = map byte_of_char s"

definition string_of_bytes :: "bytes \<Rightarrow> string" where
  "string_of_bytes b = map char_of_byte b"

lemma char_of_byte_of_char [simp]: "char_of_byte (byte_of_char c) = c"
proof -
  have "unat (word_of_nat (of_char c) :: byte) = of_char c"
    by (simp add: unat_of_nat)
  then show ?thesis by (simp add: char_of_byte_def byte_of_char_def)
qed

lemma byte_of_char_of_byte [simp]: "byte_of_char (char_of_byte b) = b"
proof -
  have "unat b < 256" using unsigned_less [of b] by simp
  then have "of_char (char_of (unat b)) = unat b"
    by simp
  then show ?thesis by (simp add: char_of_byte_def byte_of_char_def)
qed

lemma string_of_bytes_of_string [simp]: "string_of_bytes (bytes_of_string s) = s"
  by (simp add: string_of_bytes_def bytes_of_string_def comp_def)

lemma bytes_of_string_of_bytes [simp]: "bytes_of_string (string_of_bytes b) = b"
  by (simp add: string_of_bytes_def bytes_of_string_def comp_def)

lemma bytes_of_string_inject [simp]: "bytes_of_string s = bytes_of_string t \<longleftrightarrow> s = t"
  by (metis string_of_bytes_of_string)

lemma length_bytes_of_string [simp, len_simps]: "length (bytes_of_string s) = length s"
  by (simp add: bytes_of_string_def)

lemma length_string_of_bytes [simp, len_simps]: "length (string_of_bytes b) = length b"
  by (simp add: string_of_bytes_def)

lemma bytes_of_string_append [simp]:
  "bytes_of_string (s @ t) = bytes_of_string s @ bytes_of_string t"
  by (simp add: bytes_of_string_def)

section \<open>Outcomes of Go calls\<close>

text \<open>
  A Go function returns a value, returns an error, or panics. A panic is kept apart from an
  error: code that inspects \<open>err\<close> does not see it.
\<close>

datatype ('e, 'a) outcome = Ok 'a | Err 'e | Panic string

fun obind :: "('e, 'a) outcome \<Rightarrow> ('a \<Rightarrow> ('e, 'b) outcome) \<Rightarrow> ('e, 'b) outcome" where
  "obind (Ok x) f = f x"
| "obind (Err e) f = Err e"
| "obind (Panic p) f = Panic p"

lemma obind_eq_Ok: "obind m f = Ok y \<longleftrightarrow> (\<exists>x. m = Ok x \<and> f x = Ok y)"
  by (cases m) auto

section \<open>Computations over a state\<close>

text \<open>
  A statement sequence of the code is a computation: it maps a state to an outcome and the
  state it leaves, also when it fails, since what was written before an early return stays
  written.
\<close>

type_synonym ('s, 'e, 'a) comp = "'s \<Rightarrow> ('e, 'a) outcome \<times> 's"

definition ret :: "'a \<Rightarrow> ('s, 'e, 'a) comp" where
  "ret x s = (Ok x, s)"

definition raise :: "'e \<Rightarrow> ('s, 'e, 'a) comp" where
  "raise e s = (Err e, s)"

definition go_panic :: "string \<Rightarrow> ('s, 'e, 'a) comp" where
  "go_panic p s = (Panic p, s)"

definition lift_outcome :: "('e, 'a) outcome \<Rightarrow> ('s, 'e, 'a) comp" where
  "lift_outcome r s = (r, s)"

definition gets :: "('s \<Rightarrow> 'a) \<Rightarrow> ('s, 'e, 'a) comp" where
  "gets f s = (Ok (f s), s)"

definition modify :: "('s \<Rightarrow> 's) \<Rightarrow> ('s, 'e, unit) comp" where
  "modify f s = (Ok (), f s)"

definition bnd :: "('s, 'e, 'a) comp \<Rightarrow> ('a \<Rightarrow> ('s, 'e, 'b) comp) \<Rightarrow> ('s, 'e, 'b) comp" where
  "bnd m f s = (case m s of
     (Ok x, s') \<Rightarrow> f x s'
   | (Err e, s') \<Rightarrow> (Err e, s')
   | (Panic p, s') \<Rightarrow> (Panic p, s'))"

text \<open>\<open>if err != nil { return fmt.Errorf("...: %w", err) }\<close>: only errors are mapped.\<close>

definition map_err :: "('e \<Rightarrow> 'e) \<Rightarrow> ('s, 'e, 'a) comp \<Rightarrow> ('s, 'e, 'a) comp" where
  "map_err g m s = (case m s of
     (Err e, s') \<Rightarrow> (Err (g e), s')
   | r \<Rightarrow> r)"

text \<open>\<open>if err != nil { continue }\<close>: an error becomes \<open>None\<close>, a panic still unwinds.\<close>

definition attempt :: "('s, 'e, 'a) comp \<Rightarrow> ('s, 'e, 'a option) comp" where
  "attempt m s = (case m s of
     (Ok x, s') \<Rightarrow> (Ok (Some x), s')
   | (Err e, s') \<Rightarrow> (Ok None, s')
   | (Panic p, s') \<Rightarrow> (Panic p, s'))"

fun for_each :: "('a \<Rightarrow> ('s, 'e, unit) comp) \<Rightarrow> 'a list \<Rightarrow> ('s, 'e, unit) comp" where
  "for_each f [] = ret ()"
| "for_each f (x # xs) = bnd (f x) (\<lambda>_. for_each f xs)"

lemmas comp_defs = ret_def raise_def go_panic_def lift_outcome_def gets_def modify_def
  bnd_def map_err_def attempt_def

declare ret_def [monad_simps] raise_def [monad_simps] go_panic_def [monad_simps]
  lift_outcome_def [monad_simps] gets_def [monad_simps] modify_def [monad_simps]

lemma bnd_Ok [monad_simps]: "m s = (Ok x, s') \<Longrightarrow> bnd m f s = f x s'"
  by (simp add: bnd_def)

lemma bnd_Err [monad_simps]: "m s = (Err e, s') \<Longrightarrow> bnd m f s = (Err e, s')"
  by (simp add: bnd_def)

lemma bnd_Panic [monad_simps]: "m s = (Panic p, s') \<Longrightarrow> bnd m f s = (Panic p, s')"
  by (simp add: bnd_def)

lemma map_err_Ok [monad_simps]: "m s = (Ok x, s') \<Longrightarrow> map_err g m s = (Ok x, s')"
  by (simp add: map_err_def)

lemma map_err_Err [monad_simps]: "m s = (Err e, s') \<Longrightarrow> map_err g m s = (Err (g e), s')"
  by (simp add: map_err_def)

lemma map_err_Panic [monad_simps]: "m s = (Panic p, s') \<Longrightarrow> map_err g m s = (Panic p, s')"
  by (simp add: map_err_def)

lemma attempt_Ok [monad_simps]: "m s = (Ok x, s') \<Longrightarrow> attempt m s = (Ok (Some x), s')"
  by (simp add: attempt_def)

lemma attempt_Err [monad_simps]: "m s = (Err e, s') \<Longrightarrow> attempt m s = (Ok None, s')"
  by (simp add: attempt_def)

lemma attempt_Panic [monad_simps]: "m s = (Panic p, s') \<Longrightarrow> attempt m s = (Panic p, s')"
  by (simp add: attempt_def)

lemma bnd_eq_Ok:
  "bnd m f s = (Ok y, s2) \<longleftrightarrow> (\<exists>x s1. m s = (Ok x, s1) \<and> f x s1 = (Ok y, s2))"
  by (cases "m s"; cases "fst (m s)") (auto simp: bnd_def)

lemma map_err_eq_Ok: "map_err g m s = (Ok y, s') \<longleftrightarrow> m s = (Ok y, s')"
  by (cases "m s"; cases "fst (m s)") (auto simp: map_err_def)

lemma bnd_assoc: "bnd (bnd m f) g = bnd m (\<lambda>x. bnd (f x) g)"
  by (rule ext) (simp add: bnd_def split: prod.split outcome.split)

lemma bnd_ret_left: "bnd (ret x) f = f x"
  by (rule ext) (simp add: bnd_def ret_def)

section \<open>Go maps with ordered keys\<close>

text \<open>
  A Go map is an association list strictly sorted by key: two maps with the same entries are
  the same list, which is also the order \<open>encoding/json\<close> writes them in. The order of a
  \<open>range\<close> loop is not this one: it is chosen by the runtime (see \<open>range_order\<close> of the
  external code).
\<close>

type_synonym ('k, 'v) gomap = "('k \<times> 'v) list"

fun gm_set :: "'k::linorder \<Rightarrow> 'v \<Rightarrow> ('k, 'v) gomap \<Rightarrow> ('k, 'v) gomap" where
  "gm_set k v [] = [(k, v)]"
| "gm_set k v ((k', v') # m) =
     (if k < k' then (k, v) # (k', v') # m
      else if k = k' then (k, v) # m
      else (k', v') # gm_set k v m)"

definition gm_del :: "'k \<Rightarrow> ('k, 'v) gomap \<Rightarrow> ('k, 'v) gomap" where
  "gm_del k m = filter (\<lambda>(k', _). k' \<noteq> k) m"

definition gm_keys :: "('k, 'v) gomap \<Rightarrow> 'k list" where
  "gm_keys m = map fst m"

definition gm_wf :: "('k::linorder, 'v) gomap \<Rightarrow> bool" where
  "gm_wf m \<longleftrightarrow> sorted_wrt (<) (map fst m)"

lemma gm_wf_Nil [simp]: "gm_wf []"
  by (simp add: gm_wf_def)

lemma map_of_gm_set [simp]: "map_of (gm_set k v m) = (map_of m)(k \<mapsto> v)"
  by (induction k v m rule: gm_set.induct) (auto simp: fun_eq_iff)

lemma map_of_gm_del: "map_of (gm_del k m) = (map_of m)(k := None)"
  by (induction m) (auto simp: gm_del_def fun_eq_iff)

lemma set_gm_set: "fst ` set (gm_set k v m) = insert k (fst ` set m)"
  by (induction k v m rule: gm_set.induct) auto

lemma gm_wf_set [simp]: "gm_wf m \<Longrightarrow> gm_wf (gm_set k v m)"
proof (induction k v m rule: gm_set.induct)
  case (2 k v k' v' m)
  have keys: "fst ` set (gm_set k v m) = insert k (fst ` set m)" by (rule set_gm_set)
  from 2 show ?case
    using keys by (auto simp: gm_wf_def)
qed (simp add: gm_wf_def)

lemma gm_wf_del [simp]: "gm_wf m \<Longrightarrow> gm_wf (gm_del k m)"
  by (induction m) (auto simp: gm_wf_def gm_del_def)

lemma gm_wf_distinct: "gm_wf m \<Longrightarrow> distinct (map fst m)"
  by (auto simp: gm_wf_def strict_sorted_iff)

text \<open>A sorted list is built from its own entries: inserting them in any order gives it back.\<close>

lemma gm_set_snoc:
  "(\<And>k'. k' \<in> fst ` set m \<Longrightarrow> k' < k) \<Longrightarrow> gm_set k v m = m @ [(k, v)]"
  by (induction k v m rule: gm_set.induct) (auto dest: order.asym)

lemma gm_wf_snoc: "gm_wf (m @ [(k, v)]) \<longleftrightarrow> gm_wf m \<and> (\<forall>k' \<in> fst ` set m. k' < k)"
  by (auto simp: gm_wf_def sorted_wrt_append)

lemma gm_fold_set:
  "gm_wf (m @ n) \<Longrightarrow> foldl (\<lambda>acc (k, v). gm_set k v acc) m n = m @ n"
proof (induction n arbitrary: m)
  case (Cons kv n)
  obtain k v where kv: "kv = (k, v)" by (cases kv)
  have "gm_wf (m @ [(k, v)])"
    using Cons.prems by (simp add: kv gm_wf_def sorted_wrt_append)
  then have "gm_set k v m = m @ [(k, v)]"
    by (intro gm_set_snoc) (auto simp: gm_wf_snoc)
  with Cons show ?case by (simp add: kv)
qed simp

section \<open>Lists\<close>

lemma take_append_exact [simp]: "length xs = n \<Longrightarrow> take n (xs @ ys) = xs"
  by simp

lemma drop_append_exact [simp]: "length xs = n \<Longrightarrow> drop n (xs @ ys) = ys"
  by simp

lemma concat_map_snoc: "concat (map f (xs @ [x])) = concat (map f xs) @ f x"
  by simp

end
