(* ===== verification/Base64.thy ===== *)
theory Base64
  imports Prelude
begin

text \<open>
  \<open>encoding/base64.StdEncoding\<close>, which \<open>encoding/json\<close> uses for \<open>[]byte\<close> fields and
  \<open>internal/client/config/config.go\<close> for the cached credentials: the padded standard
  alphabet, decoding that skips carriage returns and newlines, and the round trip.
\<close>

abbreviation code :: "char \<Rightarrow> nat" where
  "code c \<equiv> of_char c"

definition b64_char :: "nat \<Rightarrow> char" where
  "b64_char n = char_of
     (if n < 26 then n + 65 else if n < 52 then n + 71 else if n < 62 then n - 4
      else if n = 62 then 43 else 47 :: nat)"

definition b64_val :: "char \<Rightarrow> nat option" where
  "b64_val c =
     (let n = code c in
      if 65 \<le> n \<and> n \<le> 90 then Some (n - 65)
      else if 97 \<le> n \<and> n \<le> 122 then Some (n - 71)
      else if 48 \<le> n \<and> n \<le> 57 then Some (n + 4)
      else if n = 43 then Some 62
      else if n = 47 then Some 63
      else None)"

definition b64_pad :: char where
  "b64_pad = CHR 0x3D"

fun b64_groups :: "nat list \<Rightarrow> string" where
  "b64_groups [] = []"
| "b64_groups [a] = [b64_char (a div 4), b64_char (a mod 4 * 16), b64_pad, b64_pad]"
| "b64_groups [a, b] =
     [b64_char (a div 4), b64_char (a mod 4 * 16 + b div 16), b64_char (b mod 16 * 4), b64_pad]"
| "b64_groups (a # b # c # r) =
     b64_char (a div 4) # b64_char (a mod 4 * 16 + b div 16)
     # b64_char (b mod 16 * 4 + c div 64) # b64_char (c mod 64) # b64_groups r"

fun b64_ungroup :: "string \<Rightarrow> nat list option" where
  "b64_ungroup [] = Some []"
| "b64_ungroup (p # q # r # s # t) =
     (case (b64_val p, b64_val q) of
        (Some w, Some x) \<Rightarrow>
          if s = b64_pad then
            (if t \<noteq> [] then None
             else if r = b64_pad then Some [w * 4 + x div 16]
             else case b64_val r of
                    Some y \<Rightarrow> Some [w * 4 + x div 16, x mod 16 * 16 + y div 4]
                  | None \<Rightarrow> None)
          else
            (case (b64_val r, b64_val s, b64_ungroup t) of
               (Some y, Some z, Some u) \<Rightarrow>
                 Some ([w * 4 + x div 16, x mod 16 * 16 + y div 4, y mod 4 * 64 + z] @ u)
             | _ \<Rightarrow> None)
      | _ \<Rightarrow> None)"
| "b64_ungroup _ = None"

definition b64_encode :: "bytes \<Rightarrow> string" where
  "b64_encode bs = b64_groups (map unat bs)"

definition b64_decode :: "string \<Rightarrow> bytes option" where
  "b64_decode s =
     map_option (map word_of_nat)
       (b64_ungroup (filter (\<lambda>c. c \<noteq> CHR 0x0A \<and> c \<noteq> CHR 0x0D) s))"

lemma code_b64_char:
  "n < 64 \<Longrightarrow> code (b64_char n) =
     (if n < 26 then n + 65 else if n < 52 then n + 71 else if n < 62 then n - 4
      else if n = 62 then 43 else 47)"
  by (auto simp: b64_char_def)

lemma b64_val_char [simp]: "n < 64 \<Longrightarrow> b64_val (b64_char n) = Some n"
  by (auto simp: b64_val_def code_b64_char Let_def)

lemma code_b64_range: "n < 64 \<Longrightarrow> 43 \<le> code (b64_char n) \<and> code (b64_char n) \<le> 122"
  by (auto simp: code_b64_char)

lemma b64_char_neq:
  assumes "n < 64"
  shows "b64_char n \<noteq> b64_pad" "b64_char n \<noteq> CHR 0x0A" "b64_char n \<noteq> CHR 0x0D"
    "b64_pad \<noteq> CHR 0x0A" "b64_pad \<noteq> CHR 0x0D"
proof -
  have *: "code (b64_char n) \<noteq> 61" "code (b64_char n) \<noteq> 10" "code (b64_char n) \<noteq> 13"
    using assms by (auto simp: code_b64_char)
  then show "b64_char n \<noteq> b64_pad" "b64_char n \<noteq> CHR 0x0A" "b64_char n \<noteq> CHR 0x0D"
    by (auto simp: b64_pad_def)
  show "b64_pad \<noteq> CHR 0x0A" "b64_pad \<noteq> CHR 0x0D"
    by (simp_all add: b64_pad_def)
qed

lemma six_bits:
  fixes a b c :: nat
  assumes "a < 256" "b < 256" "c < 256"
  shows "a div 4 < 64" "a mod 4 * 16 < 64" "a mod 4 * 16 + b div 16 < 64"
    "b mod 16 * 4 < 64" "b mod 16 * 4 + c div 64 < 64" "c mod 64 < 64"
    "a div 4 * 4 + (a mod 4 * 16) div 16 = a"
    "a div 4 * 4 + (a mod 4 * 16 + b div 16) div 16 = a"
    "(a mod 4 * 16 + b div 16) mod 16 * 16 + b mod 16 * 4 div 4 = b"
    "(a mod 4 * 16 + b div 16) mod 16 * 16 + (b mod 16 * 4 + c div 64) div 4 = b"
    "(b mod 16 * 4 + c div 64) mod 4 * 64 + c mod 64 = c"
proof -
  have split16: "(x * 16 + y) div 16 = x" "(x * 16 + y) mod 16 = y" if "y < 16" for x y :: nat
    using that by simp_all
  have split4: "(x * 4 + y) div 4 = x" "(x * 4 + y) mod 4 = y" if "y < 4" for x y :: nat
    using that by simp_all
  have lt: "a div 4 < 64" "a mod 4 < 4" "b div 16 < 16" "b mod 16 < 16" "c div 64 < 4" "c mod 64 < 64"
    using assms by simp_all
  from lt show "a div 4 < 64" "a mod 4 * 16 < 64" "a mod 4 * 16 + b div 16 < 64"
    "b mod 16 * 4 < 64" "b mod 16 * 4 + c div 64 < 64" "c mod 64 < 64"
    by linarith+
  show "a div 4 * 4 + (a mod 4 * 16) div 16 = a" by simp
  show "a div 4 * 4 + (a mod 4 * 16 + b div 16) div 16 = a"
    using lt by (simp add: split16)
  show "(a mod 4 * 16 + b div 16) mod 16 * 16 + b mod 16 * 4 div 4 = b"
    using lt by (simp only: split16) simp
  show "(a mod 4 * 16 + b div 16) mod 16 * 16 + (b mod 16 * 4 + c div 64) div 4 = b"
    using lt by (simp only: split16 split4) simp
  show "(b mod 16 * 4 + c div 64) mod 4 * 64 + c mod 64 = c"
    using lt by (simp only: split4) simp
qed

lemma low_byte: "b < 256 \<Longrightarrow> b div 16 mod 16 * 16 + b mod 16 = (b::nat)"
proof -
  assume "b < 256"
  then have "b div 16 < 16" by simp
  then have "b div 16 mod 16 = b div 16" by simp
  then show ?thesis by simp
qed

lemma b64_ungroup_groups:
  "\<forall>x \<in> set ns. x < 256 \<Longrightarrow> b64_ungroup (b64_groups ns) = Some ns"
proof (induction ns rule: b64_groups.induct)
  case (2 a)
  then show ?case using six_bits [of a 0 0] by (simp add: b64_char_neq)
next
  case (3 a b)
  then show ?case using six_bits [of a b 0] by (simp add: b64_char_neq)
next
  case (4 a b c r)
  then show ?case using six_bits [of a b c] by (simp add: b64_char_neq low_byte)
qed simp

lemma b64_groups_no_newline:
  "\<forall>x \<in> set ns. x < 256 \<Longrightarrow>
   filter (\<lambda>c. c \<noteq> CHR 0x0A \<and> c \<noteq> CHR 0x0D) (b64_groups ns) = b64_groups ns"
proof (induction ns rule: b64_groups.induct)
  case (2 a)
  then show ?case using six_bits [of a 0 0] by (simp add: b64_char_neq b64_char_neq(4,5) [of 0])
next
  case (3 a b)
  then show ?case using six_bits [of a b 0] by (simp add: b64_char_neq b64_char_neq(4,5) [of 0])
next
  case (4 a b c r)
  then show ?case using six_bits [of a b c] by (simp add: b64_char_neq)
qed simp

lemma unat_byte_lt: "x \<in> set (map unat (bs :: bytes)) \<Longrightarrow> x < 256"
  by (auto simp: unsigned_less [where 'b = 8, simplified])

theorem b64_roundtrip [simp]: "b64_decode (b64_encode bs) = Some bs"
proof -
  have "\<forall>x \<in> set (map unat bs). x < 256"
    using unat_byte_lt by blast
  then show ?thesis
    by (simp add: b64_decode_def b64_encode_def b64_groups_no_newline b64_ungroup_groups comp_def)
qed

text \<open>Base64 text is printable ASCII without quotes, backslashes or HTML characters.\<close>

definition b64_code :: "nat \<Rightarrow> bool" where
  "b64_code k \<longleftrightarrow> k \<in> {43, 47, 61} \<or> 48 \<le> k \<and> k \<le> 57 \<or> 65 \<le> k \<and> k \<le> 90 \<or> 97 \<le> k \<and> k \<le> 122"

lemma b64_code_char: "n < 64 \<Longrightarrow> b64_code (code (b64_char n))"
  by (auto simp: b64_code_def code_b64_char)

lemma b64_code_pad: "b64_code (code b64_pad)"
  by (simp add: b64_code_def b64_pad_def)

lemma b64_groups_codes:
  "\<forall>x \<in> set ns. x < 256 \<Longrightarrow> \<forall>c \<in> set (b64_groups ns). b64_code (code c)"
proof (induction ns rule: b64_groups.induct)
  case (2 a)
  then show ?case
    by (simp add: b64_code_char b64_code_pad six_bits(1,2) [of a 0 0])
next
  case (3 a b)
  then show ?case
    by (simp add: b64_code_char b64_code_pad six_bits(1,3,4) [of a b 0])
next
  case (4 a b c r)
  then show ?case
    by (simp add: b64_code_char six_bits(1,3,5,6) [of a b c])
qed simp

lemma b64_encode_codes: "c \<in> set (b64_encode bs) \<Longrightarrow> b64_code (code c)"
  unfolding b64_encode_def using unat_byte_lt b64_groups_codes by blast

lemma length_b64_encode:
  "length (b64_encode bs) = 4 * ((length bs + 2) div 3)"
proof -
  have "length (b64_groups ns) = 4 * ((length ns + 2) div 3)" for ns
  proof (induction ns rule: b64_groups.induct)
    case (4 a b c r)
    have "(5 + n) div 3 = Suc ((2 + n) div 3)" for n :: nat by presburger
    with 4 show ?case by simp
  qed simp_all
  then show ?thesis by (simp add: b64_encode_def)
qed

end
