(* ===== verification/Json_Text.thy ===== *)
theory Json_Text
  imports Base64
begin

text \<open>
  The text layer of Go 1.20's \<open>encoding/json\<close>: string escaping as \<open>Marshal\<close> writes it
  (HTML characters and control characters escaped, invalid UTF-8 replaced), string scanning as
  \<open>Unmarshal\<close> reads it, decimal integers, and a printer and a parser of whole JSON texts.
  The main result is that parsing inverts printing on well-formed trees.
\<close>

section \<open>UTF-8\<close>

definition in_range :: "nat \<Rightarrow> nat \<Rightarrow> nat \<Rightarrow> string \<Rightarrow> bool" where
  "in_range i lo hi s \<longleftrightarrow> i < length s \<and> lo \<le> code (s ! i) \<and> code (s ! i) \<le> hi"

text \<open>
  \<open>utf8.DecodeRune\<close>: the number of bytes of the encoded rune at the front, 0 where Go returns
  \<open>RuneError\<close> with width 1.
\<close>

definition utf8_len :: "string \<Rightarrow> nat" where
  "utf8_len s =
     (if s = [] then 0
      else let n = code (s ! 0) in
        if n < 0x80 then 1
        else if n < 0xC2 then 0
        else if n \<le> 0xDF then (if in_range 1 0x80 0xBF s then 2 else 0)
        else if n \<le> 0xEF then
          (if in_range 1 (if n = 0xE0 then 0xA0 else 0x80) (if n = 0xED then 0x9F else 0xBF) s
             \<and> in_range 2 0x80 0xBF s then 3 else 0)
        else if n \<le> 0xF4 then
          (if in_range 1 (if n = 0xF0 then 0x90 else 0x80) (if n = 0xF4 then 0x8F else 0xBF) s
             \<and> in_range 2 0x80 0xBF s \<and> in_range 3 0x80 0xBF s then 4 else 0)
        else 0)"

lemma utf8_len_Nil [simp]: "utf8_len [] = 0"
  by (simp add: utf8_len_def)

lemma utf8_len_le: "utf8_len s \<le> length s"
  by (auto simp: utf8_len_def in_range_def Let_def Suc_le_eq)

lemma utf8_len_ascii [simp]: "code c < 128 \<Longrightarrow> utf8_len (c # s) = 1"
  by (simp add: utf8_len_def)

lemma in_range_append: "in_range i lo hi s \<Longrightarrow> in_range i lo hi (s @ t)"
  by (auto simp: in_range_def nth_append)

lemma in_range_take: "i < n \<Longrightarrow> in_range i lo hi (take n s) = in_range i lo hi s"
  by (auto simp: in_range_def)

text \<open>Only the bytes of the rune itself matter.\<close>

lemma utf8_len_take_append:
  assumes "utf8_len s = n" and "0 < n"
  shows "utf8_len (take n s @ t) = n"
proof -
  have le: "n \<le> length s" using utf8_len_le [of s] assms by simp
  have ne: "s \<noteq> []" using assms by auto
  have hd: "(take n s @ t) ! 0 = s ! 0" using assms le by (simp add: nth_append)
  have *: "in_range i lo hi (take n s @ t)" if "in_range i lo hi s" "i < n" for i lo hi
    using that by (intro in_range_append) (simp add: in_range_take)
  show ?thesis
    using assms ne * unfolding utf8_len_def hd
    by (simp add: Let_def split: if_splits)
qed

lemma utf8_len_cases: "utf8_len s \<in> {0, 1, 2, 3, 4}"
  by (auto simp: utf8_len_def Let_def)

function utf8_valid :: "string \<Rightarrow> bool" where
  "utf8_valid [] = True"
| "utf8_valid (c # cs) =
     (0 < utf8_len (c # cs) \<and> utf8_valid (drop (utf8_len (c # cs) - 1) cs))"
  by pat_completeness auto
termination
  by (relation "measure length") (auto simp: less_Suc_eq_le)

lemma utf8_valid_ascii: "(\<And>c. c \<in> set s \<Longrightarrow> code c < 128) \<Longrightarrow> utf8_valid s"
  by (induction s) auto

section \<open>Escaping\<close>

definition hex_char :: "nat \<Rightarrow> char" where
  "hex_char n = char_of (if n < 10 then n + 48 else n + 87 :: nat)"

definition hex_val :: "char \<Rightarrow> nat option" where
  "hex_val c =
     (let n = code c in
      if 48 \<le> n \<and> n \<le> 57 then Some (n - 48)
      else if 97 \<le> n \<and> n \<le> 102 then Some (n - 87)
      else if 65 \<le> n \<and> n \<le> 70 then Some (n - 55)
      else None)"

lemma hex_val_char [simp]: "n < 16 \<Longrightarrow> hex_val (hex_char n) = Some n"
  by (auto simp: hex_val_def hex_char_def Let_def)

definition ch_quote :: char where "ch_quote = CHR 0x22"
definition ch_bslash :: char where "ch_bslash = CHR 0x5C"

lemma code_quote [simp]: "code ch_quote = 34" by (simp add: ch_quote_def)
lemma code_bslash [simp]: "code ch_bslash = 92" by (simp add: ch_bslash_def)

text \<open>One ASCII byte of a string literal; \<open>htmlSafeSet\<close> is the last branch.\<close>

definition escape_ascii :: "char \<Rightarrow> string" where
  "escape_ascii c =
     (let n = code c in
      if c = ch_quote \<or> c = ch_bslash then [ch_bslash, c]
      else if n = 10 then ch_bslash # ''n''
      else if n = 13 then ch_bslash # ''r''
      else if n = 9 then ch_bslash # ''t''
      else if n < 32 \<or> n = 60 \<or> n = 62 \<or> n = 38
        then ch_bslash # ''u00'' @ [hex_char (n div 16), hex_char (n mod 16)]
      else [c])"

definition line_sep :: string where
  "line_sep = [CHR 0xE2, CHR 0x80, CHR 0xA8]"

definition par_sep :: string where
  "par_sep = [CHR 0xE2, CHR 0x80, CHR 0xA9]"

function json_escape :: "string \<Rightarrow> string" where
  "json_escape [] = []"
| "json_escape (c # cs) =
     (if code c < 128 then escape_ascii c @ json_escape cs
      else let n = utf8_len (c # cs) in
        if n = 0 then ch_bslash # ''ufffd'' @ json_escape cs
        else if take 3 (c # cs) = line_sep then ch_bslash # ''u2028'' @ json_escape (drop (n - 1) cs)
        else if take 3 (c # cs) = par_sep then ch_bslash # ''u2029'' @ json_escape (drop (n - 1) cs)
        else take n (c # cs) @ json_escape (drop (n - 1) cs))"
  by pat_completeness auto
termination
  by (relation "measure length") (auto simp: less_Suc_eq_le)

definition json_quote :: "string \<Rightarrow> string" where
  "json_quote s = ch_quote # json_escape s @ [ch_quote]"

section \<open>Reading a string literal\<close>

definition hex4 :: "string \<Rightarrow> nat option" where
  "hex4 s = (case s of
     a # b # c # d # _ \<Rightarrow>
       (case (hex_val a, hex_val b, hex_val c, hex_val d) of
          (Some w, Some x, Some y, Some z) \<Rightarrow> Some (((w * 16 + x) * 16 + y) * 16 + z)
        | _ \<Rightarrow> None)
   | _ \<Rightarrow> None)"

definition utf8_encode :: "nat \<Rightarrow> string" where
  "utf8_encode r =
     (if r < 0x80 then [char_of r]
      else if r < 0x800 then [char_of (0xC0 + r div 64), char_of (0x80 + r mod 64)]
      else if r < 0x10000 then
        [char_of (0xE0 + r div 4096), char_of (0x80 + r div 64 mod 64), char_of (0x80 + r mod 64)]
      else
        [char_of (0xF0 + r div 262144), char_of (0x80 + r div 4096 mod 64),
         char_of (0x80 + r div 64 mod 64), char_of (0x80 + r mod 64)])"

definition rune_error :: string where
  "rune_error = utf8_encode 0xFFFD"

definition is_surrogate :: "nat \<Rightarrow> bool" where
  "is_surrogate r \<longleftrightarrow> 0xD800 \<le> r \<and> r < 0xE000"

text \<open>The second half of a surrogate pair, if a \<open>\u\<close> escape with one follows.\<close>

definition surrogate_pair :: "nat \<Rightarrow> string \<Rightarrow> nat option" where
  "surrogate_pair r s = (case s of
     a # b # t \<Rightarrow>
       (if a = ch_bslash \<and> b = CHR ''u'' then
          (case hex4 t of
             Some r1 \<Rightarrow>
               if r < 0xDC00 \<and> 0xDC00 \<le> r1 \<and> r1 < 0xE000
               then Some ((r - 0xD800) * 1024 + (r1 - 0xDC00) + 0x10000) else None
           | None \<Rightarrow> None)
        else None)
   | _ \<Rightarrow> None)"

definition simple_escape :: "char \<Rightarrow> char option" where
  "simple_escape e =
     (if e = ch_quote \<or> e = ch_bslash \<or> e = CHR ''/'' then Some e
      else if e = CHR ''b'' then Some (CHR 0x08)
      else if e = CHR ''f'' then Some (CHR 0x0C)
      else if e = CHR ''n'' then Some (CHR 0x0A)
      else if e = CHR ''r'' then Some (CHR 0x0D)
      else if e = CHR ''t'' then Some (CHR 0x09)
      else None)"

definition push :: "string \<Rightarrow> (string \<times> string) option \<Rightarrow> (string \<times> string) option" where
  "push xs = map_option (\<lambda>(s, r). (xs @ s, r))"

lemma push_Some [simp]: "push xs (Some (s, r)) = Some (xs @ s, r)"
  by (simp add: push_def)

text \<open>The contents of a literal after its opening quote, and the text after the closing one.\<close>

function parse_str :: "string \<Rightarrow> (string \<times> string) option" where
  "parse_str [] = None"
| "parse_str (c # cs) =
     (if c = ch_quote then Some ([], cs)
      else if c = ch_bslash then
        (case cs of
           [] \<Rightarrow> None
         | e # r \<Rightarrow>
             (if e = CHR ''u'' then
                (case hex4 r of
                   None \<Rightarrow> None
                 | Some rr \<Rightarrow>
                     if is_surrogate rr then
                       (case surrogate_pair rr (drop 4 r) of
                          Some rune \<Rightarrow> push (utf8_encode rune) (parse_str (drop 10 r))
                        | None \<Rightarrow> push rune_error (parse_str (drop 4 r)))
                     else push (utf8_encode rr) (parse_str (drop 4 r)))
              else
                (case simple_escape e of
                   Some x \<Rightarrow> push [x] (parse_str r)
                 | None \<Rightarrow> None)))
      else if code c < 32 then None
      else if code c < 128 then push [c] (parse_str cs)
      else let n = utf8_len (c # cs) in
        if n = 0 then push rune_error (parse_str cs)
        else push (take n (c # cs)) (parse_str (drop (n - 1) cs)))"
  by pat_completeness auto
termination
  by (relation "measure length") (auto simp: less_Suc_eq_le)

declare json_escape.simps(2) [simp del] parse_str.simps(2) [simp del] utf8_valid.simps(2) [simp del]

lemma parse_str_quote [simp]: "parse_str (ch_quote # r) = Some ([], r)"
  by (simp add: parse_str.simps(2))

lemma parse_str_plain:
  "32 \<le> code c \<Longrightarrow> code c < 128 \<Longrightarrow> c \<noteq> ch_quote \<Longrightarrow> c \<noteq> ch_bslash \<Longrightarrow>
   parse_str (c # r) = push [c] (parse_str r)"
  by (simp add: parse_str.simps(2))

lemma quote_neq_bslash [simp]: "ch_bslash \<noteq> ch_quote" "ch_quote \<noteq> ch_bslash"
  by (simp_all add: ch_quote_def ch_bslash_def)

lemma parse_str_escape:
  "simple_escape e = Some x \<Longrightarrow> e \<noteq> CHR ''u'' \<Longrightarrow>
   parse_str (ch_bslash # e # r) = push [x] (parse_str r)"
  by (simp add: parse_str.simps(2))

lemma parse_str_u:
  "hex4 (a # b # c # d # r) = Some rr \<Longrightarrow> \<not> is_surrogate rr \<Longrightarrow>
   parse_str (ch_bslash # CHR ''u'' # a # b # c # d # r) = push (utf8_encode rr) (parse_str r)"
  by (simp add: parse_str.simps(2))

lemma hex_val_zero: "hex_val (CHR ''0'') = Some 0"
  by (simp add: hex_val_def)

lemma hex4_low: "m < 16 \<Longrightarrow> n < 16 \<Longrightarrow>
    hex4 (CHR ''0'' # CHR ''0'' # hex_char m # hex_char n # r) = Some (m * 16 + n)"
  by (simp add: hex4_def hex_val_zero)

lemma code_inject: "code c = code d \<Longrightarrow> c = d"
  by simp

lemma parse_str_escape_ascii:
  assumes "code c < 128"
  shows "parse_str (escape_ascii c @ r) = push [c] (parse_str r)"
proof -
  consider (q) "c = ch_quote \<or> c = ch_bslash" | (n) "code c = 10" | (r) "code c = 13"
    | (t) "code c = 9"
    | (u) "c \<noteq> ch_quote" "c \<noteq> ch_bslash" "code c \<noteq> 10" "code c \<noteq> 13" "code c \<noteq> 9"
        "code c < 32 \<or> code c = 60 \<or> code c = 62 \<or> code c = 38"
    | (p) "c \<noteq> ch_quote" "c \<noteq> ch_bslash" "32 \<le> code c" "code c \<noteq> 60" "code c \<noteq> 62" "code c \<noteq> 38"
    by fastforce
  then show ?thesis
  proof cases
    case q
    then have "simple_escape c = Some c" "c \<noteq> CHR ''u''"
      by (auto simp: simple_escape_def ch_quote_def ch_bslash_def)
    with q show ?thesis by (auto simp: escape_ascii_def Let_def parse_str_escape)
  next
    case n
    then have "c = CHR 0x0A" by (intro code_inject) simp
    then show ?thesis
      by (simp add: escape_ascii_def ch_quote_def ch_bslash_def
          parse_str_escape [unfolded ch_bslash_def] simple_escape_def)
  next
    case r
    then have "c = CHR 0x0D" by (intro code_inject) simp
    then show ?thesis
      by (simp add: escape_ascii_def ch_quote_def ch_bslash_def
          parse_str_escape [unfolded ch_bslash_def] simple_escape_def)
  next
    case t
    then have "c = CHR 0x09" by (intro code_inject) simp
    then show ?thesis
      by (simp add: escape_ascii_def ch_quote_def ch_bslash_def
          parse_str_escape [unfolded ch_bslash_def] simple_escape_def)
  next
    case u
    let ?m = "code c div 16" and ?n = "code c mod 16"
    have lt: "?m < 16" "?n < 16" using assms by auto
    have val: "?m * 16 + ?n = code c" by simp
    have hex: "hex4 (CHR ''0'' # CHR ''0'' # hex_char ?m # hex_char ?n # r) = Some (code c)"
      using hex4_low [OF lt] by (simp only: val)
    have sur: "\<not> is_surrogate (code c)" and enc: "utf8_encode (code c) = [c]"
      using assms by (simp_all add: is_surrogate_def utf8_encode_def)
    have "parse_str (ch_bslash # CHR ''u'' # CHR ''0'' # CHR ''0'' #
        hex_char ?m # hex_char ?n # r) = push [c] (parse_str r)"
      using parse_str_u [OF hex sur] by (simp only: enc)
    with u show ?thesis by (simp add: escape_ascii_def Let_def)
  next
    case p
    then show ?thesis using assms by (simp add: escape_ascii_def Let_def parse_str_plain)
  qed
qed

lemma parse_str_rune:
  assumes "utf8_len s = n" "0 < n" "128 \<le> code (hd s)"
  shows "parse_str (take n s @ r) = push (take n s) (parse_str r)"
proof -
  obtain c cs where s: "s = c # cs" using assms by (cases s) auto
  obtain m where n: "n = Suc m" using assms(2) by (cases n) auto
  have le: "m \<le> length cs" using utf8_len_le [of s] assms(1) by (simp add: s n)
  have len: "utf8_len (take n s @ r) = n"
    by (rule utf8_len_take_append) (use assms in auto)
  have c: "c \<noteq> ch_quote" "c \<noteq> ch_bslash" "\<not> code c < 128"
    using assms(3) by (auto simp: s ch_quote_def ch_bslash_def)
  have "take n s @ r = c # take m cs @ r" by (simp add: s n)
  moreover have "drop m (take m cs @ r) = r" "take m (take m cs @ r) = take m cs"
    using le by (simp_all add: s n min_absorb2)
  ultimately show ?thesis
    using len c le by (simp add: parse_str.simps(2) [of c] Let_def n s min_absorb2)
qed

theorem parse_json_escape:
  "utf8_valid s \<Longrightarrow> parse_str (json_escape s @ ch_quote # r) = Some (s, r)"
proof (induction s rule: json_escape.induct)
  case (2 c cs)
  let ?s = "c # cs" and ?n = "utf8_len (c # cs)"
  have n0: "0 < ?n" and rest: "utf8_valid (drop (?n - 1) cs)"
    using "2.prems" by (simp_all add: utf8_valid.simps(2))
  show ?case
  proof (cases "code c < 128")
    case True
    with rest have "utf8_valid cs" by simp
    with True "2.IH"(1) show ?thesis
      by (simp add: json_escape.simps(2) [of c] parse_str_escape_ascii)
  next
    case False
    have drop: "drop ?n ?s = drop (?n - 1) cs" using n0 by (cases ?n) auto
    have split: "take ?n ?s @ drop (?n - 1) cs = ?s"
      using append_take_drop_id [of ?n ?s] by (simp only: drop)
    have sep: "?n = 3" if "take 3 ?s = line_sep \<or> take 3 ?s = par_sep"
    proof -
      have "3 \<le> length ?s" using that by (auto simp: line_sep_def par_sep_def dest: arg_cong [of _ _ length])
      moreover from this obtain d e t where "cs = d # e # t"
        by (metis One_nat_def Suc_le_length_iff length_Cons numeral_3_eq_3 Suc_le_mono list.sel(3))
      ultimately show ?thesis
        using that by (auto simp: line_sep_def par_sep_def utf8_len_def in_range_def numeral_2_eq_2)
    qed
    consider (l) "take 3 ?s = line_sep" | (p) "take 3 ?s = par_sep" "take 3 ?s \<noteq> line_sep"
      | (o) "take 3 ?s \<noteq> line_sep" "take 3 ?s \<noteq> par_sep" by blast
    then show ?thesis
    proof cases
      case l
      have "hex4 (''2028'' @ r') = Some 0x2028" for r'
        by (simp add: hex4_def hex_val_def)
      moreover have "utf8_encode 0x2028 = line_sep"
        by (simp add: utf8_encode_def line_sep_def char_of_eq_iff)
      ultimately show ?thesis
        using l n0 False "2.IH"(3) rest split sep
        by (simp add: json_escape.simps(2) [of c] Let_def parse_str_u is_surrogate_def)
    next
      case p
      have "hex4 (''2029'' @ r') = Some 0x2029" for r'
        by (simp add: hex4_def hex_val_def)
      moreover have "utf8_encode 0x2029 = par_sep"
        by (simp add: utf8_encode_def par_sep_def char_of_eq_iff)
      ultimately show ?thesis
        using p n0 False "2.IH"(4) rest split sep
        by (simp add: json_escape.simps(2) [of c] Let_def parse_str_u is_surrogate_def)
    next
      case o
      then show ?thesis
        using n0 False "2.IH"(5) rest split parse_str_rune [of ?s ?n]
        by (simp add: json_escape.simps(2) [of c] Let_def del: take_Cons')
    qed
  qed
qed simp

end
