(* ===== verification/Json.thy ===== *)
theory Json
  imports Json_Text
begin

text \<open>
  JSON trees, the compact printer of \<open>json.Marshal\<close> and the parser behind
  \<open>json.Unmarshal\<close>, with the round trip \<open>json_parse (json_print v) = Some v\<close>. Numbers are
  kept as their literal text, as the decoder does.
\<close>

datatype json =
    JNull
  | JBool bool
  | JNum string
  | JStr string
  | JArr "json list"
  | JObj "(string \<times> json) list"

section \<open>Decimal integers\<close>

fun show_nat :: "nat \<Rightarrow> string" where
  "show_nat n = (if n < 10 then [char_of (n + 48)] else show_nat (n div 10) @ [char_of (n mod 10 + 48)])"

declare show_nat.simps [simp del]

definition show_int :: "int \<Rightarrow> string" where
  "show_int i = (if i < 0 then ''-'' @ show_nat (nat (- i)) else show_nat (nat i))"

definition is_digit :: "char \<Rightarrow> bool" where
  "is_digit c \<longleftrightarrow> 48 \<le> code c \<and> code c \<le> 57"

definition digits_val :: "string \<Rightarrow> nat" where
  "digits_val s = foldl (\<lambda>a c. a * 10 + (code c - 48)) 0 s"

text \<open>\<open>strconv.ParseInt\<close> and \<open>big.Int\<close> in base 10: an optional sign and digits only.\<close>

definition parse_int :: "string \<Rightarrow> int option" where
  "parse_int s =
     (let neg = (s \<noteq> [] \<and> hd s = CHR ''-''); t = (if neg then tl s else s) in
      if t \<noteq> [] \<and> list_all is_digit t
      then Some (if neg then - int (digits_val t) else int (digits_val t)) else None)"

lemma code_digit: "n < 10 \<Longrightarrow> code (char_of (n + 48 :: nat)) = n + 48"
  by simp

lemma show_nat_digits: "c \<in> set (show_nat n) \<Longrightarrow> is_digit c"
proof (induction n rule: show_nat.induct)
  case (1 n)
  show ?case
  proof (cases "n < 10")
    case True
    with "1.prems" show ?thesis by (auto simp: show_nat.simps [of n] is_digit_def)
  next
    case False
    have "n mod 10 < 10" by simp
    with False 1 show ?thesis by (auto simp: show_nat.simps [of n] is_digit_def)
  qed
qed

lemma show_nat_nonempty [simp]: "show_nat n \<noteq> []"
  by (subst show_nat.simps) simp

lemma digits_val_show [simp]: "digits_val (show_nat n) = n"
proof (induction n rule: show_nat.induct)
  case (1 n)
  show ?case
  proof (cases "n < 10")
    case True
    then show ?thesis by (simp add: show_nat.simps [of n] digits_val_def)
  next
    case False
    have "n mod 10 < 10" by simp
    then have "digits_val (show_nat n) = digits_val (show_nat (n div 10)) * 10 + n mod 10"
      using False by (simp add: show_nat.simps [of n] digits_val_def)
    with False 1 show ?thesis by simp
  qed
qed

lemma show_nat_leading_zero: "hd (show_nat n) = CHR ''0'' \<Longrightarrow> n = 0 \<and> show_nat n = ''0''"
proof (induction n rule: show_nat.induct)
  case (1 n)
  show ?case
  proof (cases "n < 10")
    case True
    then have "hd (show_nat n) = char_of (n + 48)" by (simp add: show_nat.simps [of n])
    with "1.prems" have "code (char_of (n + 48 :: nat)) = 48" by simp
    with True have "n = 0" by simp
    then show ?thesis by (simp add: show_nat.simps [of 0] char_of_eq_iff)
  next
    case False
    then have "hd (show_nat n) = hd (show_nat (n div 10))" by (simp add: show_nat.simps [of n])
    with "1.prems" False 1(1) have "n div 10 = 0" by simp
    with False show ?thesis by simp
  qed
qed

lemma digit_not_sign: "is_digit c \<Longrightarrow> c \<noteq> CHR ''-''"
  by (auto simp: is_digit_def)

lemma parse_int_show [simp]: "parse_int (show_int i) = Some i"
proof -
  have "hd (show_nat n) \<noteq> CHR ''-''" for n
    using show_nat_digits [of "hd (show_nat n)" n] digit_not_sign by simp
  then show ?thesis
    by (auto simp: parse_int_def show_int_def list_all_iff Let_def dest: show_nat_digits)
qed

section \<open>Scanning a number\<close>

definition after_digits :: "string \<Rightarrow> (string \<times> string) option" where
  "after_digits s =
     (let d = takeWhile is_digit s in if d = [] then None else Some (d, dropWhile is_digit s))"

definition scan_fraction :: "string \<Rightarrow> (string \<times> string) option" where
  "scan_fraction s = (case s of
     c # t \<Rightarrow> if c = CHR ''.'' then push ''.'' (after_digits t) else Some ([], s)
   | [] \<Rightarrow> Some ([], []))"

definition scan_exponent :: "string \<Rightarrow> (string \<times> string) option" where
  "scan_exponent s = (case s of
     c # t \<Rightarrow>
       if c = CHR ''e'' \<or> c = CHR ''E'' then
         (case t of
            d # u \<Rightarrow> if d = CHR ''+'' \<or> d = CHR ''-'' then push [c, d] (after_digits u)
                     else push [c] (after_digits t)
          | [] \<Rightarrow> None)
       else Some ([], s)
   | [] \<Rightarrow> Some ([], []))"

definition scan_unsigned :: "string \<Rightarrow> (string \<times> string) option" where
  "scan_unsigned s = (case s of
     [] \<Rightarrow> None
   | c # t \<Rightarrow>
       (case (if c = CHR ''0'' then Some ([c], t) else after_digits s) of
          None \<Rightarrow> None
        | Some (i, r) \<Rightarrow>
            (case scan_fraction r of
               None \<Rightarrow> None
             | Some (f, r') \<Rightarrow> push (i @ f) (scan_exponent r'))))"

definition scan_number :: "string \<Rightarrow> (string \<times> string) option" where
  "scan_number s =
     (if s \<noteq> [] \<and> hd s = CHR ''-'' then push ''-'' (scan_unsigned (tl s)) else scan_unsigned s)"

definition number_end :: "string \<Rightarrow> bool" where
  "number_end r \<longleftrightarrow> r = [] \<or> hd r \<in> {CHR '','', CHR '']'', CHR ''}'', CHR 0x0A}"

lemma number_endD:
  "number_end r \<Longrightarrow> scan_fraction r = Some ([], r) \<and> scan_exponent r = Some ([], r)
     \<and> takeWhile is_digit r = [] \<and> dropWhile is_digit r = r"
  by (cases r) (auto simp: number_end_def scan_fraction_def scan_exponent_def is_digit_def)

lemma scan_unsigned_show:
  assumes "number_end r"
  shows "scan_unsigned (show_nat n @ r) = Some (show_nat n, r)"
proof -
  obtain c t where ct: "show_nat n = c # t" by (cases "show_nat n") auto
  have dig: "\<forall>d \<in> set (show_nat n). is_digit d" using show_nat_digits by blast
  have tw: "takeWhile is_digit (show_nat n @ r) = show_nat n"
    "dropWhile is_digit (show_nat n @ r) = r"
    using dig number_endD [OF assms] by (simp_all add: takeWhile_append dropWhile_append)
  show ?thesis
  proof (cases "c = CHR ''0''")
    case True
    then have "t = []" using show_nat_leading_zero [of n] ct by simp
    with True ct show ?thesis using number_endD [OF assms] by (simp add: scan_unsigned_def)
  next
    case False
    have "after_digits (c # t @ r) = Some (show_nat n, r)"
      using tw by (simp add: after_digits_def ct)
    with False ct show ?thesis using number_endD [OF assms] by (simp add: scan_unsigned_def)
  qed
qed

lemma scan_number_show:
  assumes "number_end r"
  shows "scan_number (show_int i @ r) = Some (show_int i, r)"
proof -
  have "hd (show_nat n @ r) \<noteq> CHR ''-''" for n
    using show_nat_digits [of "hd (show_nat n)" n] digit_not_sign by simp
  then show ?thesis
    using assms by (auto simp: scan_number_def show_int_def scan_unsigned_show)
qed

section \<open>Printing\<close>

fun print_sep :: "string list \<Rightarrow> string" where
  "print_sep [] = []"
| "print_sep [x] = x"
| "print_sep (x # y # r) = x @ '','' @ print_sep (y # r)"

fun json_print :: "json \<Rightarrow> string" where
  "json_print JNull = ''null''"
| "json_print (JBool b) = (if b then ''true'' else ''false'')"
| "json_print (JNum s) = s"
| "json_print (JStr s) = json_quote s"
| "json_print (JArr xs) = ''['' @ print_sep (map json_print xs) @ '']''"
| "json_print (JObj kvs) =
     ''{'' @ print_sep (map (\<lambda>(k, v). json_quote k @ '':'' @ json_print v) kvs) @ ''}''"

section \<open>Parsing\<close>

definition is_space :: "char \<Rightarrow> bool" where
  "is_space c \<longleftrightarrow> code c \<in> {32, 9, 10, 13}"

definition skip_ws :: "string \<Rightarrow> string" where
  "skip_ws s = dropWhile is_space s"

text \<open>The fuel bounds the nesting; \<open>json_parse\<close> gives more than the text can use.\<close>

fun parse_value :: "nat \<Rightarrow> string \<Rightarrow> (json \<times> string) option"
  and parse_elems :: "nat \<Rightarrow> string \<Rightarrow> (json list \<times> string) option"
  and parse_members :: "nat \<Rightarrow> string \<Rightarrow> ((string \<times> json) list \<times> string) option"
where
  "parse_value 0 s = None"
| "parse_value (Suc n) s = (case s of
     [] \<Rightarrow> None
   | c # t \<Rightarrow>
       if c = CHR ''{'' then
         (let u = skip_ws t in
          if u \<noteq> [] \<and> hd u = CHR ''}'' then Some (JObj [], tl u)
          else map_option (\<lambda>(m, r). (JObj m, r)) (parse_members n u))
       else if c = CHR ''['' then
         (let u = skip_ws t in
          if u \<noteq> [] \<and> hd u = CHR '']'' then Some (JArr [], tl u)
          else map_option (\<lambda>(m, r). (JArr m, r)) (parse_elems n u))
       else if c = ch_quote then map_option (\<lambda>(x, r). (JStr x, r)) (parse_str t)
       else if take 4 s = ''null'' then Some (JNull, drop 4 s)
       else if take 4 s = ''true'' then Some (JBool True, drop 4 s)
       else if take 5 s = ''false'' then Some (JBool False, drop 5 s)
       else map_option (\<lambda>(x, r). (JNum x, r)) (scan_number s))"
| "parse_elems 0 s = None"
| "parse_elems (Suc n) s = (case parse_value n s of
     None \<Rightarrow> None
   | Some (v, r) \<Rightarrow>
       (case skip_ws r of
          [] \<Rightarrow> None
        | c # t \<Rightarrow>
            if c = CHR '','' then map_option (\<lambda>(m, r'). (v # m, r')) (parse_elems n (skip_ws t))
            else if c = CHR '']'' then Some ([v], t)
            else None))"
| "parse_members 0 s = None"
| "parse_members (Suc n) s = (case s of
     [] \<Rightarrow> None
   | c # t \<Rightarrow>
       if c \<noteq> ch_quote then None
       else (case parse_str t of
          None \<Rightarrow> None
        | Some (k, r) \<Rightarrow>
            (case skip_ws r of
               [] \<Rightarrow> None
             | d # u \<Rightarrow>
                 if d \<noteq> CHR '':'' then None
                 else (case parse_value n (skip_ws u) of
                    None \<Rightarrow> None
                  | Some (v, r') \<Rightarrow>
                      (case skip_ws r' of
                         [] \<Rightarrow> None
                       | e # w \<Rightarrow>
                           if e = CHR '','' then
                             map_option (\<lambda>(m, r''). ((k, v) # m, r'')) (parse_members n (skip_ws w))
                           else if e = CHR ''}'' then Some ([(k, v)], w)
                           else None)))))"

definition json_parse :: "string \<Rightarrow> json option" where
  "json_parse s = (case parse_value (Suc (length s)) (skip_ws s) of
     Some (v, r) \<Rightarrow> if skip_ws r = [] then Some v else None
   | None \<Rightarrow> None)"

section \<open>Round trip\<close>

text \<open>Trees the code marshals: valid UTF-8 strings and integer literals.\<close>

fun json_wf :: "json \<Rightarrow> bool" where
  "json_wf JNull = True"
| "json_wf (JBool b) = True"
| "json_wf (JNum s) = (\<exists>i. s = show_int i)"
| "json_wf (JStr s) = utf8_valid s"
| "json_wf (JArr xs) = (\<forall>x \<in> set xs. json_wf x)"
| "json_wf (JObj kvs) = (\<forall>kv \<in> set kvs. utf8_valid (fst kv) \<and> json_wf (snd kv))"

declare parse_value.simps [simp del] parse_elems.simps [simp del] parse_members.simps [simp del]

lemma skip_ws_id: "s \<noteq> [] \<Longrightarrow> \<not> is_space (hd s) \<Longrightarrow> skip_ws s = s"
  by (cases s) (auto simp: skip_ws_def)

lemma show_int_first: "show_int i = c # t \<Longrightarrow> is_digit c \<or> c = CHR ''-''"
  using show_nat_digits by (auto simp: show_int_def split: if_splits) (metis list.set_intros(1))

lemma json_print_first:
  assumes "json_wf v"
  shows "json_print v \<noteq> []" "\<not> is_space (hd (json_print v))"
    "hd (json_print v) \<noteq> CHR '']''" "hd (json_print v) \<noteq> CHR ''}''"
proof -
  have "json_print v \<noteq> [] \<and> \<not> is_space (hd (json_print v)) \<and> hd (json_print v) \<noteq> CHR '']''
     \<and> hd (json_print v) \<noteq> CHR ''}''"
  proof (cases v)
    case (JNum s)
    with assms obtain i where i: "s = show_int i" by auto
    obtain c t where ct: "show_int i = c # t" by (cases "show_int i") (auto simp: show_int_def split: if_splits)
    show ?thesis
      using show_int_first [OF ct] by (auto simp: JNum i ct is_digit_def is_space_def)
  qed (auto simp: json_quote_def ch_quote_def is_space_def)
  then show "json_print v \<noteq> []" "\<not> is_space (hd (json_print v))"
    "hd (json_print v) \<noteq> CHR '']''" "hd (json_print v) \<noteq> CHR ''}''" by auto
qed

lemma skip_ws_print [simp]: "json_wf v \<Longrightarrow> skip_ws (json_print v @ r) = json_print v @ r"
  by (intro skip_ws_id) (simp_all add: json_print_first)

lemma print_sep_Cons:
  "print_sep (x # xs) = x @ (if xs = [] then [] else '','' @ print_sep xs)"
  by (cases xs) simp_all

lemma skip_ws_char: "\<not> is_space c \<Longrightarrow> skip_ws (c # s) = c # s"
  by (simp add: skip_ws_def)

lemma parse_elems_print:
  assumes "\<And>v n r. v \<in> set xs \<Longrightarrow> number_end r \<Longrightarrow> length (json_print v) < n \<Longrightarrow>
      parse_value n (json_print v @ r) = Some (v, r)"
    and "\<forall>x \<in> set xs. json_wf x" and "xs \<noteq> []"
    and "Suc (length (print_sep (map json_print xs))) < n"
  shows "parse_elems n (print_sep (map json_print xs) @ '']'' @ r) = Some (xs, r)"
  using assms
proof (induction xs arbitrary: n)
  case (Cons x xs)
  obtain m where n: "n = Suc m" using Cons.prems(4) by (cases n) auto
  let ?r = "if xs = [] then '']'' @ r else '','' @ print_sep (map json_print xs) @ '']'' @ r"
  have "number_end ?r" by (auto simp: number_end_def)
  moreover have "length (json_print x) < m"
    using Cons.prems(4) by (auto simp: n print_sep_Cons split: if_splits)
  ultimately have first: "parse_value m (json_print x @ ?r) = Some (x, ?r)"
    using Cons.prems(1) by simp
  show ?case
  proof (cases "xs = []")
    case True
    with first show ?thesis
      by (simp add: n parse_elems.simps skip_ws_char is_space_def)
  next
    case False
    then obtain y ys where xs: "xs = y # ys" by (cases xs) auto
    have "skip_ws (print_sep (map json_print xs) @ '']'' @ r)
        = print_sep (map json_print xs) @ '']'' @ r"
      using Cons.prems(2) by (simp add: xs print_sep_Cons)
    moreover have "parse_elems m (print_sep (map json_print xs) @ '']'' @ r) = Some (xs, r)"
      using Cons False by (intro Cons.IH) (auto simp: n print_sep_Cons)
    ultimately show ?thesis
      using first False by (simp add: n parse_elems.simps print_sep_Cons skip_ws_char is_space_def)
  qed
qed simp

abbreviation print_member :: "string \<times> json \<Rightarrow> string" where
  "print_member \<equiv> \<lambda>(k, v). json_quote k @ '':'' @ json_print v"

lemma parse_members_print:
  assumes "\<And>v n r. v \<in> snd ` set kvs \<Longrightarrow> number_end r \<Longrightarrow> length (json_print v) < n \<Longrightarrow>
      parse_value n (json_print v @ r) = Some (v, r)"
    and "\<forall>kv \<in> set kvs. utf8_valid (fst kv) \<and> json_wf (snd kv)" and "kvs \<noteq> []"
    and "Suc (length (print_sep (map print_member kvs))) < n"
  shows "parse_members n (print_sep (map print_member kvs) @ ''}'' @ r) = Some (kvs, r)"
  using assms
proof (induction kvs arbitrary: n)
  case (Cons kv kvs)
  obtain m where n: "n = Suc m" using Cons.prems(4) by (cases n) auto
  obtain k v where kv: "kv = (k, v)" by (cases kv)
  let ?r = "if kvs = [] then ''}'' @ r else '','' @ print_sep (map print_member kvs) @ ''}'' @ r"
  have "number_end ?r" by (auto simp: number_end_def)
  moreover have "length (json_print v) < m"
    using Cons.prems(4) by (auto simp: n kv print_sep_Cons split: if_splits)
  ultimately have first: "parse_value m (json_print v @ ?r) = Some (v, ?r)"
    using Cons.prems(1) by (simp add: kv)
  have key: "parse_str (json_escape k @ ch_quote # u) = Some (k, u)" for u
    using Cons.prems(2) by (simp add: kv parse_json_escape)
  have wf: "json_wf v" using Cons.prems(2) by (simp add: kv)
  show ?case
  proof (cases "kvs = []")
    case True
    with first wf show ?thesis
      by (simp add: n kv parse_members.simps json_quote_def key skip_ws_char is_space_def)
  next
    case False
    then obtain y ys where kvs: "kvs = y # ys" by (cases kvs) auto
    have "skip_ws (print_sep (map print_member kvs) @ ''}'' @ r)
        = print_sep (map print_member kvs) @ ''}'' @ r"
      by (auto simp: kvs print_sep_Cons json_quote_def skip_ws_char is_space_def split: prod.split)
    moreover have "parse_members m (print_sep (map print_member kvs) @ ''}'' @ r) = Some (kvs, r)"
      using Cons False by (intro Cons.IH) (auto simp: n print_sep_Cons)
    ultimately show ?thesis
      using first False wf
      by (simp add: n kv parse_members.simps print_sep_Cons json_quote_def key skip_ws_char is_space_def)
  qed
qed simp

lemma parse_value_print:
  "json_wf v \<Longrightarrow> number_end r \<Longrightarrow> length (json_print v) < n \<Longrightarrow>
   parse_value n (json_print v @ r) = Some (v, r)"
proof (induction v arbitrary: n r)
  case (JNum s)
  then obtain i m where i: "s = show_int i" and n: "n = Suc m" by (cases n) auto
  obtain c t where ct: "show_int i = c # t" by (cases "show_int i") (auto simp: show_int_def split: if_splits)
  have "is_digit c \<or> c = CHR ''-''" by (rule show_int_first [OF ct])
  then have "c \<noteq> CHR ''{''" "c \<noteq> CHR ''[''" "c \<noteq> ch_quote" "c \<noteq> CHR ''n''" "c \<noteq> CHR ''t''" "c \<noteq> CHR ''f''"
    by (auto simp: is_digit_def ch_quote_def)
  then show ?case
    using scan_number_show [OF JNum.prems(2), of i] by (simp add: n i ct parse_value.simps)
next
  case (JArr xs)
  obtain m where n: "n = Suc m" using JArr.prems by (cases n) auto
  show ?case
  proof (cases "xs = []")
    case True
    then show ?thesis by (simp add: n parse_value.simps skip_ws_char is_space_def)
  next
    case False
    then obtain y ys where xs: "xs = y # ys" by (cases xs) auto
    have wf: "json_wf y" using JArr.prems(1) by (simp add: xs)
    have "skip_ws (print_sep (map json_print xs) @ '']'' @ r) = print_sep (map json_print xs) @ '']'' @ r"
      using wf by (simp add: xs print_sep_Cons)
    moreover have "hd (print_sep (map json_print xs) @ '']'' @ r) \<noteq> CHR '']''"
      using json_print_first [OF wf] by (simp add: xs print_sep_Cons)
    moreover have "parse_elems m (print_sep (map json_print xs) @ '']'' @ r) = Some (xs, r)"
      using JArr False by (intro parse_elems_print) (auto simp: n)
    ultimately show ?thesis by (simp add: n parse_value.simps Let_def)
  qed
next
  case (JObj kvs)
  obtain m where n: "n = Suc m" using JObj.prems by (cases n) auto
  show ?case
  proof (cases "kvs = []")
    case True
    then show ?thesis by (simp add: n parse_value.simps skip_ws_char is_space_def)
  next
    case False
    then obtain y ys where kvs: "kvs = y # ys" by (cases kvs) auto
    have hd: "skip_ws (print_sep (map print_member kvs) @ ''}'' @ r) = print_sep (map print_member kvs) @ ''}'' @ r"
      "hd (print_sep (map print_member kvs) @ ''}'' @ r) \<noteq> CHR ''}''"
      by (auto simp: kvs print_sep_Cons json_quote_def skip_ws_char is_space_def ch_quote_def split: prod.split)
    moreover have "parse_members m (print_sep (map print_member kvs) @ ''}'' @ r) = Some (kvs, r)"
      using JObj False by (intro parse_members_print) (auto simp: n)
    ultimately show ?thesis by (simp add: n parse_value.simps Let_def)
  qed
next
  case (JStr s)
  then obtain m where n: "n = Suc m" by (cases n) auto
  with JStr show ?case
    by (simp add: parse_value.simps json_quote_def parse_json_escape ch_quote_def [symmetric]) (simp add: ch_quote_def)
next
  case JNull
  then obtain m where n: "n = Suc m" by (cases n) auto
  then show ?case by (simp add: parse_value.simps ch_quote_def)
next
  case (JBool b)
  then obtain m where n: "n = Suc m" by (cases n) auto
  then show ?case by (simp add: parse_value.simps ch_quote_def)
qed

theorem json_roundtrip [simp]: "json_wf v \<Longrightarrow> json_parse (json_print v) = Some v"
  using parse_value_print [of v "[]" "Suc (length (json_print v))"] skip_ws_print [of v "[]"]
  by (simp add: json_parse_def number_end_def skip_ws_def)

end
