(* ===== verification/Go_External.thy ===== *)
theory Go_External
  imports Prelude
begin

text \<open>
  What the program is given from outside \<open>src/\<close>: the cryptographic primitives it calls
  (SHA-512, HMAC-SHA512, the AES block function, Argon2id, RSA), the operating system's
  randomness, the package \<open>github.com/google/uuid\<close> and the runtime's choice of a map
  iteration order. They are the fields of the record \<open>ext\<close>, an argument of every definition
  that uses them. The documented behaviour the code relies on is the predicates \<open>crypto_ok\<close>,
  \<open>rsa_ok\<close>, \<open>uuid_ok\<close> and \<open>order_ok\<close> below. The theory also holds the errors of the
  whole program and the part of the state that counts the random draws made so far.
\<close>

type_synonym UUID = bytes

section \<open>Keys\<close>

record rsa_public =
  rsa_N :: int
  rsa_E :: int

record crt_value =
  crt_Exp :: int
  crt_Coeff :: int
  crt_R :: int

text \<open>\<open>rsa.PrivateKey\<close>, with the exported fields of its \<open>Precomputed\<close> part.\<close>

record rsa_private =
  rsa_PublicKey :: rsa_public
  rsa_D :: int
  rsa_Primes :: "int list"
  rsa_Dp :: int
  rsa_Dq :: int
  rsa_Qinv :: int
  rsa_CRTValues :: "crt_value list"

section \<open>Errors\<close>

text \<open>
  One constructor per \<open>errors.New\<close> or \<open>fmt.Errorf\<close> of the code that starts an error;
  \<open>Wrap\<close> is \<open>fmt.Errorf("<context>: %w", err)\<close>; \<open>External\<close> is an error returned by code
  outside \<open>src/\<close>. \<open>MailboxNotFound\<close>, \<open>InodeNotFound\<close> and \<open>BlockNotFound\<close> stand for messages that
  differ from place to place in a parenthesis.
\<close>

datatype go_error =
    External string
  | Wrap string go_error
  | HMACKeyLength
  | HashKDFKeyLength
  | NotPKEKey
  | NotDSKey
  | KeystoreTaken
  | KeystoreSetFailed
  | PayloadTooShort
  | MACMismatch
  | UserExists string
  | UserNotFound string
  | FileNotFound string string
  | FileNotFoundAppend string
  | MailboxNotFound string
  | InodeNotFound string
  | BlockNotFound string
  | ContentNil
  | InvitationNotFound UUID
  | InvitationTooShort
  | RecipientNotFound string
  | SenderKeyNotFound string
  | SignatureInvalid string

section \<open>The external code\<close>

record ext =
  x_sha512 :: "bytes \<Rightarrow> bytes"
  x_hmac_sha512 :: "bytes \<Rightarrow> bytes \<Rightarrow> bytes"
  x_aes_block :: "bytes \<Rightarrow> bytes \<Rightarrow> bytes"
  x_argon2id :: "bytes \<Rightarrow> bytes \<Rightarrow> nat \<Rightarrow> nat \<Rightarrow> nat \<Rightarrow> nat \<Rightarrow> bytes"
  x_rsa_generate :: "nat \<Rightarrow> nat \<Rightarrow> rsa_private option"
  x_oaep_encrypt :: "nat \<Rightarrow> rsa_public \<Rightarrow> bytes \<Rightarrow> bytes option"
  x_oaep_decrypt :: "rsa_private \<Rightarrow> bytes \<Rightarrow> bytes option"
  x_pkcs1_sign :: "rsa_private \<Rightarrow> bytes \<Rightarrow> bytes option"
  x_pkcs1_verify :: "rsa_public \<Rightarrow> bytes \<Rightarrow> bytes \<Rightarrow> bool"
  x_rand_read :: "nat \<Rightarrow> nat \<Rightarrow> bytes option"
  x_uuid_new :: "nat \<Rightarrow> UUID option"
  x_uuid_from_bytes :: "bytes \<Rightarrow> UUID option"
  x_uuid_string :: "UUID \<Rightarrow> string"
  x_uuid_parse :: "string \<Rightarrow> UUID option"
  x_range_order :: "nat \<Rightarrow> string list \<Rightarrow> string list"

text \<open>
  Output lengths of the primitives, and randomness that never fails: \<open>crypto/sha512\<close>,
  \<open>crypto/hmac\<close>, \<open>crypto/aes\<close>, \<open>golang.org/x/crypto/argon2\<close> and \<open>crypto/rand\<close>.
\<close>

definition crypto_ok :: "ext \<Rightarrow> bool" where
  "crypto_ok X \<longleftrightarrow>
     (\<forall>d. length (x_sha512 X d) = 64)
   \<and> (\<forall>k m. length (x_hmac_sha512 X k m) = 64)
   \<and> (\<forall>k b. length b = 16 \<longrightarrow> length (x_aes_block X k b) = 16)
   \<and> (\<forall>p s t m th n. length (x_argon2id X p s t m th n) = n)
   \<and> (\<forall>i n. \<exists>b. x_rand_read X i n = Some b \<and> length b = n)"

text \<open>
  RSA with a 2048-bit key: key generation succeeds, with public exponent 65537; OAEP with SHA-512 decrypts what it
  encrypted up to 126 bytes (256 - 2 * 64 - 2), a PKCS1v15 signature has 256 bytes and
  verifies under the matching public key.
\<close>

definition rsa_ok :: "ext \<Rightarrow> bool" where
  "rsa_ok X \<longleftrightarrow>
     (\<forall>i. \<exists>sk. x_rsa_generate X i 2048 = Some sk)
   \<and> (\<forall>i sk. x_rsa_generate X i 2048 = Some sk \<longrightarrow> rsa_E (rsa_PublicKey sk) = 65537)
   \<and> (\<forall>i j sk m. x_rsa_generate X i 2048 = Some sk \<longrightarrow> length m \<le> 126 \<longrightarrow>
        (\<exists>c. x_oaep_encrypt X j (rsa_PublicKey sk) m = Some c
           \<and> length c = 256 \<and> x_oaep_decrypt X sk c = Some m))
   \<and> (\<forall>i sk h. x_rsa_generate X i 2048 = Some sk \<longrightarrow>
        (\<exists>s. x_pkcs1_sign X sk h = Some s \<and> length s = 256
           \<and> x_pkcs1_verify X (rsa_PublicKey sk) h s))"

text \<open>
  \<open>uuid.New\<close> gives 16-byte identifiers, \<open>uuid.FromBytes\<close> copies 16 bytes, and the text form
  (36 hexadecimal digits and dashes) parses back.
\<close>

definition uuid_ok :: "ext \<Rightarrow> bool" where
  "uuid_ok X \<longleftrightarrow>
     (\<forall>i. \<exists>u. x_uuid_new X i = Some u \<and> length u = 16)
   \<and> (\<forall>b. length b = 16 \<longrightarrow> x_uuid_from_bytes X b = Some b)
   \<and> (\<forall>u. length u = 16 \<longrightarrow> x_uuid_parse X (x_uuid_string X u) = Some u)
   \<and> (\<forall>u. length u = 16 \<longrightarrow> length (x_uuid_string X u) = 36)
   \<and> (\<forall>u c. length u = 16 \<longrightarrow> c \<in> set (x_uuid_string X u) \<longrightarrow>
        c = CHR ''-'' \<or> (of_char c :: nat) \<in> {48..57} \<or> (of_char c :: nat) \<in> {97..102})"

text \<open>A UUID is a \<open>[16]byte\<close>, whatever function it comes from.\<close>

definition uuid_typed :: "ext \<Rightarrow> bool" where
  "uuid_typed X \<longleftrightarrow>
     (\<forall>i u. x_uuid_new X i = Some u \<longrightarrow> length u = 16)
   \<and> (\<forall>b u. x_uuid_from_bytes X b = Some u \<longrightarrow> length u = 16)
   \<and> (\<forall>s u. x_uuid_parse X s = Some u \<longrightarrow> length u = 16)"

text \<open>A \<open>range\<close> over a map visits each key once, in an order the runtime picks.\<close>

definition order_ok :: "ext \<Rightarrow> bool" where
  "order_ok X \<longleftrightarrow> (\<forall>i ks. distinct (x_range_order X i ks) = distinct ks
     \<and> set (x_range_order X i ks) = set ks)"

lemma crypto_okD:
  assumes "crypto_ok X"
  shows "length (x_sha512 X d) = 64" "length (x_hmac_sha512 X k m) = 64"
    "length b = 16 \<Longrightarrow> length (x_aes_block X k b) = 16"
    "length (x_argon2id X p s t me th n) = n"
  using assms by (simp_all add: crypto_ok_def)

lemma crypto_ok_rand:
  assumes "crypto_ok X"
  obtains b where "x_rand_read X i n = Some b" "length b = n"
  using assms unfolding crypto_ok_def by blast

section \<open>The state every call threads\<close>

text \<open>\<open>draws\<close> numbers the uses of randomness (random bytes, UUIDs, keys, iteration orders).\<close>

record entropy =
  draws :: nat

record 'b world = entropy +
  backend :: 'b

definition tick :: "('z entropy_scheme, 'e, nat) comp" where
  "tick s = (Ok (draws s), s\<lparr>draws := Suc (draws s)\<rparr>)"

text \<open>\<open>uuid.New()\<close>, which panics when the system's randomness fails.\<close>

definition uuid_New :: "ext \<Rightarrow> ('z entropy_scheme, go_error, UUID) comp" where
  "uuid_New X = bnd tick (\<lambda>i. case x_uuid_new X i of
     Some u \<Rightarrow> ret u
   | None \<Rightarrow> go_panic ''uuid.New'')"

definition uuid_FromBytes :: "ext \<Rightarrow> bytes \<Rightarrow> (go_error, UUID) outcome" where
  "uuid_FromBytes X b = (case x_uuid_from_bytes X b of
     Some u \<Rightarrow> Ok u
   | None \<Rightarrow> Err (External ''invalid UUID''))"

text \<open>\<open>for k := range m\<close>: the keys in the order of this execution of the loop.\<close>

definition range_keys :: "ext \<Rightarrow> (string, 'v) gomap \<Rightarrow> ('z entropy_scheme, go_error, string list) comp" where
  "range_keys X m = bnd tick (\<lambda>i. ret (x_range_order X i (gm_keys m)))"

text \<open>The \<open>i\<close>-th random string and UUID, where they exist.\<close>

definition rand_at :: "ext \<Rightarrow> nat \<Rightarrow> nat \<Rightarrow> bytes" where
  "rand_at X i n = (case x_rand_read X i n of Some b \<Rightarrow> b | None \<Rightarrow> [])"

definition uuid_at :: "ext \<Rightarrow> nat \<Rightarrow> UUID" where
  "uuid_at X i = (case x_uuid_new X i of Some u \<Rightarrow> u | None \<Rightarrow> [])"

lemma rand_read_at: "crypto_ok X \<Longrightarrow> x_rand_read X i n = Some (rand_at X i n)"
  by (metis crypto_ok_rand option.simps(5) rand_at_def)

lemma length_rand_at: "crypto_ok X \<Longrightarrow> length (rand_at X i n) = n"
  by (metis crypto_ok_rand option.simps(5) rand_at_def)

lemma uuid_new_at: "uuid_ok X \<Longrightarrow> x_uuid_new X i = Some (uuid_at X i)"
  unfolding uuid_ok_def uuid_at_def by (metis option.simps(5))

lemma length_uuid_at: "uuid_ok X \<Longrightarrow> length (uuid_at X i) = 16"
  unfolding uuid_ok_def uuid_at_def by (metis option.simps(5))

lemma uuid_New_ok:
  "uuid_ok X \<Longrightarrow> uuid_New X s = (Ok (uuid_at X (draws s)), s\<lparr>draws := Suc (draws s)\<rparr>)"
  by (simp add: uuid_New_def tick_def bnd_def ret_def uuid_new_at)

lemma uuid_FromBytes_ok: "uuid_ok X \<Longrightarrow> length b = 16 \<Longrightarrow> uuid_FromBytes X b = Ok b"
  by (simp add: uuid_ok_def uuid_FromBytes_def)

lemma range_keys_eq:
  "range_keys X m s = (Ok (x_range_order X (draws s) (gm_keys m)), s\<lparr>draws := Suc (draws s)\<rparr>)"
  by (simp add: range_keys_def tick_def bnd_def ret_def)

end
