(* ===== verification/Userlib_Crypto.thy ===== *)
theory Userlib_Crypto
  imports Go_External
begin

unbundle bit_operations_syntax

text \<open>
  The cryptographic half of \<open>internal/userlib/userlib.go\<close>: random bytes, Argon2, SHA-512,
  RSA encryption and signatures with their key tags, HMAC, HashKDF and AES-CTR. The block
  function of AES is external; the counter mode over it is written out, so that decryption
  inverting encryption is proved and not assumed.
\<close>

definition AESBlockSizeBytes :: nat where "AESBlockSizeBytes = 16"
definition AESKeySizeBytes :: nat where "AESKeySizeBytes = 16"
definition HashSizeBytes :: nat where "HashSizeBytes = 64"
definition rsaKeySizeBits :: nat where "rsaKeySizeBits = 2048"
definition UUIDSizeBytes :: nat where "UUIDSizeBytes = 16"

record PublicKeyType =
  pub_KeyType :: string
  pub_PubKey :: rsa_public

record PrivateKeyType =
  priv_KeyType :: string
  priv_PrivKey :: rsa_private

section \<open>Randomness, hashing, key derivation\<close>

definition randomBytes :: "ext \<Rightarrow> nat \<Rightarrow> ('z entropy_scheme, go_error, bytes) comp" where
  "randomBytes X n = bnd tick (\<lambda>i. case x_rand_read X i n of
     Some b \<Rightarrow> ret b
   | None \<Rightarrow> go_panic ''rand.Read'')"

definition argon2Key :: "ext \<Rightarrow> bytes \<Rightarrow> bytes \<Rightarrow> nat \<Rightarrow> bytes" where
  "argon2Key X password salt keyLen = x_argon2id X password salt 1 (64 * 1024) 4 keyLen"

definition hash :: "ext \<Rightarrow> bytes \<Rightarrow> bytes" where
  "hash X data = x_sha512 X data"

definition hmacEval :: "ext \<Rightarrow> bytes \<Rightarrow> bytes \<Rightarrow> (go_error, bytes) outcome" where
  "hmacEval X key msg =
     (if length key \<noteq> 16 then Err HMACKeyLength else Ok (x_hmac_sha512 X key msg))"

definition hmacEqual :: "bytes \<Rightarrow> bytes \<Rightarrow> bool" where
  "hmacEqual a b \<longleftrightarrow> a = b"

definition hashKDF :: "ext \<Rightarrow> bytes \<Rightarrow> bytes \<Rightarrow> (go_error, bytes) outcome" where
  "hashKDF X key msg =
     (if length key \<noteq> 16 then Err HashKDFKeyLength else Ok (x_hmac_sha512 X key msg))"

section \<open>Public-key encryption and signatures\<close>

text \<open>
  The code reads \<open>RSAPrivKey.PublicKey\<close> before it looks at the error of
  \<open>rsa.GenerateKey\<close>, so a failing generator is a nil dereference.
\<close>

definition pkeKeyGen :: "ext \<Rightarrow> ('z entropy_scheme, go_error, PublicKeyType \<times> PrivateKeyType) comp" where
  "pkeKeyGen X = bnd tick (\<lambda>i. case x_rsa_generate X i rsaKeySizeBits of
     Some sk \<Rightarrow> ret (\<lparr>pub_KeyType = ''PKE'', pub_PubKey = rsa_PublicKey sk\<rparr>,
                     \<lparr>priv_KeyType = ''PKE'', priv_PrivKey = sk\<rparr>)
   | None \<Rightarrow> go_panic ''nil pointer dereference'')"

definition pkeEnc :: "ext \<Rightarrow> PublicKeyType \<Rightarrow> bytes \<Rightarrow> ('z entropy_scheme, go_error, bytes) comp" where
  "pkeEnc X ek plaintext =
     (if pub_KeyType ek \<noteq> ''PKE'' then raise NotPKEKey
      else bnd tick (\<lambda>i. case x_oaep_encrypt X i (pub_PubKey ek) plaintext of
             Some c \<Rightarrow> ret c
           | None \<Rightarrow> raise (External ''rsa.EncryptOAEP'')))"

definition pkeDec :: "ext \<Rightarrow> PrivateKeyType \<Rightarrow> bytes \<Rightarrow> (go_error, bytes) outcome" where
  "pkeDec X dk ciphertext =
     (if priv_KeyType dk \<noteq> ''PKE'' then Err NotPKEKey
      else case x_oaep_decrypt X (priv_PrivKey dk) ciphertext of
             Some m \<Rightarrow> Ok m
           | None \<Rightarrow> Err (External ''rsa.DecryptOAEP''))"

definition dsKeyGen :: "ext \<Rightarrow> ('z entropy_scheme, go_error, PrivateKeyType \<times> PublicKeyType) comp" where
  "dsKeyGen X = bnd tick (\<lambda>i. case x_rsa_generate X i rsaKeySizeBits of
     Some sk \<Rightarrow> ret (\<lparr>priv_KeyType = ''DS'', priv_PrivKey = sk\<rparr>,
                     \<lparr>pub_KeyType = ''DS'', pub_PubKey = rsa_PublicKey sk\<rparr>)
   | None \<Rightarrow> go_panic ''nil pointer dereference'')"

definition dsSign :: "ext \<Rightarrow> PrivateKeyType \<Rightarrow> bytes \<Rightarrow> (go_error, bytes) outcome" where
  "dsSign X sk msg =
     (if priv_KeyType sk \<noteq> ''DS'' then Err NotDSKey
      else case x_pkcs1_sign X (priv_PrivKey sk) (x_sha512 X msg) of
             Some s \<Rightarrow> Ok s
           | None \<Rightarrow> Err (External ''rsa.SignPKCS1v15''))"

definition dsVerify :: "ext \<Rightarrow> PublicKeyType \<Rightarrow> bytes \<Rightarrow> bytes \<Rightarrow> (go_error, unit) outcome" where
  "dsVerify X vk msg sig =
     (if pub_KeyType vk \<noteq> ''DS'' then Err NotDSKey
      else if x_pkcs1_verify X (pub_PubKey vk) (x_sha512 X msg) sig then Ok ()
      else Err (External ''crypto/rsa: verification error''))"

section \<open>AES in counter mode\<close>

text \<open>\<open>cipher.NewCTR\<close> counts up in the whole block, most significant byte first.\<close>

fun inc_le :: "bytes \<Rightarrow> bytes" where
  "inc_le [] = []"
| "inc_le (b # bs) = (if b = 255 then 0 # inc_le bs else (b + 1) # bs)"

definition ctr_inc :: "bytes \<Rightarrow> bytes" where
  "ctr_inc c = rev (inc_le (rev c))"

fun key_stream :: "ext \<Rightarrow> bytes \<Rightarrow> bytes \<Rightarrow> nat \<Rightarrow> bytes" where
  "key_stream X key c 0 = []"
| "key_stream X key c (Suc n) = x_aes_block X key c @ key_stream X key (ctr_inc c) n"

definition XORKeyStream :: "ext \<Rightarrow> bytes \<Rightarrow> bytes \<Rightarrow> bytes \<Rightarrow> bytes" where
  "XORKeyStream X key iv src =
     map2 (\<lambda>a b. a XOR b) src (key_stream X key iv (length src div AESBlockSizeBytes + 1))"

text \<open>\<open>aes.NewCipher\<close> accepts keys of 16, 24 and 32 bytes.\<close>

definition cipher_key_ok :: "bytes \<Rightarrow> bool" where
  "cipher_key_ok key \<longleftrightarrow> length key \<in> {16, 24, 32}"

definition symEnc :: "ext \<Rightarrow> bytes \<Rightarrow> bytes \<Rightarrow> bytes \<Rightarrow> (go_error, bytes) outcome" where
  "symEnc X key iv plaintext =
     (if length iv \<noteq> AESBlockSizeBytes then Panic ''IV length not equal to AESBlockSizeBytes''
      else if \<not> cipher_key_ok key then Panic ''crypto/aes: invalid key size''
      else Ok (iv @ XORKeyStream X key iv plaintext))"

definition symDec :: "ext \<Rightarrow> bytes \<Rightarrow> bytes \<Rightarrow> (go_error, bytes) outcome" where
  "symDec X key ciphertext =
     (if \<not> cipher_key_ok key then Panic ''crypto/aes: invalid key size''
      else if length ciphertext < AESBlockSizeBytes then Panic ''ciphertext too short''
      else Ok (XORKeyStream X key (take AESBlockSizeBytes ciphertext)
                 (drop AESBlockSizeBytes ciphertext)))"

lemma length_inc_le [simp]: "length (inc_le c) = length c"
  by (induction c rule: inc_le.induct) auto

lemma length_ctr_inc [simp]: "length (ctr_inc c) = length c"
  by (simp add: ctr_inc_def)

lemma length_key_stream:
  "crypto_ok X \<Longrightarrow> length c = 16 \<Longrightarrow> length (key_stream X key c n) = 16 * n"
  by (induction n arbitrary: c) (simp_all add: crypto_okD)

lemma key_stream_enough:
  assumes "crypto_ok X" "length iv = 16"
  shows "n \<le> length (key_stream X key iv (n div AESBlockSizeBytes + 1))"
proof -
  have "n \<le> 16 * (n div 16 + 1)" by simp
  then show ?thesis
    using length_key_stream [OF assms] by (simp only: AESBlockSizeBytes_def)
qed

lemma length_XORKeyStream [len_simps]:
  assumes "crypto_ok X" "length iv = 16"
  shows "length (XORKeyStream X key iv src) = length src"
  using key_stream_enough [OF assms, of "length src" key]
  by (simp add: XORKeyStream_def min_absorb1 del: key_stream.simps)

lemma map2_xor_twice:
  "length ks \<ge> length xs \<Longrightarrow>
   map2 (\<lambda>a b. a XOR b) (map2 (\<lambda>a b. a XOR b) xs ks) ks = (xs :: bytes)"
proof (induction xs arbitrary: ks)
  case (Cons x xs)
  then obtain k ks' where "ks = k # ks'" by (cases ks) auto
  with Cons show ?case by (simp add: xor.assoc)
qed simp

lemma XORKeyStream_twice:
  assumes "crypto_ok X" "length iv = 16"
  shows "XORKeyStream X key iv (XORKeyStream X key iv src) = src"
proof -
  let ?ks = "key_stream X key iv (length src div AESBlockSizeBytes + 1)"
  have "XORKeyStream X key iv (XORKeyStream X key iv src)
      = map2 (\<lambda>a b. a XOR b) (XORKeyStream X key iv src) ?ks"
    using length_XORKeyStream [OF assms, of key src] by (simp only: XORKeyStream_def [of X key iv "XORKeyStream X key iv src"])
  also have "\<dots> = map2 (\<lambda>a b. a XOR b) (map2 (\<lambda>a b. a XOR b) src ?ks) ?ks"
    by (simp only: XORKeyStream_def)
  also have "\<dots> = src"
    by (rule map2_xor_twice) (rule key_stream_enough [OF assms])
  finally show ?thesis .
qed

text \<open>Decryption inverts encryption for every block function of the right width.\<close>

lemma symEnc_ok:
  "length iv = 16 \<Longrightarrow> length key = 16 \<Longrightarrow>
   symEnc X key iv m = Ok (iv @ XORKeyStream X key iv m)"
  by (simp add: symEnc_def AESBlockSizeBytes_def cipher_key_ok_def)

lemma symDec_symEnc:
  "crypto_ok X \<Longrightarrow> length iv = 16 \<Longrightarrow> length key = 16 \<Longrightarrow>
   symDec X key (iv @ XORKeyStream X key iv m) = Ok m"
  by (simp add: symDec_def AESBlockSizeBytes_def cipher_key_ok_def XORKeyStream_twice)

lemma randomBytes_ok:
  "crypto_ok X \<Longrightarrow> randomBytes X n s = (Ok (rand_at X (draws s) n), s\<lparr>draws := Suc (draws s)\<rparr>)"
  by (simp add: randomBytes_def tick_def bnd_def ret_def rand_read_at)

lemma hashKDF_ok: "length key = 16 \<Longrightarrow> hashKDF X key msg = Ok (x_hmac_sha512 X key msg)"
  by (simp add: hashKDF_def)

lemma hmacEval_ok: "length key = 16 \<Longrightarrow> hmacEval X key msg = Ok (x_hmac_sha512 X key msg)"
  by (simp add: hmacEval_def)

end
