(* ===== verification/Client_Types.thy ===== *)
theory Client_Types
  imports Json Userlib_Crypto
begin

text \<open>
  The data of \<open>internal/client/encryption\<close>: the structs of \<open>encryption.go\<close> and \<open>access.go\<close>,
  and how \<open>encoding/json\<close> marshals and unmarshals them (field names and order, \<open>[]byte\<close> as
  base64, UUIDs through their text form, maps sorted by key, field names matched up to case,
  \<open>null\<close>, unknown and repeated fields). Each struct round-trips when it is well-formed.
\<close>

section \<open>Structs\<close>

text \<open>A nil map is \<open>None\<close>.\<close>

record User =
  u_Username :: string
  u_PKEPrivateKey :: PrivateKeyType
  u_DSSignKey :: PrivateKeyType
  u_MasterKey :: bytes
  u_Files :: "(string, UUID) gomap option"

record Inode =
  in_Size :: int
  in_BlockUUIDs :: "UUID list"

record MailboxNode =
  mb_FileKey :: bytes
  mb_InodeUUID :: UUID

record ChildrenInfo =
  ch_MailboxUUID :: UUID
  ch_MailboxKey :: bytes

record Access =
  ac_MymailboxUUID :: UUID
  ac_MymailboxKey :: bytes
  ac_Children :: "(string, ChildrenInfo) gomap option"

record Invitation =
  inv_MailboxUUID :: UUID
  inv_MailboxKey :: bytes

section \<open>Marshalling\<close>

definition enc_bytes :: "bytes \<Rightarrow> json" where
  "enc_bytes b = JStr (b64_encode b)"

definition enc_uuid :: "ext \<Rightarrow> UUID \<Rightarrow> json" where
  "enc_uuid X u = JStr (x_uuid_string X u)"

definition enc_int :: "int \<Rightarrow> json" where
  "enc_int i = JNum (show_int i)"

definition enc_map :: "('v \<Rightarrow> json) \<Rightarrow> (string, 'v) gomap option \<Rightarrow> json" where
  "enc_map f m = (case m of None \<Rightarrow> JNull | Some kvs \<Rightarrow> JObj (map (\<lambda>(k, v). (k, f v)) kvs))"

definition enc_inode :: "ext \<Rightarrow> Inode \<Rightarrow> json" where
  "enc_inode X i = JObj
     [(''Size'', enc_int (in_Size i)),
      (''BlockUUIDs'', JArr (map (enc_uuid X) (in_BlockUUIDs i)))]"

definition enc_mailbox :: "ext \<Rightarrow> MailboxNode \<Rightarrow> json" where
  "enc_mailbox X m = JObj
     [(''FileKey'', enc_bytes (mb_FileKey m)), (''InodeUUID'', enc_uuid X (mb_InodeUUID m))]"

definition enc_child :: "ext \<Rightarrow> ChildrenInfo \<Rightarrow> json" where
  "enc_child X c = JObj
     [(''MailboxUUID'', enc_uuid X (ch_MailboxUUID c)), (''MailboxKey'', enc_bytes (ch_MailboxKey c))]"

definition enc_access :: "ext \<Rightarrow> Access \<Rightarrow> json" where
  "enc_access X a = JObj
     [(''MymailboxUUID'', enc_uuid X (ac_MymailboxUUID a)),
      (''MymailboxKey'', enc_bytes (ac_MymailboxKey a)),
      (''Children'', enc_map (enc_child X) (ac_Children a))]"

definition enc_invitation :: "ext \<Rightarrow> Invitation \<Rightarrow> json" where
  "enc_invitation X i = JObj
     [(''MailboxUUID'', enc_uuid X (inv_MailboxUUID i)), (''MailboxKey'', enc_bytes (inv_MailboxKey i))]"

definition enc_crt :: "crt_value \<Rightarrow> json" where
  "enc_crt c = JObj
     [(''Exp'', enc_int (crt_Exp c)), (''Coeff'', enc_int (crt_Coeff c)), (''R'', enc_int (crt_R c))]"

definition enc_rsa :: "rsa_private \<Rightarrow> json" where
  "enc_rsa k = JObj
     [(''N'', enc_int (rsa_N (rsa_PublicKey k))), (''E'', enc_int (rsa_E (rsa_PublicKey k))),
      (''D'', enc_int (rsa_D k)), (''Primes'', JArr (map enc_int (rsa_Primes k))),
      (''Precomputed'', JObj
         [(''Dp'', enc_int (rsa_Dp k)), (''Dq'', enc_int (rsa_Dq k)), (''Qinv'', enc_int (rsa_Qinv k)),
          (''CRTValues'', JArr (map enc_crt (rsa_CRTValues k)))])]"

definition enc_private :: "PrivateKeyType \<Rightarrow> json" where
  "enc_private k = JObj
     [(''KeyType'', JStr (priv_KeyType k)), (''PrivKey'', enc_rsa (priv_PrivKey k))]"

definition enc_public :: "PublicKeyType \<Rightarrow> json" where
  "enc_public k = JObj
     [(''KeyType'', JStr (pub_KeyType k)),
      (''PubKey'', JObj [(''N'', enc_int (rsa_N (pub_PubKey k))), (''E'', enc_int (rsa_E (pub_PubKey k)))])]"

definition enc_user :: "ext \<Rightarrow> User \<Rightarrow> json" where
  "enc_user X u = JObj
     [(''Username'', JStr (u_Username u)),
      (''PKEPrivateKey'', enc_private (u_PKEPrivateKey u)),
      (''DSSignKey'', enc_private (u_DSSignKey u)),
      (''MasterKey'', enc_bytes (u_MasterKey u)),
      (''Files'', enc_map (enc_uuid X) (u_Files u))]"

definition marshal :: "json \<Rightarrow> (go_error, bytes) outcome" where
  "marshal j = Ok (bytes_of_string (json_print j))"

section \<open>Unmarshalling\<close>

text \<open>
  Field names match up to case; besides ASCII letters only the Kelvin sign and the long s fold
  onto a letter.
\<close>

definition upper :: "char \<Rightarrow> char" where
  "upper c = (if 97 \<le> code c \<and> code c \<le> 122 then char_of (code c - 32) else c)"

function fold_name :: "string \<Rightarrow> string" where
  "fold_name [] = []"
| "fold_name (c # cs) =
     (if take 3 (c # cs) = [CHR 0xE2, CHR 0x84, CHR 0xAA] then CHR ''K'' # fold_name (drop 2 cs)
      else if take 2 (c # cs) = [CHR 0xC5, CHR 0xBF] then CHR ''S'' # fold_name (drop 1 cs)
      else upper c # fold_name cs)"
  by pat_completeness auto
termination
  by (relation "measure length") (auto simp: less_Suc_eq_le)

definition field_is :: "string \<Rightarrow> string \<Rightarrow> bool" where
  "field_is name key \<longleftrightarrow> name = key \<or> fold_name name = fold_name key"

text \<open>The members of an object one by one; \<open>f\<close> stores one member or reports a type error.\<close>

fun dec_members :: "(string \<Rightarrow> json \<Rightarrow> 'r \<Rightarrow> 'r option) \<Rightarrow> (string \<times> json) list \<Rightarrow> 'r \<Rightarrow> 'r option" where
  "dec_members f [] r = Some r"
| "dec_members f ((k, v) # m) r = (case f k v r of None \<Rightarrow> None | Some r' \<Rightarrow> dec_members f m r')"

definition dec_struct :: "(string \<Rightarrow> json \<Rightarrow> 'r \<Rightarrow> 'r option) \<Rightarrow> json \<Rightarrow> 'r \<Rightarrow> 'r option" where
  "dec_struct f j r = (case j of
     JNull \<Rightarrow> Some r
   | JObj m \<Rightarrow> dec_members f m r
   | _ \<Rightarrow> None)"

fun dec_all :: "(json \<Rightarrow> 'a option) \<Rightarrow> json list \<Rightarrow> 'a list option" where
  "dec_all f [] = Some []"
| "dec_all f (x # xs) = (case (f x, dec_all f xs) of (Some y, Some ys) \<Rightarrow> Some (y # ys) | _ \<Rightarrow> None)"

definition dec_list :: "(json \<Rightarrow> 'a option) \<Rightarrow> json \<Rightarrow> 'a list option" where
  "dec_list f j = (case j of JNull \<Rightarrow> Some [] | JArr xs \<Rightarrow> dec_all f xs | _ \<Rightarrow> None)"

definition dec_string :: "json \<Rightarrow> string \<Rightarrow> string option" where
  "dec_string j old = (case j of JNull \<Rightarrow> Some old | JStr s \<Rightarrow> Some s | _ \<Rightarrow> None)"

definition dec_int64 :: "json \<Rightarrow> int \<Rightarrow> int option" where
  "dec_int64 j old = (case j of
     JNull \<Rightarrow> Some old
   | JNum s \<Rightarrow>
       (case parse_int s of
          Some i \<Rightarrow> if - (2 ^ 63) \<le> i \<and> i < 2 ^ 63 then Some i else None
        | None \<Rightarrow> None)
   | _ \<Rightarrow> None)"

text \<open>A \<open>*big.Int\<close>; a nil pointer (JSON \<open>null\<close>) is read as 0.\<close>

definition dec_big :: "json \<Rightarrow> int option" where
  "dec_big j = (case j of JNull \<Rightarrow> Some 0 | JNum s \<Rightarrow> parse_int s | _ \<Rightarrow> None)"

definition dec_byte :: "json \<Rightarrow> byte option" where
  "dec_byte j = (case j of
     JNull \<Rightarrow> Some 0
   | JNum s \<Rightarrow>
       (case parse_int s of
          Some i \<Rightarrow> if 0 \<le> i \<and> i < 256 then Some (word_of_int i) else None
        | None \<Rightarrow> None)
   | _ \<Rightarrow> None)"

definition dec_bytes :: "json \<Rightarrow> bytes option" where
  "dec_bytes j = (case j of
     JNull \<Rightarrow> Some []
   | JStr s \<Rightarrow> b64_decode s
   | JArr xs \<Rightarrow> dec_all dec_byte xs
   | _ \<Rightarrow> None)"

text \<open>A UUID is read from its text; \<open>null\<close> leaves the old value.\<close>

definition dec_uuid :: "ext \<Rightarrow> json \<Rightarrow> UUID \<Rightarrow> UUID option" where
  "dec_uuid X j old = (case j of JNull \<Rightarrow> Some old | JStr s \<Rightarrow> x_uuid_parse X s | _ \<Rightarrow> None)"

abbreviation nil_uuid :: UUID where
  "nil_uuid \<equiv> replicate 16 0"

abbreviation dec_new_uuid :: "ext \<Rightarrow> json \<Rightarrow> UUID option" where
  "dec_new_uuid X j \<equiv> dec_uuid X j nil_uuid"

definition dec_map :: "(json \<Rightarrow> 'v option) \<Rightarrow> json \<Rightarrow> (string, 'v) gomap option \<Rightarrow> (string, 'v) gomap option option" where
  "dec_map f j old = (case j of
     JNull \<Rightarrow> Some None
   | JObj m \<Rightarrow>
       map_option Some
         (dec_members (\<lambda>k v acc. map_option (\<lambda>y. gm_set k y acc) (f v)) m
            (case old of None \<Rightarrow> [] | Some o' \<Rightarrow> o'))
   | _ \<Rightarrow> None)"

definition dec_inode :: "ext \<Rightarrow> json \<Rightarrow> Inode option" where
  "dec_inode X j = dec_struct (\<lambda>k v r.
     if field_is ''Size'' k then map_option (\<lambda>i. r\<lparr>in_Size := i\<rparr>) (dec_int64 v (in_Size r))
     else if field_is ''BlockUUIDs'' k then map_option (\<lambda>us. r\<lparr>in_BlockUUIDs := us\<rparr>) (dec_list (dec_new_uuid X) v)
     else Some r) j \<lparr>in_Size = 0, in_BlockUUIDs = []\<rparr>"

definition dec_mailbox :: "ext \<Rightarrow> json \<Rightarrow> MailboxNode option" where
  "dec_mailbox X j = dec_struct (\<lambda>k v r.
     if field_is ''FileKey'' k then map_option (\<lambda>b. r\<lparr>mb_FileKey := b\<rparr>) (dec_bytes v)
     else if field_is ''InodeUUID'' k then map_option (\<lambda>u. r\<lparr>mb_InodeUUID := u\<rparr>) (dec_uuid X v (mb_InodeUUID r))
     else Some r) j \<lparr>mb_FileKey = [], mb_InodeUUID = nil_uuid\<rparr>"

definition dec_child :: "ext \<Rightarrow> json \<Rightarrow> ChildrenInfo option" where
  "dec_child X j = dec_struct (\<lambda>k v r.
     if field_is ''MailboxUUID'' k then map_option (\<lambda>u. r\<lparr>ch_MailboxUUID := u\<rparr>) (dec_uuid X v (ch_MailboxUUID r))
     else if field_is ''MailboxKey'' k then map_option (\<lambda>b. r\<lparr>ch_MailboxKey := b\<rparr>) (dec_bytes v)
     else Some r) j \<lparr>ch_MailboxUUID = nil_uuid, ch_MailboxKey = []\<rparr>"

definition dec_access :: "ext \<Rightarrow> json \<Rightarrow> Access option" where
  "dec_access X j = dec_struct (\<lambda>k v r.
     if field_is ''MymailboxUUID'' k then map_option (\<lambda>u. r\<lparr>ac_MymailboxUUID := u\<rparr>) (dec_uuid X v (ac_MymailboxUUID r))
     else if field_is ''MymailboxKey'' k then map_option (\<lambda>b. r\<lparr>ac_MymailboxKey := b\<rparr>) (dec_bytes v)
     else if field_is ''Children'' k then
       map_option (\<lambda>m. r\<lparr>ac_Children := m\<rparr>) (dec_map (dec_child X) v (ac_Children r))
     else Some r) j \<lparr>ac_MymailboxUUID = nil_uuid, ac_MymailboxKey = [], ac_Children = None\<rparr>"

definition dec_invitation :: "ext \<Rightarrow> json \<Rightarrow> Invitation option" where
  "dec_invitation X j = dec_struct (\<lambda>k v r.
     if field_is ''MailboxUUID'' k then map_option (\<lambda>u. r\<lparr>inv_MailboxUUID := u\<rparr>) (dec_uuid X v (inv_MailboxUUID r))
     else if field_is ''MailboxKey'' k then map_option (\<lambda>b. r\<lparr>inv_MailboxKey := b\<rparr>) (dec_bytes v)
     else Some r) j \<lparr>inv_MailboxUUID = nil_uuid, inv_MailboxKey = []\<rparr>"

definition dec_crt :: "json \<Rightarrow> crt_value option" where
  "dec_crt j = dec_struct (\<lambda>k v r.
     if field_is ''Exp'' k then map_option (\<lambda>i. r\<lparr>crt_Exp := i\<rparr>) (dec_big v)
     else if field_is ''Coeff'' k then map_option (\<lambda>i. r\<lparr>crt_Coeff := i\<rparr>) (dec_big v)
     else if field_is ''R'' k then map_option (\<lambda>i. r\<lparr>crt_R := i\<rparr>) (dec_big v)
     else Some r) j \<lparr>crt_Exp = 0, crt_Coeff = 0, crt_R = 0\<rparr>"

definition dec_precomputed :: "json \<Rightarrow> rsa_private \<Rightarrow> rsa_private option" where
  "dec_precomputed j r0 = dec_struct (\<lambda>k v r.
     if field_is ''Dp'' k then map_option (\<lambda>i. r\<lparr>rsa_Dp := i\<rparr>) (dec_big v)
     else if field_is ''Dq'' k then map_option (\<lambda>i. r\<lparr>rsa_Dq := i\<rparr>) (dec_big v)
     else if field_is ''Qinv'' k then map_option (\<lambda>i. r\<lparr>rsa_Qinv := i\<rparr>) (dec_big v)
     else if field_is ''CRTValues'' k then map_option (\<lambda>c. r\<lparr>rsa_CRTValues := c\<rparr>) (dec_list dec_crt v)
     else Some r) j r0"

definition zero_rsa :: rsa_private where
  "zero_rsa = \<lparr>rsa_PublicKey = \<lparr>rsa_N = 0, rsa_E = 0\<rparr>, rsa_D = 0, rsa_Primes = [],
     rsa_Dp = 0, rsa_Dq = 0, rsa_Qinv = 0, rsa_CRTValues = []\<rparr>"

definition dec_rsa :: "json \<Rightarrow> rsa_private option" where
  "dec_rsa j = dec_struct (\<lambda>k v r.
     if field_is ''N'' k then
       map_option (\<lambda>i. r\<lparr>rsa_PublicKey := (rsa_PublicKey r)\<lparr>rsa_N := i\<rparr>\<rparr>) (dec_big v)
     else if field_is ''E'' k then
       map_option (\<lambda>i. r\<lparr>rsa_PublicKey := (rsa_PublicKey r)\<lparr>rsa_E := i\<rparr>\<rparr>) (dec_int64 v (rsa_E (rsa_PublicKey r)))
     else if field_is ''D'' k then map_option (\<lambda>i. r\<lparr>rsa_D := i\<rparr>) (dec_big v)
     else if field_is ''Primes'' k then map_option (\<lambda>p. r\<lparr>rsa_Primes := p\<rparr>) (dec_list dec_big v)
     else if field_is ''Precomputed'' k then dec_precomputed v r
     else Some r) j zero_rsa"

definition dec_private :: "json \<Rightarrow> PrivateKeyType option" where
  "dec_private j = dec_struct (\<lambda>k v r.
     if field_is ''KeyType'' k then map_option (\<lambda>s. r\<lparr>priv_KeyType := s\<rparr>) (dec_string v (priv_KeyType r))
     else if field_is ''PrivKey'' k then map_option (\<lambda>x. r\<lparr>priv_PrivKey := x\<rparr>) (dec_rsa v)
     else Some r) j \<lparr>priv_KeyType = [], priv_PrivKey = zero_rsa\<rparr>"

definition dec_user :: "ext \<Rightarrow> json \<Rightarrow> User option" where
  "dec_user X j = dec_struct (\<lambda>k v r.
     if field_is ''Username'' k then map_option (\<lambda>s. r\<lparr>u_Username := s\<rparr>) (dec_string v (u_Username r))
     else if field_is ''PKEPrivateKey'' k then map_option (\<lambda>p. r\<lparr>u_PKEPrivateKey := p\<rparr>) (dec_private v)
     else if field_is ''DSSignKey'' k then map_option (\<lambda>p. r\<lparr>u_DSSignKey := p\<rparr>) (dec_private v)
     else if field_is ''MasterKey'' k then map_option (\<lambda>b. r\<lparr>u_MasterKey := b\<rparr>) (dec_bytes v)
     else if field_is ''Files'' k then map_option (\<lambda>m. r\<lparr>u_Files := m\<rparr>) (dec_map (dec_new_uuid X) v (u_Files r))
     else Some r) j
     \<lparr>u_Username = [], u_PKEPrivateKey = \<lparr>priv_KeyType = [], priv_PrivKey = zero_rsa\<rparr>,
      u_DSSignKey = \<lparr>priv_KeyType = [], priv_PrivKey = zero_rsa\<rparr>, u_MasterKey = [], u_Files = None\<rparr>"

definition unmarshal :: "(json \<Rightarrow> 'a option) \<Rightarrow> bytes \<Rightarrow> (go_error, 'a) outcome" where
  "unmarshal dec b = (case json_parse (string_of_bytes b) of
     None \<Rightarrow> Err (External ''invalid JSON'')
   | Some j \<Rightarrow> (case dec j of None \<Rightarrow> Err (External ''json: cannot unmarshal'') | Some x \<Rightarrow> Ok x))"

section \<open>Round trips\<close>

lemma unmarshal_marshal:
  "json_wf j \<Longrightarrow> dec j = Some x \<Longrightarrow> unmarshal dec (bytes_of_string (json_print j)) = Ok x"
  by (simp add: unmarshal_def)

lemma field_is_refl [simp]: "field_is k k"
  by (simp add: field_is_def)

text \<open>Different fields of the structs do not match each other: these rules decide it.\<close>

lemmas field_simps_json = field_is_def upper_def fold_name.simps

named_theorems codec_simps "decoding of what the code encodes"

lemma b64_ascii: "utf8_valid (b64_encode b)"
  by (rule utf8_valid_ascii) (auto dest!: b64_encode_codes simp: b64_code_def)

lemma json_wf_bytes [codec_simps]: "json_wf (enc_bytes b)"
  by (simp add: enc_bytes_def b64_ascii)

lemma dec_enc_bytes [codec_simps]: "dec_bytes (enc_bytes b) = Some b"
  by (simp add: dec_bytes_def enc_bytes_def)

lemma json_wf_int [codec_simps]: "json_wf (enc_int i)"
  by (auto simp: enc_int_def)

lemma dec_enc_big [codec_simps]: "dec_big (enc_int i) = Some i"
  by (simp add: dec_big_def enc_int_def)

definition int64 :: "int \<Rightarrow> bool" where
  "int64 i \<longleftrightarrow> - (2 ^ 63) \<le> i \<and> i < 2 ^ 63"

lemma dec_enc_int64 [codec_simps]: "int64 i \<Longrightarrow> dec_int64 (enc_int i) old = Some i"
  by (simp add: dec_int64_def enc_int_def int64_def)

lemma json_wf_uuid [codec_simps]: "uuid_ok X \<Longrightarrow> length u = 16 \<Longrightarrow> json_wf (enc_uuid X u)"
  unfolding enc_uuid_def json_wf.simps
  by (rule utf8_valid_ascii) (fastforce simp: uuid_ok_def)

lemma dec_enc_uuid [codec_simps]:
  "uuid_ok X \<Longrightarrow> length u = 16 \<Longrightarrow> dec_uuid X (enc_uuid X u) old = Some u"
  by (simp add: enc_uuid_def dec_uuid_def uuid_ok_def)

lemma dec_string_enc [codec_simps]: "dec_string (JStr s) old = Some s"
  by (simp add: dec_string_def)

lemma dec_all_map:
  "(\<And>x. x \<in> set xs \<Longrightarrow> dec (enc x) = Some x) \<Longrightarrow> dec_all dec (map enc xs) = Some xs"
  by (induction xs) simp_all

lemma dec_list_enc [codec_simps]:
  "(\<And>x. x \<in> set xs \<Longrightarrow> dec (enc x) = Some x) \<Longrightarrow> dec_list dec (JArr (map enc xs)) = Some xs"
  by (simp add: dec_list_def dec_all_map)

lemma dec_members_map:
  assumes "\<And>k v. (k, v) \<in> set m \<Longrightarrow> dec (enc v) = Some v"
  shows "dec_members (\<lambda>k v acc. map_option (\<lambda>y. gm_set k y acc) (dec v))
      (map (\<lambda>(k, v). (k, enc v)) m) acc = Some (foldl (\<lambda>acc (k, v). gm_set k v acc) acc m)"
  using assms
proof (induction m arbitrary: acc)
  case (Cons kv m)
  obtain k v where kv: "kv = (k, v)" by (cases kv)
  have "dec (enc v) = Some v" by (rule Cons.prems [of k]) (simp add: kv)
  moreover have "dec (enc w) = Some w" if "(j, w) \<in> set m" for j w
    by (rule Cons.prems [of j]) (simp add: that)
  note Cons.IH [OF this]
  ultimately show ?case by (simp add: kv)
qed simp

lemma dec_map_enc [codec_simps]:
  assumes "gm_wf m" "\<And>k v. (k, v) \<in> set m \<Longrightarrow> dec (enc v) = Some v"
  shows "dec_map dec (enc_map enc (Some m)) None = Some (Some m)"
  using assms gm_fold_set [of "[]" m] by (simp add: dec_map_def enc_map_def dec_members_map)

lemma json_wf_map [codec_simps]:
  "(\<And>k v. (k, v) \<in> set m \<Longrightarrow> utf8_valid k \<and> json_wf (enc v)) \<Longrightarrow> json_wf (enc_map enc (Some m))"
  by (auto simp: enc_map_def)

lemma utf8_names [codec_simps]:
  "utf8_valid ''Size''" "utf8_valid ''BlockUUIDs''" "utf8_valid ''FileKey''" "utf8_valid ''InodeUUID''"
  "utf8_valid ''MailboxUUID''" "utf8_valid ''MailboxKey''" "utf8_valid ''MymailboxUUID''"
  "utf8_valid ''MymailboxKey''" "utf8_valid ''Children''" "utf8_valid ''Exp''" "utf8_valid ''Coeff''"
  "utf8_valid ''R''" "utf8_valid ''N''" "utf8_valid ''E''" "utf8_valid ''D''" "utf8_valid ''Primes''"
  "utf8_valid ''Precomputed''" "utf8_valid ''Dp''" "utf8_valid ''Dq''" "utf8_valid ''Qinv''"
  "utf8_valid ''CRTValues''" "utf8_valid ''KeyType''" "utf8_valid ''PrivKey''" "utf8_valid ''PubKey''"
  "utf8_valid ''Username''" "utf8_valid ''PKEPrivateKey''" "utf8_valid ''DSSignKey''"
  "utf8_valid ''MasterKey''" "utf8_valid ''Files''"
  by (rule utf8_valid_ascii; auto)+

definition inode_wf :: "Inode \<Rightarrow> bool" where
  "inode_wf i \<longleftrightarrow> int64 (in_Size i) \<and> (\<forall>u \<in> set (in_BlockUUIDs i). length u = 16)"

lemma inode_codec:
  assumes "uuid_ok X" "inode_wf i"
  shows "json_wf (enc_inode X i)" "dec_inode X (enc_inode X i) = Some i"
  using assms
  by (simp_all add: enc_inode_def dec_inode_def dec_struct_def inode_wf_def codec_simps field_simps_json)

definition mailbox_wf :: "MailboxNode \<Rightarrow> bool" where
  "mailbox_wf m \<longleftrightarrow> length (mb_InodeUUID m) = 16"

lemma mailbox_codec:
  assumes "uuid_ok X" "mailbox_wf m"
  shows "json_wf (enc_mailbox X m)" "dec_mailbox X (enc_mailbox X m) = Some m"
  using assms
  by (simp_all add: enc_mailbox_def dec_mailbox_def dec_struct_def mailbox_wf_def codec_simps field_simps_json)

definition child_wf :: "ChildrenInfo \<Rightarrow> bool" where
  "child_wf c \<longleftrightarrow> length (ch_MailboxUUID c) = 16"

lemma child_codec [codec_simps]:
  assumes "uuid_ok X" "child_wf c"
  shows "json_wf (enc_child X c)" "dec_child X (enc_child X c) = Some c"
  using assms
  by (simp_all add: enc_child_def dec_child_def dec_struct_def child_wf_def codec_simps field_simps_json)

definition map_wf :: "('v \<Rightarrow> bool) \<Rightarrow> (string, 'v) gomap option \<Rightarrow> bool" where
  "map_wf ok mo \<longleftrightarrow> (case mo of None \<Rightarrow> False
     | Some m \<Rightarrow> gm_wf m \<and> (\<forall>kv \<in> set m. utf8_valid (fst kv) \<and> ok (snd kv)))"

lemma map_codec [codec_simps]:
  assumes "map_wf ok mo" "\<And>v. ok v \<Longrightarrow> json_wf (enc v)" "\<And>v. ok v \<Longrightarrow> dec (enc v) = Some v"
  shows "json_wf (enc_map enc mo)" "dec_map dec (enc_map enc mo) None = Some mo"
proof -
  obtain m where m: "mo = Some m" "gm_wf m" "\<forall>kv \<in> set m. utf8_valid (fst kv) \<and> ok (snd kv)"
    using assms(1) by (auto simp: map_wf_def split: option.splits)
  show "json_wf (enc_map enc mo)"
    using m assms(2) by (auto simp: enc_map_def)
  show "dec_map dec (enc_map enc mo) None = Some mo"
    unfolding m(1) using m assms(3) by (intro dec_map_enc) auto
qed

definition access_wf :: "Access \<Rightarrow> bool" where
  "access_wf a \<longleftrightarrow> length (ac_MymailboxUUID a) = 16 \<and> map_wf child_wf (ac_Children a)"

lemma access_codec:
  assumes "uuid_ok X" "access_wf a"
  shows "json_wf (enc_access X a)" "dec_access X (enc_access X a) = Some a"
proof -
  have "json_wf (enc_map (enc_child X) (ac_Children a))"
    "dec_map (dec_child X) (enc_map (enc_child X) (ac_Children a)) None = Some (ac_Children a)"
    using assms map_codec [of child_wf "ac_Children a" "enc_child X" "dec_child X"]
    by (simp_all add: access_wf_def child_codec)
  with assms show "json_wf (enc_access X a)" "dec_access X (enc_access X a) = Some a"
    by (simp_all add: enc_access_def dec_access_def dec_struct_def access_wf_def codec_simps field_simps_json)
qed

definition invitation_wf :: "Invitation \<Rightarrow> bool" where
  "invitation_wf i \<longleftrightarrow> length (inv_MailboxUUID i) = 16"

lemma invitation_codec:
  assumes "uuid_ok X" "invitation_wf i"
  shows "json_wf (enc_invitation X i)" "dec_invitation X (enc_invitation X i) = Some i"
  using assms
  by (simp_all add: enc_invitation_def dec_invitation_def dec_struct_def invitation_wf_def codec_simps field_simps_json)

lemma crt_codec [codec_simps]: "json_wf (enc_crt c)" "dec_crt (enc_crt c) = Some c"
  by (simp_all add: enc_crt_def dec_crt_def dec_struct_def codec_simps field_simps_json)

definition rsa_wf :: "rsa_private \<Rightarrow> bool" where
  "rsa_wf k \<longleftrightarrow> int64 (rsa_E (rsa_PublicKey k))"

lemma rsa_codec [codec_simps]:
  assumes "rsa_wf k"
  shows "json_wf (enc_rsa k)" "dec_rsa (enc_rsa k) = Some k"
  using assms
  by (simp_all add: enc_rsa_def dec_rsa_def dec_precomputed_def dec_struct_def rsa_wf_def codec_simps
      field_simps_json zero_rsa_def)

definition private_wf :: "PrivateKeyType \<Rightarrow> bool" where
  "private_wf k \<longleftrightarrow> utf8_valid (priv_KeyType k) \<and> rsa_wf (priv_PrivKey k)"

lemma private_codec [codec_simps]:
  assumes "private_wf k"
  shows "json_wf (enc_private k)" "dec_private (enc_private k) = Some k"
  using assms
  by (simp_all add: enc_private_def dec_private_def dec_struct_def private_wf_def codec_simps field_simps_json)

definition user_wf :: "User \<Rightarrow> bool" where
  "user_wf u \<longleftrightarrow> utf8_valid (u_Username u) \<and> private_wf (u_PKEPrivateKey u) \<and> private_wf (u_DSSignKey u)
     \<and> map_wf (\<lambda>v. length v = 16) (u_Files u)"

lemma user_codec:
  assumes "uuid_ok X" "user_wf u"
  shows "json_wf (enc_user X u)" "dec_user X (enc_user X u) = Some u"
proof -
  have "json_wf (enc_map (enc_uuid X) (u_Files u))"
    "dec_map (dec_new_uuid X) (enc_map (enc_uuid X) (u_Files u)) None = Some (u_Files u)"
    using assms map_codec [of "\<lambda>v. length v = 16" "u_Files u" "enc_uuid X" "dec_new_uuid X"]
    by (simp_all add: user_wf_def codec_simps)
  with assms show "json_wf (enc_user X u)" "dec_user X (enc_user X u) = Some u"
    by (simp_all add: enc_user_def dec_user_def dec_struct_def user_wf_def codec_simps field_simps_json)
qed
end
