(* ===== verification/Crypto_Utils.thy ===== *)
theory Crypto_Utils
  imports Client_Types
begin

text \<open>
  \<open>internal/client/encryption/utils.go\<close> without \<open>saveUser\<close>: encrypt-then-MAC, its inverse,
  and the key derivations. Errors of \<open>HashKDF\<close> that the code drops leave a nil key, and
  slicing a nil key panics; both are in the model.
\<close>

text \<open>\<open>b[:n]\<close> of a slice whose capacity is its length.\<close>

definition slice_to :: "nat \<Rightarrow> bytes \<Rightarrow> (go_error, bytes) outcome" where
  "slice_to n b = (if n \<le> length b then Ok (take n b) else Panic ''slice bounds out of range'')"

definition macLen :: nat where "macLen = 64"

section \<open>Encrypt-then-MAC\<close>

definition encryptAndMAC :: "ext \<Rightarrow> bytes \<Rightarrow> bytes \<Rightarrow> bytes \<Rightarrow> ('z entropy_scheme, go_error, bytes) comp" where
  "encryptAndMAC X data encKey macKey =
     bnd (lift_outcome (slice_to 16 (hash X encKey))) (\<lambda>aesKey.
     bnd (lift_outcome (slice_to 16 (hash X macKey))) (\<lambda>hmacKey.
     bnd (randomBytes X 16) (\<lambda>iv.
     bnd (lift_outcome (symEnc X aesKey iv data)) (\<lambda>ciphertext.
     bnd (lift_outcome (hmacEval X hmacKey ciphertext)) (\<lambda>mac.
     ret (ciphertext @ mac))))))"

definition decryptAndVerify :: "ext \<Rightarrow> bytes \<Rightarrow> bytes \<Rightarrow> bytes \<Rightarrow> (go_error, bytes) outcome" where
  "decryptAndVerify X payload encKey macKey =
     (if length payload < macLen then Err PayloadTooShort
      else
        let macOffset = length payload - macLen;
            ciphertext = take macOffset payload;
            receiveMac = drop macOffset payload in
        obind (slice_to 16 (hash X encKey)) (\<lambda>aesKey.
        obind (slice_to 16 (hash X macKey)) (\<lambda>hmacKey.
        obind (hmacEval X hmacKey ciphertext) (\<lambda>expectMac.
          if \<not> hmacEqual receiveMac expectMac then Err MACMismatch
          else symDec X aesKey ciphertext))))"

section \<open>Key derivation\<close>

text \<open>\<open>key, _ = userlib.HashKDF(...)\<close>: on an error the key is nil.\<close>

definition kdf_or_nil :: "ext \<Rightarrow> bytes \<Rightarrow> bytes \<Rightarrow> bytes" where
  "kdf_or_nil X key msg = (case hashKDF X key msg of Ok b \<Rightarrow> b | _ \<Rightarrow> [])"

definition getPersonalKey :: "ext \<Rightarrow> bytes \<Rightarrow> string \<Rightarrow> (go_error, bytes \<times> bytes) outcome" where
  "getPersonalKey X masterKey filename =
     (let salt = hash X (bytes_of_string filename);
          baseKey = kdf_or_nil X masterKey salt in
      obind (slice_to 16 baseKey) (\<lambda>base.
        Ok (kdf_or_nil X base (bytes_of_string ''personal_enc''),
            kdf_or_nil X base (bytes_of_string ''personal_mac''))))"

definition getFileKeys :: "ext \<Rightarrow> bytes \<Rightarrow> (go_error, bytes \<times> bytes) outcome" where
  "getFileKeys X fileKey =
     (let encKey = kdf_or_nil X fileKey (bytes_of_string ''file_enc'');
          macKey = kdf_or_nil X fileKey (bytes_of_string ''file_mac'') in
      obind (slice_to 16 encKey) (\<lambda>e.
      obind (slice_to 16 macKey) (\<lambda>m. Ok (e, m))))"

definition getMailKeys :: "ext \<Rightarrow> bytes \<Rightarrow> bytes \<times> bytes" where
  "getMailKeys X mailboxKey =
     (kdf_or_nil X mailboxKey (bytes_of_string ''mailbox_enc''),
      kdf_or_nil X mailboxKey (bytes_of_string ''mailbox_mac''))"

section \<open>What the payloads are\<close>

text \<open>The AES and HMAC keys the pair \<open>(encKey, macKey)\<close> stands for.\<close>

definition aes_key :: "ext \<Rightarrow> bytes \<Rightarrow> bytes" where
  "aes_key X k = take 16 (x_sha512 X k)"

definition seal_ct :: "ext \<Rightarrow> bytes \<Rightarrow> bytes \<Rightarrow> bytes \<Rightarrow> bytes" where
  "seal_ct X iv data encKey = iv @ XORKeyStream X (aes_key X encKey) iv data"

definition mac_of :: "ext \<Rightarrow> bytes \<Rightarrow> bytes \<Rightarrow> bytes" where
  "mac_of X macKey ct = x_hmac_sha512 X (aes_key X macKey) ct"

definition seal :: "ext \<Rightarrow> bytes \<Rightarrow> bytes \<Rightarrow> bytes \<times> bytes \<Rightarrow> bytes" where
  "seal X iv data ks = seal_ct X iv data (fst ks) @ mac_of X (snd ks) (seal_ct X iv data (fst ks))"

definition ciphertext_of :: "bytes \<Rightarrow> bytes" where
  "ciphertext_of payload = take (length payload - macLen) payload"

lemma slice_to_hash: "crypto_ok X \<Longrightarrow> slice_to 16 (hash X k) = Ok (aes_key X k)"
  by (simp add: slice_to_def hash_def crypto_okD aes_key_def)

lemma length_aes_key [simp]: "crypto_ok X \<Longrightarrow> length (aes_key X k) = 16"
  by (simp add: aes_key_def crypto_okD)

lemma length_mac_of [simp]: "crypto_ok X \<Longrightarrow> length (mac_of X k c) = 64"
  by (simp add: mac_of_def crypto_okD)

lemma encryptAndMAC_ok:
  "crypto_ok X \<Longrightarrow> encryptAndMAC X data encKey macKey s
     = (Ok (seal X (rand_at X (draws s) 16) data (encKey, macKey)), s\<lparr>draws := Suc (draws s)\<rparr>)"
  by (simp add: encryptAndMAC_def monad_simps slice_to_hash randomBytes_ok symEnc_ok length_rand_at
      hmacEval_ok seal_def seal_ct_def mac_of_def)

lemma length_seal: "crypto_ok X \<Longrightarrow> length iv = 16 \<Longrightarrow> length (seal X iv data ks) = length data + 80"
  by (simp add: seal_def seal_ct_def length_XORKeyStream)

lemma ciphertext_of_seal:
  "crypto_ok X \<Longrightarrow> ciphertext_of (seal X iv data ks) = seal_ct X iv data (fst ks)"
  by (simp add: ciphertext_of_def macLen_def seal_def)

text \<open>The decision \<open>decryptAndVerify\<close> takes, on any payload.\<close>

lemma decryptAndVerify_eq:
  assumes "crypto_ok X"
  shows "decryptAndVerify X payload encKey macKey =
    (if length payload < 64 then Err PayloadTooShort
     else if drop (length payload - 64) payload \<noteq> mac_of X macKey (ciphertext_of payload) then Err MACMismatch
     else symDec X (aes_key X encKey) (ciphertext_of payload))"
  using assms
  by (simp add: decryptAndVerify_def macLen_def slice_to_hash hmacEval_ok hmacEqual_def Let_def
      ciphertext_of_def mac_of_def)

lemma decrypt_seal:
  assumes "crypto_ok X" "length iv = 16"
  shows "decryptAndVerify X (seal X iv data ks) encKey macKey =
    (if mac_of X macKey (seal_ct X iv data (fst ks)) \<noteq> mac_of X (snd ks) (seal_ct X iv data (fst ks))
     then Err MACMismatch
     else symDec X (aes_key X encKey) (seal_ct X iv data (fst ks)))"
  using assms length_seal [OF assms, of data ks]
  by (auto simp: decryptAndVerify_eq ciphertext_of_seal) (simp_all add: seal_def)

lemma decrypt_seal_same [simp]:
  assumes "crypto_ok X" "length iv = 16"
  shows "decryptAndVerify X (seal X iv data (ek, mk)) ek mk = Ok data"
  using assms by (simp add: decrypt_seal) (simp add: seal_ct_def symDec_symEnc)

section \<open>What the keys are\<close>

definition personal_keys :: "ext \<Rightarrow> bytes \<Rightarrow> string \<Rightarrow> bytes \<times> bytes" where
  "personal_keys X masterKey filename =
     (let base = take 16 (x_hmac_sha512 X masterKey (x_sha512 X (bytes_of_string filename))) in
      (x_hmac_sha512 X base (bytes_of_string ''personal_enc''),
       x_hmac_sha512 X base (bytes_of_string ''personal_mac'')))"

definition file_keys :: "ext \<Rightarrow> bytes \<Rightarrow> bytes \<times> bytes" where
  "file_keys X fileKey =
     (take 16 (x_hmac_sha512 X fileKey (bytes_of_string ''file_enc'')),
      take 16 (x_hmac_sha512 X fileKey (bytes_of_string ''file_mac'')))"

lemma kdf_or_nil_ok: "length k = 16 \<Longrightarrow> kdf_or_nil X k m = x_hmac_sha512 X k m"
  by (simp add: kdf_or_nil_def hashKDF_def)

lemma kdf_or_nil_bad: "length k \<noteq> 16 \<Longrightarrow> kdf_or_nil X k m = []"
  by (simp add: kdf_or_nil_def hashKDF_def)

lemma getPersonalKey_eq:
  assumes "crypto_ok X"
  shows "getPersonalKey X mk fn =
    (if length mk = 16 then Ok (personal_keys X mk fn) else Panic ''slice bounds out of range'')"
  using assms
  by (simp add: getPersonalKey_def personal_keys_def Let_def kdf_or_nil_ok kdf_or_nil_bad slice_to_def
      hash_def crypto_okD)

lemma getFileKeys_eq:
  assumes "crypto_ok X"
  shows "getFileKeys X fk =
    (if length fk = 16 then Ok (file_keys X fk) else Panic ''slice bounds out of range'')"
  using assms
  by (simp add: getFileKeys_def file_keys_def Let_def kdf_or_nil_ok kdf_or_nil_bad slice_to_def crypto_okD)

lemma getMailKeys_bad: "length k \<noteq> 16 \<Longrightarrow> getMailKeys X k = ([], [])"
  by (simp add: getMailKeys_def kdf_or_nil_bad)

end
