(* ===== verification/Services.thy ===== *)
theory Services
  imports Crypto_Utils
begin

text \<open>
  The interfaces \<open>StorageService\<close> and \<open>KeyStoreService\<close> of
  \<open>internal/client/encryption/service.go\<close> as records of operations over a backend state
  (Go's method tables), \<open>saveUser\<close> of \<open>utils.go\<close>, and the \<open>UserService\<close>. Every service
  operation is a computation over the world: the backend behind the interfaces and the count of
  random draws; operations on a logged-in user also thread the user struct they mutate.
\<close>

section \<open>Interfaces\<close>

text \<open>What a key store holds: Go's empty interface, of which the code only uses public keys.\<close>

datatype iface = AsPublicKey PublicKeyType | AsOther string

record 'b StorageService =
  st_Get :: "UUID \<Rightarrow> ('b, go_error, bytes option) comp"
  st_Set :: "UUID \<Rightarrow> bytes \<Rightarrow> ('b, go_error, unit) comp"
  st_Delete :: "UUID \<Rightarrow> ('b, go_error, unit) comp"

record 'b KeyStoreService =
  ks_Get :: "string \<Rightarrow> ('b, go_error, iface option) comp"
  ks_Set :: "string \<Rightarrow> iface \<Rightarrow> ('b, go_error, unit) comp"

text \<open>
  The two interface values a service holds, and the package variable \<open>userlib.DatastoreSet\<close>,
  which \<open>saveUser\<close> falls back to when it is given a nil storage.
\<close>

record 'b services =
  svc_storage :: "'b StorageService"
  svc_keyStore :: "'b KeyStoreService"
  svc_DatastoreSet :: "UUID \<Rightarrow> bytes \<Rightarrow> ('b, go_error, unit) comp"

text \<open>The world together with the user struct the caller passed by pointer.\<close>

record 'b session = "'b world" +
  self :: User

definition on_backend :: "('b, go_error, 'a) comp \<Rightarrow> (('b, 'z) world_scheme, go_error, 'a) comp" where
  "on_backend m w = (case m (backend w) of (r, b) \<Rightarrow> (r, w\<lparr>backend := b\<rparr>))"

abbreviation storage_Get :: "'b services \<Rightarrow> UUID \<Rightarrow> (('b, 'z) world_scheme, go_error, bytes option) comp" where
  "storage_Get S k \<equiv> on_backend (st_Get (svc_storage S) k)"

abbreviation storage_Set :: "'b services \<Rightarrow> UUID \<Rightarrow> bytes \<Rightarrow> (('b, 'z) world_scheme, go_error, unit) comp" where
  "storage_Set S k v \<equiv> on_backend (st_Set (svc_storage S) k v)"

abbreviation keyStore_Get :: "'b services \<Rightarrow> string \<Rightarrow> (('b, 'z) world_scheme, go_error, iface option) comp" where
  "keyStore_Get S k \<equiv> on_backend (ks_Get (svc_keyStore S) k)"

abbreviation keyStore_Set :: "'b services \<Rightarrow> string \<Rightarrow> iface \<Rightarrow> (('b, 'z) world_scheme, go_error, unit) comp" where
  "keyStore_Set S k v \<equiv> on_backend (ks_Set (svc_keyStore S) k v)"

section \<open>Identifiers derived from names\<close>

text \<open>\<open>uuid.FromBytes(userlib.Hash([]byte(s))[:16])\<close>\<close>

definition hashed_UUID :: "ext \<Rightarrow> string \<Rightarrow> (go_error, UUID) outcome" where
  "hashed_UUID X s =
     obind (slice_to 16 (hash X (bytes_of_string s))) (\<lambda>h. uuid_FromBytes X h)"

definition user_uuid :: "ext \<Rightarrow> string \<Rightarrow> UUID" where
  "user_uuid X username = take 16 (x_sha512 X (bytes_of_string (username @ ''userStruct'')))"

definition access_uuid :: "ext \<Rightarrow> string \<Rightarrow> string \<Rightarrow> UUID" where
  "access_uuid X username filename = take 16 (x_sha512 X (bytes_of_string (username @ filename)))"

section \<open>saveUser\<close>

definition saveUser :: "ext \<Rightarrow> 'b StorageService option \<Rightarrow> (UUID \<Rightarrow> bytes \<Rightarrow> ('b, go_error, unit) comp)
    \<Rightarrow> User \<Rightarrow> (('b, 'z) world_scheme, go_error, unit) comp" where
  "saveUser X storage datastoreSet userdata =
     bnd (lift_outcome (marshal (enc_user X userdata))) (\<lambda>userBytes.
     bnd (lift_outcome (hashKDF X (u_MasterKey userdata) (bytes_of_string ''enc''))) (\<lambda>encKey.
     bnd (lift_outcome (hashKDF X (u_MasterKey userdata) (bytes_of_string ''mac''))) (\<lambda>macKey.
     bnd (encryptAndMAC X userBytes encKey macKey) (\<lambda>payload.
     bnd (lift_outcome (hashed_UUID X (u_Username userdata @ ''userStruct''))) (\<lambda>userUUID.
     on_backend (case storage of
         Some st \<Rightarrow> st_Set st userUUID payload
       | None \<Rightarrow> datastoreSet userUUID payload))))))"

section \<open>UserService\<close>

definition InitUser :: "ext \<Rightarrow> 'b services \<Rightarrow> string \<Rightarrow> string
    \<Rightarrow> (('b, 'z) world_scheme, go_error, User) comp" where
  "InitUser X S username password =
     bnd (map_err (Wrap ''failed to generate user UUID'')
            (lift_outcome (hashed_UUID X (username @ ''userStruct'')))) (\<lambda>userUUID.
     bnd (storage_Get S userUUID) (\<lambda>existing.
     if existing \<noteq> None then raise (UserExists username) else
     let salt = hash X (bytes_of_string username);
         masterKey = argon2Key X (bytes_of_string password) salt AESKeySizeBytes in
     bnd (map_err (Wrap ''failed to derive encryption key'')
            (lift_outcome (hashKDF X masterKey (bytes_of_string ''enc'')))) (\<lambda>encKey.
     bnd (map_err (Wrap ''failed to derive MAC key'')
            (lift_outcome (hashKDF X masterKey (bytes_of_string ''mac'')))) (\<lambda>macKey.
     bnd (map_err (Wrap ''failed to generate PKE keys'') (pkeKeyGen X)) (\<lambda>(pkeEncKey, pkeDecKey).
     bnd (map_err (Wrap ''failed to generate DS keys'') (dsKeyGen X)) (\<lambda>(dsSignKey, dsVerifyKey).
     bnd (keyStore_Set S (username @ ''_enc_pub'') (AsPublicKey pkeEncKey)) (\<lambda>_.
     bnd (keyStore_Set S (username @ ''_sig_pub'') (AsPublicKey dsVerifyKey)) (\<lambda>_.
     let userdata = \<lparr>u_Username = username, u_PKEPrivateKey = pkeDecKey, u_DSSignKey = dsSignKey,
           u_MasterKey = masterKey, u_Files = Some []\<rparr> in
     bnd (map_err (Wrap ''failed to marshal user'')
            (lift_outcome (marshal (enc_user X userdata)))) (\<lambda>userBytes.
     bnd (map_err (Wrap ''failed to encrypt user data'')
            (encryptAndMAC X userBytes encKey macKey)) (\<lambda>payload.
     bnd (storage_Set S userUUID payload) (\<lambda>_.
     ret userdata)))))))))))"

definition GetUser :: "ext \<Rightarrow> 'b services \<Rightarrow> string \<Rightarrow> string
    \<Rightarrow> (('b, 'z) world_scheme, go_error, User) comp" where
  "GetUser X S username password =
     (let salt = hash X (bytes_of_string username);
          masterKey = argon2Key X (bytes_of_string password) salt AESKeySizeBytes in
      bnd (map_err (Wrap ''failed to derive encryption key'')
             (lift_outcome (hashKDF X masterKey (bytes_of_string ''enc'')))) (\<lambda>encKey.
      bnd (map_err (Wrap ''failed to derive MAC key'')
             (lift_outcome (hashKDF X masterKey (bytes_of_string ''mac'')))) (\<lambda>macKey.
      bnd (map_err (Wrap ''failed to generate user UUID'')
             (lift_outcome (hashed_UUID X (username @ ''userStruct'')))) (\<lambda>userUUID.
      bnd (storage_Get S userUUID) (\<lambda>found.
      case found of
        None \<Rightarrow> raise (UserNotFound username)
      | Some payload \<Rightarrow>
          bnd (map_err (Wrap ''failed to decrypt user data'')
                 (lift_outcome (decryptAndVerify X payload encKey macKey))) (\<lambda>plaintext.
          map_err (Wrap ''failed to unmarshal user'')
            (lift_outcome (unmarshal (dec_user X) plaintext))))))))"

section \<open>Derived facts\<close>

lemma hashed_UUID_ok:
  "crypto_ok X \<Longrightarrow> uuid_ok X \<Longrightarrow>
   hashed_UUID X s = Ok (take 16 (x_sha512 X (bytes_of_string s)))"
  by (simp add: hashed_UUID_def hash_def slice_to_def crypto_okD uuid_FromBytes_ok)

lemma hashed_user_uuid:
  "crypto_ok X \<Longrightarrow> uuid_ok X \<Longrightarrow> hashed_UUID X (n @ ''userStruct'') = Ok (user_uuid X n)"
  by (simp only: hashed_UUID_ok user_uuid_def)

lemma hashed_access_uuid:
  "crypto_ok X \<Longrightarrow> uuid_ok X \<Longrightarrow> hashed_UUID X (n @ f) = Ok (access_uuid X n f)"
  by (simp only: hashed_UUID_ok access_uuid_def)

lemma length_user_uuid [simp]: "crypto_ok X \<Longrightarrow> length (user_uuid X n) = 16"
  by (simp add: user_uuid_def crypto_okD)

lemma length_access_uuid [simp]: "crypto_ok X \<Longrightarrow> length (access_uuid X n f) = 16"
  by (simp add: access_uuid_def crypto_okD)

text \<open>The Argon2 key of a user, and the pair of keys that seals the user struct.\<close>

definition master_key :: "ext \<Rightarrow> string \<Rightarrow> string \<Rightarrow> bytes" where
  "master_key X username password =
     x_argon2id X (bytes_of_string password) (x_sha512 X (bytes_of_string username)) 1 65536 4 16"

definition user_keys :: "ext \<Rightarrow> bytes \<Rightarrow> bytes \<times> bytes" where
  "user_keys X mk =
     (x_hmac_sha512 X mk (bytes_of_string ''enc''), x_hmac_sha512 X mk (bytes_of_string ''mac''))"

lemma length_master_key [simp]: "crypto_ok X \<Longrightarrow> length (master_key X n p) = 16"
  by (simp add: master_key_def crypto_okD)

lemma argon2Key_eq: "argon2Key X (bytes_of_string p) (hash X (bytes_of_string n)) AESKeySizeBytes = master_key X n p"
  by (simp add: argon2Key_def master_key_def hash_def AESKeySizeBytes_def)

text \<open>A value sealed under a pair of keys lies at an identifier of a store.\<close>

definition sealed_at :: "ext \<Rightarrow> (UUID \<rightharpoonup> bytes) \<Rightarrow> UUID \<Rightarrow> json \<Rightarrow> bytes \<times> bytes \<Rightarrow> bool" where
  "sealed_at X \<sigma> u j ks \<longleftrightarrow>
     (\<exists>iv. length iv = 16 \<and> \<sigma> u = Some (seal X iv (bytes_of_string (json_print j)) ks))"

definition user_at :: "ext \<Rightarrow> (UUID \<rightharpoonup> bytes) \<Rightarrow> User \<Rightarrow> bool" where
  "user_at X \<sigma> u \<longleftrightarrow> user_wf u \<and> length (u_MasterKey u) = 16
     \<and> sealed_at X \<sigma> (user_uuid X (u_Username u)) (enc_user X u) (user_keys X (u_MasterKey u))"

lemma sealed_atI:
  "length iv = 16 \<Longrightarrow> \<sigma> u = Some (seal X iv (bytes_of_string (json_print j)) ks) \<Longrightarrow> sealed_at X \<sigma> u j ks"
  by (auto simp: sealed_at_def)

lemma sealed_at_dom: "sealed_at X \<sigma> u j ks \<Longrightarrow> u \<in> dom \<sigma>"
  by (auto simp: sealed_at_def)

lemma sealed_at_cong: "\<sigma> u = \<sigma>' u \<Longrightarrow> sealed_at X \<sigma> u j ks = sealed_at X \<sigma>' u j ks"
  by (simp add: sealed_at_def)

end
