(* ===== verification/File_Blocks.thy ===== *)
theory File_Blocks
  imports Go_External
begin

text \<open>
  \<open>internal/client/encryption/File.go\<close>: cutting a file into 512-byte blocks and joining the
  blocks again. The index loop of the code is shown equal to the obvious recursive chunking,
  from which the size of every block and the round trip follow.
\<close>

definition BlockSize :: nat where "BlockSize = 512"

text \<open>\<open>BlockUUID\<close> is never assigned by the code: it keeps the zero value.\<close>

record FileBlock =
  fb_BlockUUID :: UUID
  fb_block :: bytes

definition zero_UUID :: UUID where "zero_UUID = replicate 16 0"

text \<open>\<open>data[start:end]\<close>, copied.\<close>

definition slice :: "'a list \<Rightarrow> nat \<Rightarrow> nat \<Rightarrow> 'a list" where
  "slice xs i j = take (j - i) (drop i xs)"

text \<open>The body of the loop for one index; \<open>end\<close> is cut back to the size of the data.\<close>

definition block_at :: "bytes \<Rightarrow> nat \<Rightarrow> FileBlock" where
  "block_at data i =
     (let start = i * BlockSize;
          end0 = start + BlockSize;
          end1 = (if length data < end0 then length data else end0)
      in \<lparr>fb_BlockUUID = zero_UUID, fb_block = slice data start end1\<rparr>)"

definition block_num :: "nat \<Rightarrow> nat" where
  "block_num n = (n + BlockSize - 1) div BlockSize"

fun block_loop :: "bytes \<Rightarrow> nat \<Rightarrow> nat \<Rightarrow> FileBlock list" where
  "block_loop data i 0 = []"
| "block_loop data i (Suc k) = block_at data i # block_loop data (Suc i) k"

definition ByteToBlock :: "bytes \<Rightarrow> FileBlock list" where
  "ByteToBlock data = block_loop data 0 (block_num (length data))"

text \<open>\<open>BlockYToByte\<close>: a nil list is \<open>None\<close>.\<close>

definition BlockYToByte :: "FileBlock list option \<Rightarrow> int \<Rightarrow> bytes" where
  "BlockYToByte block totalSize = (case block of
     None \<Rightarrow> []
   | Some bs \<Rightarrow>
       if totalSize \<le> 0 \<or> bs = [] then []
       else let r = concat (map fb_block bs) in
         if int (length r) > totalSize then take (nat totalSize) r else r)"

section \<open>The reference chunking\<close>

function chunks :: "bytes \<Rightarrow> bytes list" where
  "chunks data = (if data = [] then [] else take BlockSize data # chunks (drop BlockSize data))"
  by pat_completeness auto
termination
  by (relation "measure length") (auto simp: BlockSize_def)

declare chunks.simps [simp del]

lemma chunks_Nil [simp]: "chunks [] = []"
  by (simp add: chunks.simps)

lemma block_num_zero [simp]: "block_num 0 = 0"
  by (simp add: block_num_def BlockSize_def)

lemma block_num_step: "0 < n \<Longrightarrow> block_num n = Suc (block_num (n - BlockSize))"
  unfolding block_num_def BlockSize_def
  by (cases "n \<le> 512") (auto simp: div_if)

lemma block_at_fits:
  "fb_block (block_at data i) = take BlockSize (drop (i * BlockSize) data)"
  by (auto simp: block_at_def slice_def Let_def min_def)

lemma block_loop_chunks:
  "block_num (length data - i * BlockSize) = k \<Longrightarrow>
   map fb_block (block_loop data i k) = chunks (drop (i * BlockSize) data)"
proof (induction k arbitrary: i)
  case 0
  have "length data - i * BlockSize = 0"
  proof (rule ccontr)
    assume "\<not> ?thesis"
    then have "block_num (length data - i * BlockSize) \<noteq> 0" by (subst block_num_step) simp_all
    with 0 show False by simp
  qed
  then show ?case by simp
next
  case (Suc k)
  let ?d = "drop (i * BlockSize) data"
  have pos: "0 < length data - i * BlockSize"
    using Suc.prems by (intro gr0I) simp
  then have ne: "?d \<noteq> []" by simp
  have "block_num (length data - Suc i * BlockSize) = k"
    using Suc.prems block_num_step [OF pos] by (simp add: diff_diff_left add.commute)
  then have "map fb_block (block_loop data (Suc i) k) = chunks (drop (Suc i * BlockSize) data)"
    by (rule Suc.IH)
  then show ?case
    using ne by (simp add: chunks.simps [of ?d] block_at_fits add.commute)
qed

lemma ByteToBlock_chunks: "map fb_block (ByteToBlock data) = chunks data"
  using block_loop_chunks [of data 0] by (simp add: ByteToBlock_def)

lemma length_block_loop [simp]: "length (block_loop data i k) = k"
  by (induction k arbitrary: i) simp_all

lemma length_ByteToBlock: "length (ByteToBlock data) = block_num (length data)"
  by (simp add: ByteToBlock_def)

lemma concat_chunks [simp]: "concat (chunks data) = data"
proof (induction data rule: chunks.induct)
  case (1 data)
  then show ?case by (cases "data = []") (simp_all add: chunks.simps [of data])
qed

lemma concat_ByteToBlock [simp]: "concat (map fb_block (ByteToBlock data)) = data"
  by (simp add: ByteToBlock_chunks)

lemma chunk_sizes:
  "c \<in> set (chunks data) \<Longrightarrow> 0 < length c \<and> length c \<le> BlockSize"
proof (induction data rule: chunks.induct)
  case (1 data)
  then show ?case
    by (cases "data = []") (auto simp: chunks.simps [of data] BlockSize_def)
qed

lemma chunk_full: "Suc i < length (chunks data) \<Longrightarrow> length (chunks data ! i) = BlockSize"
proof (induction data arbitrary: i rule: chunks.induct)
  case (1 data)
  show ?case
  proof (cases "data = []")
    case True
    with "1.prems" show ?thesis by simp
  next
    case False
    note eq = chunks.simps [of data]
    from "1.prems" False have ne: "chunks (drop BlockSize data) \<noteq> []"
      by (auto simp: eq)
    then have "BlockSize < length data" by (rule contrapos_np) simp
    with "1.prems" False "1.IH" show ?thesis
      by (cases i) (auto simp: eq)
  qed
qed

end
