(* ===== verification/File_Service.thy ===== *)
theory File_Service
  imports Services File_Blocks
begin

text \<open>
  \<open>FileService\<close> of \<open>internal/client/encryption/service.go\<close>: \<open>StoreFile\<close>, \<open>LoadFile\<close>,
  \<open>AppendToFile\<close> and \<open>ListFiles\<close>, statement by statement over a session, for any services.
  The recurring "get a payload, verify and decrypt it, unmarshal it" of the code is \<open>fetch\<close>.
\<close>

text \<open>
  \<open>payload, ok := storage.Get(id)\<close>; \<open>if !ok\<close> return \<open>missing\<close>; derive the keys;
  \<open>decryptAndVerify\<close>; \<open>json.Unmarshal\<close>. The keys are returned since the code uses them again.
\<close>

definition fetch :: "ext \<Rightarrow> 'b services \<Rightarrow> UUID \<Rightarrow> go_error \<Rightarrow> (go_error, bytes \<times> bytes) outcome
    \<Rightarrow> (go_error \<Rightarrow> go_error) \<Rightarrow> (go_error \<Rightarrow> go_error) \<Rightarrow> (json \<Rightarrow> 'a option)
    \<Rightarrow> (('b, 'z) world_scheme, go_error, 'a \<times> bytes \<times> bytes) comp" where
  "fetch X S ident missing keys wrapDecrypt wrapUnmarshal dec =
     bnd (storage_Get S ident) (\<lambda>found. case found of
       None \<Rightarrow> raise missing
     | Some payload \<Rightarrow>
         bnd (lift_outcome keys) (\<lambda>(encKey, macKey).
         bnd (map_err wrapDecrypt (lift_outcome (decryptAndVerify X payload encKey macKey))) (\<lambda>plain.
         bnd (map_err wrapUnmarshal (lift_outcome (unmarshal dec plain))) (\<lambda>v.
         ret (v, encKey, macKey)))))"

text \<open>The loop over \<open>blocks.Front()\<close>: a fresh UUID per block; the UUIDs are appended to the inode's.\<close>

fun store_blocks :: "ext \<Rightarrow> 'b services \<Rightarrow> (go_error \<Rightarrow> go_error) \<Rightarrow> bytes \<Rightarrow> bytes \<Rightarrow> FileBlock list
    \<Rightarrow> UUID list \<Rightarrow> (('b, 'z) world_scheme, go_error, UUID list) comp" where
  "store_blocks X S wrap encKey macKey [] acc = ret acc"
| "store_blocks X S wrap encKey macKey (fb # fbs) acc =
     bnd (uuid_New X) (\<lambda>blockUUID.
     bnd (map_err wrap (encryptAndMAC X (fb_block fb) encKey macKey)) (\<lambda>blockPayload.
     bnd (storage_Set S blockUUID blockPayload) (\<lambda>_.
     store_blocks X S wrap encKey macKey fbs (acc @ [blockUUID]))))"

text \<open>The loop over \<open>inode.BlockUUIDs\<close> that appends each decrypted block to the data.\<close>

fun load_blocks :: "ext \<Rightarrow> 'b services \<Rightarrow> string \<Rightarrow> bytes \<Rightarrow> bytes \<Rightarrow> UUID list \<Rightarrow> bytes
    \<Rightarrow> (('b, 'z) world_scheme, go_error, bytes) comp" where
  "load_blocks X S filename encKey macKey [] data = ret data"
| "load_blocks X S filename encKey macKey (u # us) data =
     bnd (storage_Get S u) (\<lambda>found. case found of
       None \<Rightarrow> raise (BlockNotFound filename)
     | Some blockPayload \<Rightarrow>
         bnd (map_err (Wrap ''failed to decrypt block'')
                (lift_outcome (decryptAndVerify X blockPayload encKey macKey))) (\<lambda>plain.
         load_blocks X S filename encKey macKey us (data @ plain)))"

text \<open>\<open>userdata.Files[filename] = id\<close>; assigning into a nil map panics.\<close>

definition set_file :: "string \<Rightarrow> UUID \<Rightarrow> ('b session, go_error, unit) comp" where
  "set_file filename ident = bnd (gets self) (\<lambda>u. case u_Files u of
     None \<Rightarrow> go_panic ''assignment to entry in nil map''
   | Some m \<Rightarrow> modify (\<lambda>s. s\<lparr>self := u\<lparr>u_Files := Some (gm_set filename ident m)\<rparr>\<rparr>))"

definition save_self :: "ext \<Rightarrow> 'b services \<Rightarrow> ('b session, go_error, unit) comp" where
  "save_self X S = bnd (gets self) (\<lambda>u.
     saveUser X (Some (svc_storage S)) (svc_DatastoreSet S) u)"

text \<open>\<open>if userdata.Files == nil { userdata.Files = make(...) }\<close>\<close>

definition make_files :: "('b session, go_error, unit) comp" where
  "make_files = modify (\<lambda>s. if u_Files (self s) = None
     then s\<lparr>self := (self s)\<lparr>u_Files := Some []\<rparr>\<rparr> else s)"

definition StoreFile :: "ext \<Rightarrow> 'b services \<Rightarrow> string \<Rightarrow> bytes \<Rightarrow> ('b session, go_error, unit) comp" where
  "StoreFile X S filename content =
     bnd make_files (\<lambda>_.
     bnd (gets self) (\<lambda>userdata.
     bnd (randomBytes X 16) (\<lambda>fileKey.
     bnd (uuid_New X) (\<lambda>inodeUUID.
     let mailboxnode = \<lparr>mb_FileKey = fileKey, mb_InodeUUID = inodeUUID\<rparr> in
     bnd (map_err (Wrap ''failed to marshal mailbox'')
            (lift_outcome (marshal (enc_mailbox X mailboxnode)))) (\<lambda>mailboxBytes.
     bnd (uuid_New X) (\<lambda>mailboxUUID.
     bnd (randomBytes X 16) (\<lambda>mailboxKey.
     let (mEncKey, mMacKey) = getMailKeys X mailboxKey in
     bnd (map_err (Wrap ''failed to encrypt mailbox'')
            (encryptAndMAC X mailboxBytes mEncKey mMacKey)) (\<lambda>mailboxPayload.
     bnd (storage_Set S mailboxUUID mailboxPayload) (\<lambda>_.
     let access = \<lparr>ac_MymailboxUUID = mailboxUUID, ac_MymailboxKey = mailboxKey, ac_Children = Some []\<rparr> in
     bnd (map_err (Wrap ''failed to marshal access'')
            (lift_outcome (marshal (enc_access X access)))) (\<lambda>accessBytes.
     bnd (lift_outcome (getPersonalKey X (u_MasterKey userdata) filename)) (\<lambda>(pEncKey, pMacKey).
     bnd (map_err (Wrap ''failed to encrypt access'')
            (encryptAndMAC X accessBytes pEncKey pMacKey)) (\<lambda>accessPayload.
     bnd (map_err (Wrap ''failed to generate access UUID'')
            (lift_outcome (hashed_UUID X (u_Username userdata @ filename)))) (\<lambda>accessUUID.
     bnd (storage_Set S accessUUID accessPayload) (\<lambda>_.
     bnd (lift_outcome (getFileKeys X fileKey)) (\<lambda>(fEncKey, fMacKey).
     bnd (store_blocks X S (Wrap ''failed to encrypt block'') fEncKey fMacKey (ByteToBlock content) []) (\<lambda>blockUUIDs.
     let inode = \<lparr>in_Size = int (length content), in_BlockUUIDs = blockUUIDs\<rparr> in
     bnd (map_err (Wrap ''failed to marshal inode'')
            (lift_outcome (marshal (enc_inode X inode)))) (\<lambda>inodeBytes.
     bnd (map_err (Wrap ''failed to encrypt inode'')
            (encryptAndMAC X inodeBytes fEncKey fMacKey)) (\<lambda>inodePayload.
     bnd (storage_Set S inodeUUID inodePayload) (\<lambda>_.
     bnd (set_file filename accessUUID) (\<lambda>_.
     save_self X S))))))))))))))))))))"

definition LoadFile :: "ext \<Rightarrow> 'b services \<Rightarrow> string \<Rightarrow> ('b session, go_error, bytes) comp" where
  "LoadFile X S filename =
     bnd (gets self) (\<lambda>userdata.
     bnd (map_err (Wrap ''failed to generate access UUID'')
            (lift_outcome (hashed_UUID X (u_Username userdata @ filename)))) (\<lambda>accessUUID.
     bnd (fetch X S accessUUID (FileNotFound filename (u_Username userdata))
            (getPersonalKey X (u_MasterKey userdata) filename)
            (Wrap ''failed to decrypt access'') (Wrap ''failed to unmarshal access'')
            (dec_access X)) (\<lambda>(access, _).
     bnd (fetch X S (ac_MymailboxUUID access) (MailboxNotFound filename)
            (Ok (getMailKeys X (ac_MymailboxKey access)))
            (Wrap ''failed to decrypt mailbox'') (Wrap ''failed to unmarshal mailbox'')
            (dec_mailbox X)) (\<lambda>(myMailbox, _).
     bnd (fetch X S (mb_InodeUUID myMailbox) (InodeNotFound filename)
            (getFileKeys X (mb_FileKey myMailbox))
            (Wrap ''failed to decrypt inode'') (Wrap ''failed to unmarshal inode'')
            (dec_inode X)) (\<lambda>(inode, fEncKey, fMacKey).
     load_blocks X S filename fEncKey fMacKey (in_BlockUUIDs inode) [])))))"

text \<open>\<open>content\<close> may be nil (\<open>None\<close>). Errors of the chain are returned unwrapped here.\<close>

definition AppendToFile :: "ext \<Rightarrow> 'b services \<Rightarrow> string \<Rightarrow> bytes option \<Rightarrow> ('b session, go_error, unit) comp" where
  "AppendToFile X S filename content_opt = (case content_opt of
     None \<Rightarrow> raise ContentNil
   | Some content \<Rightarrow>
     bnd (gets self) (\<lambda>userdata.
     bnd (map_err (Wrap ''failed to generate access UUID'')
            (lift_outcome (hashed_UUID X (u_Username userdata @ filename)))) (\<lambda>accessUUID.
     bnd (fetch X S accessUUID (FileNotFoundAppend filename)
            (getPersonalKey X (u_MasterKey userdata) filename) id id (dec_access X)) (\<lambda>(access, _).
     bnd (fetch X S (ac_MymailboxUUID access) (MailboxNotFound filename)
            (Ok (getMailKeys X (ac_MymailboxKey access))) id id (dec_mailbox X)) (\<lambda>(myMailbox, _).
     bnd (fetch X S (mb_InodeUUID myMailbox) (InodeNotFound filename)
            (getFileKeys X (mb_FileKey myMailbox)) id id (dec_inode X)) (\<lambda>(inode, fEncKey, fMacKey).
     bnd (store_blocks X S id fEncKey fMacKey (ByteToBlock content) (in_BlockUUIDs inode)) (\<lambda>blockUUIDs.
     let inode' = \<lparr>in_Size = wrap64 (in_Size inode + int (length content)), in_BlockUUIDs = blockUUIDs\<rparr> in
     bnd (map_err (Wrap ''failed to marshal inode'')
            (lift_outcome (marshal (enc_inode X inode')))) (\<lambda>newInodeBytes.
     bnd (map_err (Wrap ''failed to encrypt inode'')
            (encryptAndMAC X newInodeBytes fEncKey fMacKey)) (\<lambda>newInodePayload.
     storage_Set S (mb_InodeUUID myMailbox) newInodePayload)))))))))"

text \<open>\<open>ListFiles\<close>: the keys of the map in the order of this \<open>range\<close>.\<close>

definition ListFiles :: "ext \<Rightarrow> ('b session, go_error, string list) comp" where
  "ListFiles X = bnd (gets self) (\<lambda>userdata. case u_Files userdata of
     None \<Rightarrow> ret []
   | Some m \<Rightarrow> range_keys X m)"

end
