(* ===== verification/Memory_Storage.thy ===== *)
theory Memory_Storage
  imports Services
begin

text \<open>
  The in-memory half of \<open>internal/client/encryption/memory.go\<close>: \<open>MemoryStorage\<close> and
  \<open>MemoryKeyStore\<close>, each a map behind a mutex (so every operation is one atomic step), and
  the services built on them. This backend is also the specification the other backends are
  compared with.
\<close>

record memory =
  mem_store :: "UUID \<rightharpoonup> bytes"
  mem_keys :: "string \<rightharpoonup> iface"

definition empty_memory :: memory where
  "empty_memory = \<lparr>mem_store = Map.empty, mem_keys = Map.empty\<rparr>"

definition MemoryStorage_Get :: "UUID \<Rightarrow> (memory, go_error, bytes option) comp" where
  "MemoryStorage_Get key m = (Ok (mem_store m key), m)"

definition MemoryStorage_Set :: "UUID \<Rightarrow> bytes \<Rightarrow> (memory, go_error, unit) comp" where
  "MemoryStorage_Set key val m = (Ok (), m\<lparr>mem_store := (mem_store m)(key \<mapsto> val)\<rparr>)"

definition MemoryStorage_Delete :: "UUID \<Rightarrow> (memory, go_error, unit) comp" where
  "MemoryStorage_Delete key m = (Ok (), m\<lparr>mem_store := (mem_store m)(key := None)\<rparr>)"

definition MemoryKeyStore_Get :: "string \<Rightarrow> (memory, go_error, iface option) comp" where
  "MemoryKeyStore_Get key m = (Ok (mem_keys m key), m)"

definition MemoryKeyStore_Set :: "string \<Rightarrow> iface \<Rightarrow> (memory, go_error, unit) comp" where
  "MemoryKeyStore_Set key val m = (Ok (), m\<lparr>mem_keys := (mem_keys m)(key \<mapsto> val)\<rparr>)"

definition memory_services :: "memory services" where
  "memory_services =
     \<lparr>svc_storage = \<lparr>st_Get = MemoryStorage_Get, st_Set = MemoryStorage_Set, st_Delete = MemoryStorage_Delete\<rparr>,
      svc_keyStore = \<lparr>ks_Get = MemoryKeyStore_Get, ks_Set = MemoryKeyStore_Set\<rparr>,
      svc_DatastoreSet = MemoryStorage_Set\<rparr>"

section \<open>The operations as rewrite rules on the world\<close>

abbreviation store_of :: "(memory, 'z) world_scheme \<Rightarrow> UUID \<rightharpoonup> bytes" where
  "store_of w \<equiv> mem_store (backend w)"

abbreviation keys_of :: "(memory, 'z) world_scheme \<Rightarrow> string \<rightharpoonup> iface" where
  "keys_of w \<equiv> mem_keys (backend w)"

definition put :: "UUID \<Rightarrow> bytes \<Rightarrow> (memory, 'z) world_scheme \<Rightarrow> (memory, 'z) world_scheme" where
  "put k v w = w\<lparr>backend := (backend w)\<lparr>mem_store := (store_of w)(k \<mapsto> v)\<rparr>\<rparr>"

definition put_key :: "string \<Rightarrow> iface \<Rightarrow> (memory, 'z) world_scheme \<Rightarrow> (memory, 'z) world_scheme" where
  "put_key k v w = w\<lparr>backend := (backend w)\<lparr>mem_keys := (keys_of w)(k \<mapsto> v)\<rparr>\<rparr>"

definition advance :: "nat \<Rightarrow> 'z entropy_scheme \<Rightarrow> 'z entropy_scheme" where
  "advance n w = w\<lparr>draws := draws w + n\<rparr>"

lemma put_sel [simp]:
  "store_of (put k v w) = (store_of w)(k \<mapsto> v)" "keys_of (put k v w) = keys_of w"
  "draws (put k v w) = draws w"
  by (simp_all add: put_def)

lemma put_key_sel [simp]:
  "store_of (put_key k v w) = store_of w" "keys_of (put_key k v w) = (keys_of w)(k \<mapsto> v)"
  "draws (put_key k v w) = draws w"
  by (simp_all add: put_key_def)

lemma put_self [simp]: "self (put k v (w :: memory session)) = self w"
  by (simp add: put_def)

lemma memory_Get [monad_simps]:
  "on_backend (st_Get (svc_storage memory_services) k) w = (Ok (store_of w k), w)"
  by (simp add: memory_services_def on_backend_def MemoryStorage_Get_def)

lemma memory_Set [monad_simps]:
  "on_backend (st_Set (svc_storage memory_services) k v) w = (Ok (), put k v w)"
  by (simp add: memory_services_def on_backend_def MemoryStorage_Set_def put_def)

lemma memory_key_Get [monad_simps]:
  "on_backend (ks_Get (svc_keyStore memory_services) n) w = (Ok (keys_of w n), w)"
  by (simp add: memory_services_def on_backend_def MemoryKeyStore_Get_def)

lemma memory_key_Set [monad_simps]:
  "on_backend (ks_Set (svc_keyStore memory_services) n v) w = (Ok (), put_key n v w)"
  by (simp add: memory_services_def on_backend_def MemoryKeyStore_Set_def put_key_def)

text \<open>Counting a draw commutes with the writes: the count ends up outermost.\<close>

lemma put_draws [monad_simps]: "put k v (w\<lparr>draws := n\<rparr>) = (put k v w)\<lparr>draws := n\<rparr>"
  by (simp add: put_def)

lemma put_key_draws [monad_simps]: "put_key k v (w\<lparr>draws := n\<rparr>) = (put_key k v w)\<lparr>draws := n\<rparr>"
  by (simp add: put_key_def)

lemma saveUser_memory:
  assumes "crypto_ok X" "uuid_ok X" "length (u_MasterKey u) = 16"
  shows "saveUser X (Some (svc_storage memory_services)) D u w =
    (Ok (), (put (user_uuid X (u_Username u))
       (seal X (rand_at X (draws w) 16) (bytes_of_string (json_print (enc_user X u)))
         (user_keys X (u_MasterKey u))) w)\<lparr>draws := Suc (draws w)\<rparr>)"
  using assms
  by (simp add: saveUser_def monad_simps marshal_def hashKDF_ok encryptAndMAC_ok hashed_user_uuid
      user_keys_def)

end
