(* ===== verification/File_Correct.thy ===== *)
theory File_Correct
  imports File_Service Memory_Storage
begin

text \<open>
  The file operations on the in-memory backend, in closed form. A \<open>view\<close> relates a store to
  what one user sees of one file: the chain from the access record over the mailbox and the
  inode to the sealed blocks, and the content they hold. \<open>StoreFile\<close> and \<open>AppendToFile\<close> are
  shown equal to explicit lists of writes, which build and extend views, and to change
  nothing outside them. The properties themselves are in the next theory.
\<close>

section \<open>Many writes\<close>

fun put_all :: "(UUID \<times> bytes) list \<Rightarrow> (memory, 'z) world_scheme \<Rightarrow> (memory, 'z) world_scheme" where
  "put_all [] w = w"
| "put_all ((k, v) # kvs) w = put_all kvs (put k v w)"

lemma put_all_sel [simp]:
  "keys_of (put_all kvs w) = keys_of w" "draws (put_all kvs w) = draws w"
  by (induction kvs arbitrary: w) auto

lemma put_all_self [simp]: "self (put_all kvs (w :: memory session)) = self w"
  by (induction kvs arbitrary: w) auto

lemma put_all_draws [monad_simps]: "put_all kvs (w\<lparr>draws := n\<rparr>) = (put_all kvs w)\<lparr>draws := n\<rparr>"
  by (induction kvs arbitrary: w) (auto simp: put_draws)

lemma store_of_put_all: "store_of (put_all kvs w) k = (if k \<in> fst ` set kvs then map_of (rev kvs) k else store_of w k)"
proof (induction kvs arbitrary: w)
  case (Cons kv kvs)
  obtain j v where kv: "kv = (j, v)" by (cases kv)
  show ?case
    by (auto simp: kv Cons map_add_def split: option.splits)
      (metis domI dom_map_of_conv_image_fst image_iff fst_conv map_of_eq_None_iff set_rev option.distinct(1))+
qed simp

lemma store_of_put_all_in:
  assumes "(k, v) \<in> set kvs" "distinct (map fst kvs)"
  shows "store_of (put_all kvs w) k = Some v"
proof -
  have "map_of (rev kvs) k = Some v"
    using assms by (intro map_of_is_SomeI) (simp_all add: rev_map [symmetric])
  with assms(1) show ?thesis by (force simp: store_of_put_all)
qed

lemma store_of_put_all_out: "k \<notin> fst ` set kvs \<Longrightarrow> store_of (put_all kvs w) k = store_of w k"
  by (simp add: store_of_put_all)

lemma dom_put_all: "dom (store_of (put_all kvs w)) = dom (store_of w) \<union> fst ` set kvs"
proof (induction kvs arbitrary: w)
  case (Cons kv kvs)
  obtain k v where "kv = (k, v)" by (cases kv)
  then show ?case by (simp only: put_all.simps Cons) auto
qed simp

section \<open>Storing blocks\<close>

fun block_puts :: "ext \<Rightarrow> bytes \<times> bytes \<Rightarrow> nat \<Rightarrow> FileBlock list \<Rightarrow> (UUID \<times> bytes) list" where
  "block_puts X ks d [] = []"
| "block_puts X ks d (fb # fbs) =
     (uuid_at X d, seal X (rand_at X (Suc d) 16) (fb_block fb) ks) # block_puts X ks (d + 2) fbs"

lemma store_blocks_memory:
  assumes "crypto_ok X" "uuid_ok X"
  shows "store_blocks X memory_services wrap ek mk fbs acc w =
    (Ok (acc @ map fst (block_puts X (ek, mk) (draws w) fbs)),
     (put_all (block_puts X (ek, mk) (draws w) fbs) w)\<lparr>draws := draws w + 2 * length fbs\<rparr>)"
proof (induction fbs arbitrary: acc w)
  case (Cons fb fbs)
  show ?case
    using assms by (simp add: monad_simps uuid_New_ok encryptAndMAC_ok Cons)
qed (simp add: monad_simps)

lemma fst_block_puts: "map fst (block_puts X ks d fbs) = map (\<lambda>i. uuid_at X (d + 2 * i)) [0..<length fbs]"
proof (induction fbs arbitrary: d)
  case (Cons fb fbs)
  have "map (\<lambda>i. uuid_at X (d + 2 * i)) [0..<Suc n]
      = uuid_at X d # map (\<lambda>i. uuid_at X (d + 2 + 2 * i)) [0..<n]" for n
    by (subst upt_conv_Cons) (simp_all add: map_Suc_upt [symmetric] del: upt_Suc)
  with Cons show ?case by simp
qed simp

definition sealed_block :: "ext \<Rightarrow> (UUID \<rightharpoonup> bytes) \<Rightarrow> bytes \<times> bytes \<Rightarrow> UUID \<Rightarrow> bytes \<Rightarrow> bool" where
  "sealed_block X \<sigma> ks u b \<longleftrightarrow> (\<exists>iv. length iv = 16 \<and> \<sigma> u = Some (seal X iv b ks))"

abbreviation blocks_at :: "ext \<Rightarrow> (UUID \<rightharpoonup> bytes) \<Rightarrow> bytes \<times> bytes \<Rightarrow> UUID list \<Rightarrow> bytes list \<Rightarrow> bool" where
  "blocks_at X \<sigma> ks us bs \<equiv> list_all2 (sealed_block X \<sigma> ks) us bs"

lemma blocks_at_puts:
  assumes "crypto_ok X"
    and "\<And>k v. (k, v) \<in> set (block_puts X ks d fbs) \<Longrightarrow> \<sigma> k = Some v"
  shows "blocks_at X \<sigma> ks (map fst (block_puts X ks d fbs)) (map fb_block fbs)"
  using assms(2)
proof (induction fbs arbitrary: d)
  case (Cons fb fbs)
  have "\<sigma> (uuid_at X d) = Some (seal X (rand_at X (Suc d) 16) (fb_block fb) ks)"
    by (rule Cons.prems) simp
  then have "sealed_block X \<sigma> ks (uuid_at X d) (fb_block fb)"
    using length_rand_at [OF assms(1)] by (auto simp: sealed_block_def)
  moreover have "blocks_at X \<sigma> ks (map fst (block_puts X ks (d + 2) fbs)) (map fb_block fbs)"
    by (rule Cons.IH) (simp add: Cons.prems)
  ultimately show ?case by simp
qed simp

lemma blocks_at_cong:
  "blocks_at X \<sigma> ks us bs \<Longrightarrow> (\<And>u. u \<in> set us \<Longrightarrow> \<sigma>' u = \<sigma> u) \<Longrightarrow> blocks_at X \<sigma>' ks us bs"
  by (induction us bs rule: list_all2_induct) (auto simp: sealed_block_def)

lemma blocks_at_dom: "blocks_at X \<sigma> ks us bs \<Longrightarrow> set us \<subseteq> dom \<sigma>"
  by (induction us bs rule: list_all2_induct) (auto simp: sealed_block_def)

section \<open>Loading blocks\<close>

lemma load_blocks_memory:
  assumes "crypto_ok X"
  shows "blocks_at X (store_of w) (ek, mk) us bs \<Longrightarrow>
    load_blocks X memory_services filename ek mk us data w = (Ok (data @ concat bs), w)"
proof (induction us bs arbitrary: data rule: list_all2_induct)
  case (Cons u us b bs)
  then obtain iv where "length iv = 16" "store_of w u = Some (seal X iv b (ek, mk))"
    by (auto simp: sealed_block_def)
  with Cons assms show ?case by (simp add: monad_simps)
qed (simp add: monad_simps)

section \<open>The chain access, mailbox, inode\<close>

definition mailbox_at :: "ext \<Rightarrow> (UUID \<rightharpoonup> bytes) \<Rightarrow> UUID \<Rightarrow> bytes \<Rightarrow> MailboxNode \<Rightarrow> bool" where
  "mailbox_at X \<sigma> mu mk node \<longleftrightarrow> mailbox_wf node \<and> length (mb_FileKey node) = 16
     \<and> sealed_at X \<sigma> mu (enc_mailbox X node) (getMailKeys X mk)"

definition access_at :: "ext \<Rightarrow> (UUID \<rightharpoonup> bytes) \<Rightarrow> User \<Rightarrow> string \<Rightarrow> Access \<Rightarrow> bool" where
  "access_at X \<sigma> u fn a \<longleftrightarrow> access_wf a \<and> length (u_MasterKey u) = 16
     \<and> sealed_at X \<sigma> (access_uuid X (u_Username u) fn) (enc_access X a) (personal_keys X (u_MasterKey u) fn)"

definition inode_at :: "ext \<Rightarrow> (UUID \<rightharpoonup> bytes) \<Rightarrow> bytes \<Rightarrow> UUID \<Rightarrow> Inode \<Rightarrow> bool" where
  "inode_at X \<sigma> fk iu inode \<longleftrightarrow> inode_wf inode \<and> length fk = 16
     \<and> sealed_at X \<sigma> iu (enc_inode X inode) (file_keys X fk)"

definition file_at :: "ext \<Rightarrow> (UUID \<rightharpoonup> bytes) \<Rightarrow> bytes \<Rightarrow> UUID \<Rightarrow> Inode \<Rightarrow> bytes \<Rightarrow> bool" where
  "file_at X \<sigma> fk iu inode content \<longleftrightarrow> inode_at X \<sigma> fk iu inode
     \<and> (\<exists>bs. blocks_at X \<sigma> (file_keys X fk) (in_BlockUUIDs inode) bs \<and> concat bs = content)"

lemma fetch_memory:
  assumes "crypto_ok X" "sealed_at X (store_of w) ident j ks" "json_wf j" "dec j = Some v" "keys = Ok ks"
  shows "fetch X memory_services ident missing keys wd wu dec w = (Ok (v, fst ks, snd ks), w)"
proof -
  obtain iv where iv: "length iv = 16" "store_of w ident = Some (seal X iv (bytes_of_string (json_print j)) ks)"
    using assms(2) by (auto simp: sealed_at_def)
  obtain ek mk where ks: "ks = (ek, mk)" by (cases ks)
  show ?thesis
    using assms(1,5) iv unmarshal_marshal [of j dec v, OF assms(3,4)]
    by (simp add: fetch_def monad_simps ks)
qed

lemma fetch_missing:
  "store_of w ident = None \<Longrightarrow> fetch X memory_services ident missing keys wd wu dec w = (Err missing, w)"
  by (simp add: fetch_def monad_simps)

lemma fetch_access:
  assumes "crypto_ok X" "uuid_ok X" "access_at X (store_of w) u fn a"
  shows "fetch X memory_services (access_uuid X (u_Username u) fn) missing
      (getPersonalKey X (u_MasterKey u) fn) wd wu (dec_access X) w
    = (Ok (a, fst (personal_keys X (u_MasterKey u) fn), snd (personal_keys X (u_MasterKey u) fn)), w)"
  using assms by (intro fetch_memory) (auto simp: access_at_def access_codec getPersonalKey_eq)

lemma fetch_mailbox:
  assumes "crypto_ok X" "uuid_ok X" "mailbox_at X (store_of w) mu mk node"
  shows "fetch X memory_services mu missing (Ok (getMailKeys X mk)) wd wu (dec_mailbox X) w
    = (Ok (node, fst (getMailKeys X mk), snd (getMailKeys X mk)), w)"
  using assms by (intro fetch_memory) (auto simp: mailbox_at_def mailbox_codec)

lemma fetch_inode:
  assumes "crypto_ok X" "uuid_ok X" "inode_at X (store_of w) fk iu inode"
  shows "fetch X memory_services iu missing (getFileKeys X fk) wd wu (dec_inode X) w
    = (Ok (inode, fst (file_keys X fk), snd (file_keys X fk)), w)"
  using assms by (intro fetch_memory) (auto simp: inode_at_def inode_codec getFileKeys_eq)

lemmas chain_simps = fetch_access fetch_mailbox fetch_inode

lemma LoadFile_memory:
  assumes "crypto_ok X" "uuid_ok X" "access_at X (store_of w) (self w) fn a"
    "mailbox_at X (store_of w) (ac_MymailboxUUID a) (ac_MymailboxKey a) node"
    "file_at X (store_of w) (mb_FileKey node) (mb_InodeUUID node) inode content"
  shows "LoadFile X memory_services fn w = (Ok content, w)"
proof -
  have inode: "inode_at X (store_of w) (mb_FileKey node) (mb_InodeUUID node) inode"
    using assms(5) by (simp add: file_at_def)
  obtain bs where bs: "blocks_at X (store_of w) (file_keys X (mb_FileKey node)) (in_BlockUUIDs inode) bs"
    "concat bs = content"
    using assms(5) by (auto simp: file_at_def)
  then have "load_blocks X memory_services fn (fst (file_keys X (mb_FileKey node)))
      (snd (file_keys X (mb_FileKey node))) (in_BlockUUIDs inode) [] w = (Ok content, w)"
    using load_blocks_memory [OF assms(1), of w] by simp
  then show ?thesis
    using assms(1-4) inode
    by (simp add: LoadFile_def monad_simps hashed_access_uuid chain_simps case_prod_beta)
qed

section \<open>The state StoreFile leaves\<close>

lemma put_all_append: "put_all (xs @ ys) w = put_all ys (put_all xs w)"
  by (induction xs arbitrary: w) auto

lemma put_session [monad_simps]: "put k v (w\<lparr>self := u\<rparr>) = (put k v w)\<lparr>self := u\<rparr>"
  by (simp add: put_def)

lemma put_all_session [monad_simps]: "put_all kvs (w\<lparr>self := u\<rparr>) = (put_all kvs w)\<lparr>self := u\<rparr>"
  by (induction kvs arbitrary: w) (auto simp: put_session)

lemma gm_set_subset: "set (gm_set k v m) \<subseteq> insert (k, v) (set m)"
  by (induction k v m rule: gm_set.induct) auto

definition files_of :: "User \<Rightarrow> (string, UUID) gomap" where
  "files_of u = (case u_Files u of None \<Rightarrow> [] | Some m \<Rightarrow> m)"

definition with_file :: "ext \<Rightarrow> User \<Rightarrow> string \<Rightarrow> User" where
  "with_file X u filename =
     u\<lparr>u_Files := Some (gm_set filename (access_uuid X (u_Username u) filename) (files_of u))\<rparr>"

lemma with_file_sel [simp]:
  "u_Username (with_file X u fn) = u_Username u" "u_MasterKey (with_file X u fn) = u_MasterKey u"
  "u_PKEPrivateKey (with_file X u fn) = u_PKEPrivateKey u" "u_DSSignKey (with_file X u fn) = u_DSSignKey u"
  by (simp_all add: with_file_def)

definition new_node :: "ext \<Rightarrow> nat \<Rightarrow> MailboxNode" where
  "new_node X d = \<lparr>mb_FileKey = rand_at X d 16, mb_InodeUUID = uuid_at X (d + 1)\<rparr>"

definition new_access :: "ext \<Rightarrow> nat \<Rightarrow> Access" where
  "new_access X d = \<lparr>ac_MymailboxUUID = uuid_at X (d + 2), ac_MymailboxKey = rand_at X (d + 3) 16, ac_Children = Some []\<rparr>"

definition new_inode :: "ext \<Rightarrow> nat \<Rightarrow> bytes \<Rightarrow> Inode" where
  "new_inode X d content = \<lparr>in_Size = int (length content),
     in_BlockUUIDs = map (\<lambda>i. uuid_at X (d + 6 + 2 * i)) [0..<block_num (length content)]\<rparr>"

definition sealed_json :: "ext \<Rightarrow> nat \<Rightarrow> json \<Rightarrow> bytes \<times> bytes \<Rightarrow> bytes" where
  "sealed_json X i j ks = seal X (rand_at X i 16) (bytes_of_string (json_print j)) ks"

text \<open>Everything one \<open>StoreFile\<close> writes, in order, from draw \<open>d\<close> on.\<close>

definition store_puts :: "ext \<Rightarrow> User \<Rightarrow> nat \<Rightarrow> string \<Rightarrow> bytes \<Rightarrow> (UUID \<times> bytes) list" where
  "store_puts X u d filename content =
     (let n = block_num (length content); fks = file_keys X (rand_at X d 16) in
      [(uuid_at X (d + 2), sealed_json X (d + 4) (enc_mailbox X (new_node X d)) (getMailKeys X (rand_at X (d + 3) 16))),
       (access_uuid X (u_Username u) filename,
          sealed_json X (d + 5) (enc_access X (new_access X d)) (personal_keys X (u_MasterKey u) filename))]
      @ block_puts X fks (d + 6) (ByteToBlock content)
      @ [(uuid_at X (d + 1), sealed_json X (d + 6 + 2 * n) (enc_inode X (new_inode X d content)) fks),
         (user_uuid X (u_Username u),
          sealed_json X (d + 7 + 2 * n) (enc_user X (with_file X u filename)) (user_keys X (u_MasterKey u)))])"

lemma saveUser_session:
  assumes "crypto_ok X" "uuid_ok X" "length (u_MasterKey u) = 16"
  shows "saveUser X (Some (svc_storage memory_services)) ds u w =
    (Ok (), (put (user_uuid X (u_Username u))
       (sealed_json X (draws w) (enc_user X u) (user_keys X (u_MasterKey u))) w)\<lparr>draws := Suc (draws w)\<rparr>)"
  using assms by (simp add: saveUser_memory sealed_json_def)

lemma StoreFile_memory:
  assumes "crypto_ok X" "uuid_ok X" "length (u_MasterKey (self w)) = 16"
  shows "StoreFile X memory_services filename content w =
    (Ok (), (put_all (store_puts X (self w) (draws w) filename content) w)
       \<lparr>draws := draws w + 8 + 2 * block_num (length content), self := with_file X (self w) filename\<rparr>)"
proof -
  define u where "u = (self w)\<lparr>u_Files := Some (files_of (self w))\<rparr>"
  have init: "make_files w = (Ok (), w\<lparr>self := u\<rparr>)"
    by (cases "u_Files (self w)") (auto simp: u_def files_of_def make_files_def modify_def)
  have u: "u_Username u = u_Username (self w)" "u_MasterKey u = u_MasterKey (self w)"
    "u_Files u = Some (files_of (self w))"
    "u\<lparr>u_Files := Some (gm_set filename (access_uuid X (u_Username (self w)) filename) (files_of (self w)))\<rparr>
      = with_file X (self w) filename"
    by (simp_all add: u_def with_file_def)
  show ?thesis
    using assms init unfolding StoreFile_def
    by (simp add: monad_simps randomBytes_ok uuid_New_ok marshal_def Let_def encryptAndMAC_ok
      getPersonalKey_eq getFileKeys_eq length_rand_at hashed_access_uuid store_blocks_memory case_prod_beta
      set_file_def save_self_def saveUser_session u store_puts_def put_all_append sealed_json_def
      new_node_def new_access_def new_inode_def fst_block_puts length_ByteToBlock)
      (simp add: eval_nat_numeral)
qed


section \<open>Views: what one user sees of one file\<close>

definition view_ids :: "ext \<Rightarrow> User \<Rightarrow> string \<Rightarrow> Access \<Rightarrow> MailboxNode \<Rightarrow> Inode \<Rightarrow> UUID list" where
  "view_ids X u fn a node inode =
     [access_uuid X (u_Username u) fn, ac_MymailboxUUID a, mb_InodeUUID node] @ in_BlockUUIDs inode"

definition view :: "ext \<Rightarrow> (UUID \<rightharpoonup> bytes) \<Rightarrow> User \<Rightarrow> string \<Rightarrow> Access \<Rightarrow> MailboxNode \<Rightarrow> Inode \<Rightarrow> bytes \<Rightarrow> bool" where
  "view X \<sigma> u fn a node inode content \<longleftrightarrow>
     access_at X \<sigma> u fn a
   \<and> mailbox_at X \<sigma> (ac_MymailboxUUID a) (ac_MymailboxKey a) node
   \<and> file_at X \<sigma> (mb_FileKey node) (mb_InodeUUID node) inode content"

lemma LoadFile_view:
  "crypto_ok X \<Longrightarrow> uuid_ok X \<Longrightarrow> view X (store_of w) (self w) fn a node inode content \<Longrightarrow>
   LoadFile X memory_services fn w = (Ok content, w)"
  unfolding view_def by (blast intro: LoadFile_memory)

lemma access_at_cong:
  "\<sigma>' (access_uuid X (u_Username u) fn) = \<sigma> (access_uuid X (u_Username u) fn) \<Longrightarrow>
   u_Username u' = u_Username u \<Longrightarrow> u_MasterKey u' = u_MasterKey u \<Longrightarrow>
   access_at X \<sigma> u fn a \<Longrightarrow> access_at X \<sigma>' u' fn a"
  by (simp add: access_at_def sealed_at_def)

lemma mailbox_at_cong: "\<sigma>' mu = \<sigma> mu \<Longrightarrow> mailbox_at X \<sigma> mu mk node \<Longrightarrow> mailbox_at X \<sigma>' mu mk node"
  by (simp add: mailbox_at_def sealed_at_def)

lemma inode_at_cong: "\<sigma>' iu = \<sigma> iu \<Longrightarrow> inode_at X \<sigma> fk iu inode \<Longrightarrow> inode_at X \<sigma>' fk iu inode"
  by (simp add: inode_at_def sealed_at_def)

lemma file_at_cong:
  assumes "file_at X \<sigma> fk iu inode content" "\<And>k. k \<in> insert iu (set (in_BlockUUIDs inode)) \<Longrightarrow> \<sigma>' k = \<sigma> k"
  shows "file_at X \<sigma>' fk iu inode content"
  using assms inode_at_cong [of \<sigma>' iu \<sigma> X fk inode]
    blocks_at_cong [of X \<sigma> "file_keys X fk" "in_BlockUUIDs inode" _ \<sigma>']
  unfolding file_at_def by auto

lemma view_cong:
  assumes "view X \<sigma> u fn a node inode content"
    "\<And>k. k \<in> set (view_ids X u fn a node inode) \<Longrightarrow> \<sigma>' k = \<sigma> k"
    "u_Username u' = u_Username u" "u_MasterKey u' = u_MasterKey u"
  shows "view X \<sigma>' u' fn a node inode content"
  using assms(1,3,4) assms(2) access_at_cong [of \<sigma>' X u fn \<sigma> u' a]
    mailbox_at_cong [of \<sigma>' "ac_MymailboxUUID a" \<sigma> X "ac_MymailboxKey a" node]
    file_at_cong [of X \<sigma> "mb_FileKey node" "mb_InodeUUID node" inode content \<sigma>']
  unfolding view_def view_ids_def by simp

lemma view_ids_dom:
  "view X \<sigma> u fn a node inode content \<Longrightarrow> set (view_ids X u fn a node inode) \<subseteq> dom \<sigma>"
  unfolding view_def view_ids_def access_at_def mailbox_at_def file_at_def inode_at_def
  by (auto dest: sealed_at_dom blocks_at_dom)

section \<open>Fresh identifiers\<close>

text \<open>
  The UUIDs drawn in the next \<open>n\<close> draws differ from each other and from those of \<open>A\<close>. (All
  UUIDs ever drawn cannot differ: there are finitely many.)
\<close>

definition fresh_uuids :: "ext \<Rightarrow> nat \<Rightarrow> nat \<Rightarrow> UUID set \<Rightarrow> bool" where
  "fresh_uuids X d n A \<longleftrightarrow> (\<forall>i < n. uuid_at X (d + i) \<notin> A
     \<and> (\<forall>j < n. uuid_at X (d + i) = uuid_at X (d + j) \<longrightarrow> i = j))"

lemma fresh_notin: "fresh_uuids X d n A \<Longrightarrow> d \<le> i \<Longrightarrow> i < d + n \<Longrightarrow> uuid_at X i \<notin> A"
  unfolding fresh_uuids_def by (metis le_iff_add nat_add_left_cancel_less)

lemma fresh_eq:
  assumes "fresh_uuids X d n A" "d \<le> i" "i < d + n" "d \<le> j" "j < d + n"
  shows "uuid_at X i = uuid_at X j \<longleftrightarrow> i = j"
proof -
  obtain a b where "i = d + a" "j = d + b" "a < n" "b < n"
    using assms(2-5) by (metis le_iff_add nat_add_left_cancel_less)
  with assms(1) show ?thesis unfolding fresh_uuids_def by auto
qed

lemma fresh_uuids_sub:
  assumes "fresh_uuids X d n A" "d \<le> d'" "d' + n' \<le> d + n" "B \<subseteq> A"
  shows "fresh_uuids X d' n' B"
  unfolding fresh_uuids_def
proof (intro allI impI conjI)
  fix i j assume "i < n'" "j < n'" "uuid_at X (d' + i) = uuid_at X (d' + j)"
  with assms(2,3) fresh_eq [OF assms(1), of "d' + i" "d' + j"] show "i = j" by simp
next
  fix i assume "i < n'"
  with assms(2-4) fresh_notin [OF assms(1), of "d' + i"] show "uuid_at X (d' + i) \<notin> B" by auto
qed

lemma set_block_puts:
  "fst ` set (block_puts X ks d fbs) = (\<lambda>i. uuid_at X (d + 2 * i)) ` {0..<length fbs}"
  unfolding set_map [symmetric] fst_block_puts by simp

lemma block_puts_fresh:
  assumes "fresh_uuids X d n A" "2 * length fbs \<le> n"
  shows "distinct (map fst (block_puts X ks d fbs))" "fst ` set (block_puts X ks d fbs) \<inter> A = {}"
proof -
  show "distinct (map fst (block_puts X ks d fbs))"
    unfolding fst_block_puts distinct_map inj_on_def
    using assms(2) by (auto simp: fresh_eq [OF assms(1)])
  show "fst ` set (block_puts X ks d fbs) \<inter> A = {}"
    unfolding set_block_puts using assms(2) fresh_notin [OF assms(1)] by auto
qed


lemma fst_store_puts:
  "map fst (store_puts X u d fn content) = [uuid_at X (d + 2), access_uuid X (u_Username u) fn]
     @ map (\<lambda>i. uuid_at X (d + 6 + 2 * i)) [0..<block_num (length content)]
     @ [uuid_at X (d + 1), user_uuid X (u_Username u)]"
  by (simp add: store_puts_def Let_def fst_block_puts length_ByteToBlock)

definition store_draws :: "bytes \<Rightarrow> nat" where
  "store_draws content = 8 + 2 * block_num (length content)"

lemma store_uuids_fresh:
  assumes "fresh_uuids X d (store_draws content) A"
  shows "uuid_at X (d + 1) \<notin> A" "uuid_at X (d + 2) \<notin> A"
    "i < block_num (length content) \<Longrightarrow> uuid_at X (d + 6 + 2 * i) \<notin> A"
  by (rule fresh_notin [OF assms]; simp add: store_draws_def)+

lemma distinct_store_puts:
  assumes "fresh_uuids X d (store_draws content) A" "{access_uuid X (u_Username u) fn, user_uuid X (u_Username u)} \<subseteq> A"
    "access_uuid X (u_Username u) fn \<noteq> user_uuid X (u_Username u)"
  shows "distinct (map fst (store_puts X u d fn content))"
proof -
  obtain bs where bs: "bs = map (\<lambda>i. uuid_at X (d + 6 + 2 * i)) [0..<block_num (length content)]"
    by blast
  have "distinct bs"
    by (auto simp: bs distinct_map inj_on_def fresh_eq [OF assms(1)] store_draws_def)
  moreover have "uuid_at X (d + 2) \<noteq> uuid_at X (d + 1)" "uuid_at X (d + 1) \<notin> set bs" "uuid_at X (d + 2) \<notin> set bs"
    by (auto simp: bs fresh_eq [OF assms(1)] store_draws_def)
  moreover have "set bs \<inter> A = {}" using store_uuids_fresh(3) [OF assms(1)] by (auto simp: bs)
  ultimately show ?thesis
    unfolding fst_store_puts bs [symmetric] using assms(2,3) store_uuids_fresh(1,2) [OF assms(1)] by auto
qed

lemma store_puts_outside:
  assumes "fresh_uuids X d (store_draws content) A" "k \<in> A"
    "k \<noteq> access_uuid X (u_Username u) fn" "k \<noteq> user_uuid X (u_Username u)"
  shows "k \<notin> fst ` set (store_puts X u d fn content)"
proof -
  have "k \<notin> set (map fst (store_puts X u d fn content))"
    unfolding fst_store_puts using assms(2-4) store_uuids_fresh [OF assms(1)] by auto
  then show ?thesis by simp
qed

lemma view_store_puts:
  assumes "crypto_ok X" "uuid_ok X" "length (u_MasterKey u) = 16" "length content < 2 ^ 63"
    "distinct (map fst (store_puts X u d fn content))"
    "\<And>k v. (k, v) \<in> set (store_puts X u d fn content) \<Longrightarrow> \<sigma> k = Some v"
  shows "view X \<sigma> u fn (new_access X d) (new_node X d) (new_inode X d content) content"
proof -
  let ?fks = "file_keys X (rand_at X d 16)"
  note iv = length_rand_at [OF assms(1)]
  note put = assms(6) [unfolded store_puts_def Let_def sealed_json_def]
  have "access_at X \<sigma> u fn (new_access X d)"
    unfolding access_at_def
    by (intro conjI sealed_atI [OF iv [of "d + 5"]] put)
      (simp_all add: assms(3) access_wf_def map_wf_def new_access_def length_uuid_at [OF assms(2)])
  moreover have "mailbox_at X \<sigma> (uuid_at X (d + 2)) (rand_at X (d + 3) 16) (new_node X d)"
    unfolding mailbox_at_def
    by (intro conjI sealed_atI [OF iv [of "d + 4"]] put)
      (simp_all add: new_node_def mailbox_wf_def iv length_uuid_at [OF assms(2)])
  moreover have "inode_at X \<sigma> (rand_at X d 16) (uuid_at X (d + 1)) (new_inode X d content)"
    unfolding inode_at_def
    by (intro conjI sealed_atI [OF iv [of "d + 6 + 2 * block_num (length content)"]] put)
      (use assms(4) in \<open>auto simp: new_inode_def inode_wf_def int64_def iv length_uuid_at [OF assms(2)]\<close>)
  moreover have "blocks_at X \<sigma> ?fks (map fst (block_puts X ?fks (d + 6) (ByteToBlock content)))
      (map fb_block (ByteToBlock content))"
    by (rule blocks_at_puts [OF assms(1)]) (simp add: put)
  then have "\<exists>bs. blocks_at X \<sigma> ?fks (in_BlockUUIDs (new_inode X d content)) bs \<and> concat bs = content"
    by (intro exI [of _ "map fb_block (ByteToBlock content)"])
      (simp add: fst_block_puts new_inode_def length_ByteToBlock)
  ultimately show ?thesis
    by (simp add: view_def file_at_def new_access_def new_node_def)
qed


section \<open>StoreFile on a view\<close>

definition after_store :: "ext \<Rightarrow> string \<Rightarrow> bytes \<Rightarrow> memory session \<Rightarrow> memory session" where
  "after_store X fn content w = (put_all (store_puts X (self w) (draws w) fn content) w)
     \<lparr>draws := draws w + store_draws content, self := with_file X (self w) fn\<rparr>"

definition can_store :: "ext \<Rightarrow> string \<Rightarrow> bytes \<Rightarrow> memory session \<Rightarrow> bool" where
  "can_store X fn content w \<longleftrightarrow>
     length (u_MasterKey (self w)) = 16 \<and> length content < 2 ^ 63
   \<and> access_uuid X (u_Username (self w)) fn \<noteq> user_uuid X (u_Username (self w))
   \<and> fresh_uuids X (draws w) (store_draws content) (dom (store_of w)
       \<union> {access_uuid X (u_Username (self w)) fn, user_uuid X (u_Username (self w))})"

lemma StoreFile_after:
  "crypto_ok X \<Longrightarrow> uuid_ok X \<Longrightarrow> length (u_MasterKey (self w)) = 16 \<Longrightarrow>
   StoreFile X memory_services fn content w = (Ok (), after_store X fn content w)"
  by (simp add: StoreFile_memory after_store_def store_draws_def add.assoc)

lemma after_store_sel [simp]:
  "self (after_store X fn content w) = with_file X (self w) fn"
  "draws (after_store X fn content w) = draws w + store_draws content"
  "keys_of (after_store X fn content w) = keys_of w"
  "store_of (after_store X fn content w) = store_of (put_all (store_puts X (self w) (draws w) fn content) w)"
  by (simp_all add: after_store_def)

lemma after_store_distinct:
  "can_store X fn content w \<Longrightarrow> distinct (map fst (store_puts X (self w) (draws w) fn content))"
  unfolding can_store_def by (rule distinct_store_puts) auto

lemma after_store_view:
  assumes "crypto_ok X" "uuid_ok X" "can_store X fn content w"
  shows "view X (store_of (after_store X fn content w)) (self (after_store X fn content w)) fn
    (new_access X (draws w)) (new_node X (draws w)) (new_inode X (draws w) content) content"
proof -
  have "view X (store_of (after_store X fn content w)) (self w) fn
    (new_access X (draws w)) (new_node X (draws w)) (new_inode X (draws w) content) content"
    using assms after_store_distinct [OF assms(3)]
    by (intro view_store_puts) (auto simp: can_store_def store_of_put_all_in)
  then show ?thesis by (rule view_cong) simp_all
qed

lemma after_store_outside:
  assumes "can_store X fn content w" "k \<in> dom (store_of w)"
    "k \<noteq> access_uuid X (u_Username (self w)) fn" "k \<noteq> user_uuid X (u_Username (self w))"
  shows "store_of (after_store X fn content w) k = store_of w k"
  using assms unfolding after_store_sel can_store_def
  by (intro store_of_put_all_out store_puts_outside [where A = "dom (store_of w)
      \<union> {access_uuid X (u_Username (self w)) fn, user_uuid X (u_Username (self w))}"]) auto

lemma after_store_user:
  assumes "crypto_ok X" "user_wf (self w)" "utf8_valid fn" "can_store X fn content w"
  shows "user_at X (store_of (after_store X fn content w)) (self (after_store X fn content w))"
proof -
  have "user_wf (with_file X (self w) fn)"
    using assms(1-3) gm_set_subset [of fn "access_uuid X (u_Username (self w)) fn" "files_of (self w)"]
    by (fastforce simp: user_wf_def map_wf_def with_file_def files_of_def split: option.splits)
  moreover have "length (u_MasterKey (self w)) = 16"
    using assms(4) by (simp add: can_store_def)
  moreover have "sealed_at X (store_of (after_store X fn content w)) (user_uuid X (u_Username (self w)))
      (enc_user X (with_file X (self w) fn)) (user_keys X (u_MasterKey (self w)))"
    by (rule sealed_atI [OF length_rand_at [OF assms(1), of "draws w + 7 + 2 * block_num (length content)"]])
      (unfold after_store_sel, rule store_of_put_all_in [OF _ after_store_distinct [OF assms(4)]],
        simp add: store_puts_def Let_def sealed_json_def)
  ultimately show ?thesis by (simp add: user_at_def)
qed

section \<open>AppendToFile on a view\<close>

definition append_inode :: "ext \<Rightarrow> nat \<Rightarrow> Inode \<Rightarrow> bytes \<Rightarrow> Inode" where
  "append_inode X d inode extra =
     \<lparr>in_Size = wrap64 (in_Size inode + int (length extra)),
      in_BlockUUIDs = in_BlockUUIDs inode
        @ map (\<lambda>i. uuid_at X (d + 2 * i)) [0..<block_num (length extra)]\<rparr>"

definition append_puts :: "ext \<Rightarrow> nat \<Rightarrow> MailboxNode \<Rightarrow> Inode \<Rightarrow> bytes \<Rightarrow> (UUID \<times> bytes) list" where
  "append_puts X d node inode extra =
     (let fks = file_keys X (mb_FileKey node) in
      block_puts X fks d (ByteToBlock extra)
      @ [(mb_InodeUUID node, sealed_json X (d + 2 * block_num (length extra))
            (enc_inode X (append_inode X d inode extra)) fks)])"

definition append_draws :: "bytes \<Rightarrow> nat" where
  "append_draws extra = 1 + 2 * block_num (length extra)"

definition after_append :: "ext \<Rightarrow> MailboxNode \<Rightarrow> Inode \<Rightarrow> bytes \<Rightarrow> memory session \<Rightarrow> memory session" where
  "after_append X node inode extra w =
     (put_all (append_puts X (draws w) node inode extra) w)\<lparr>draws := draws w + append_draws extra\<rparr>"

lemma AppendToFile_view:
  assumes "crypto_ok X" "uuid_ok X" "view X (store_of w) (self w) fn a node inode content"
  shows "AppendToFile X memory_services fn (Some extra) w = (Ok (), after_append X node inode extra w)"
proof -
  have "access_at X (store_of w) (self w) fn a"
    "mailbox_at X (store_of w) (ac_MymailboxUUID a) (ac_MymailboxKey a) node"
    "inode_at X (store_of w) (mb_FileKey node) (mb_InodeUUID node) inode"
    using assms(3) by (simp_all add: view_def file_at_def)
  with assms(1,2) show ?thesis
    by (simp add: AppendToFile_def monad_simps hashed_access_uuid chain_simps case_prod_beta view_def
        store_blocks_memory fst_block_puts length_ByteToBlock Let_def marshal_def encryptAndMAC_ok
        after_append_def append_puts_def append_inode_def append_draws_def put_all_append sealed_json_def)
qed


lemma after_append_sel [simp]:
  "self (after_append X node inode extra w) = self w"
  "draws (after_append X node inode extra w) = draws w + append_draws extra"
  "keys_of (after_append X node inode extra w) = keys_of w"
  "store_of (after_append X node inode extra w) = store_of (put_all (append_puts X (draws w) node inode extra) w)"
  by (simp_all add: after_append_def)

lemma fst_append_puts:
  "map fst (append_puts X d node inode extra) =
     map (\<lambda>i. uuid_at X (d + 2 * i)) [0..<block_num (length extra)] @ [mb_InodeUUID node]"
  by (simp add: append_puts_def Let_def fst_block_puts length_ByteToBlock)

lemma append_puts_fresh:
  assumes "fresh_uuids X d (append_draws extra) A" "mb_InodeUUID node \<in> A"
  shows "distinct (map fst (append_puts X d node inode extra))"
    "k \<in> A \<Longrightarrow> k \<noteq> mb_InodeUUID node \<Longrightarrow> k \<notin> fst ` set (append_puts X d node inode extra)"
proof -
  have blocks: "2 * length (ByteToBlock extra) \<le> append_draws extra"
    by (simp add: append_draws_def length_ByteToBlock)
  note fresh = block_puts_fresh [OF assms(1) blocks, where ks = "file_keys X (mb_FileKey node)"]
  show "distinct (map fst (append_puts X d node inode extra))"
    using fresh assms(2) unfolding append_puts_def Let_def by auto
  show "k \<in> A \<Longrightarrow> k \<noteq> mb_InodeUUID node \<Longrightarrow> k \<notin> fst ` set (append_puts X d node inode extra)"
    using fresh(2) unfolding append_puts_def Let_def by auto
qed

lemma wrap64_int64 [simp]: "int64 (wrap64 i)"
proof -
  have "0 \<le> (i + 2 ^ 63) mod 2 ^ 64" "(i + 2 ^ 63) mod 2 ^ 64 < 2 ^ 64" by simp_all
  then show ?thesis by (simp add: int64_def wrap64_def)
qed

lemma after_append_outside:
  assumes "view X (store_of w) u fn a node inode content"
    "fresh_uuids X (draws w) (append_draws extra) (dom (store_of w))"
    "k \<in> dom (store_of w)" "k \<noteq> mb_InodeUUID node"
  shows "store_of (after_append X node inode extra w) k = store_of w k"
proof -
  have "mb_InodeUUID node \<in> dom (store_of w)"
    using view_ids_dom [OF assms(1)] by (simp add: view_ids_def)
  from append_puts_fresh(2) [OF assms(2) this assms(3,4)] show ?thesis
    unfolding after_append_sel by (rule store_of_put_all_out)
qed

lemma after_append_put:
  assumes "view X (store_of w) u fn a node inode content"
    "fresh_uuids X (draws w) (append_draws extra) (dom (store_of w))"
    "(k, v) \<in> set (append_puts X (draws w) node inode extra)"
  shows "store_of (after_append X node inode extra w) k = Some v"
proof -
  have "mb_InodeUUID node \<in> dom (store_of w)"
    using view_ids_dom [OF assms(1)] by (simp add: view_ids_def)
  from append_puts_fresh(1) [OF assms(2) this] show ?thesis
    unfolding after_append_sel by (rule store_of_put_all_in [OF assms(3)])
qed

lemma after_append_inode:
  assumes "crypto_ok X" "uuid_ok X" "view X (store_of w) u fn a node inode content"
    "fresh_uuids X (draws w) (append_draws extra) (dom (store_of w))"
  shows "inode_at X (store_of (after_append X node inode extra w)) (mb_FileKey node) (mb_InodeUUID node)
    (append_inode X (draws w) inode extra)"
  unfolding inode_at_def
proof (intro conjI sealed_atI [OF length_rand_at [OF assms(1), of "draws w + 2 * block_num (length extra)"]]
    after_append_put [OF assms(3,4)])
  have "inode_at X (store_of w) (mb_FileKey node) (mb_InodeUUID node) inode"
    using assms(3) by (auto simp: view_def file_at_def)
  then show "inode_wf (append_inode X (draws w) inode extra)" "length (mb_FileKey node) = 16"
    by (auto simp: inode_at_def inode_wf_def append_inode_def length_uuid_at [OF assms(2)])
qed (simp add: append_puts_def Let_def sealed_json_def)

lemma after_append_view:
  assumes "crypto_ok X" "uuid_ok X" "view X (store_of w) u fn a node inode content"
    "distinct (view_ids X u fn a node inode)"
    "fresh_uuids X (draws w) (append_draws extra) (dom (store_of w))"
  shows "view X (store_of (after_append X node inode extra w)) u fn a node
    (append_inode X (draws w) inode extra) (content @ extra)"
proof -
  let ?\<sigma>' = "store_of (after_append X node inode extra w)"
  let ?fks = "file_keys X (mb_FileKey node)" and ?new = "append_inode X (draws w) inode extra"
  have same: "?\<sigma>' k = store_of w k" if "k \<in> set (view_ids X u fn a node inode)" "k \<noteq> mb_InodeUUID node" for k
    using that view_ids_dom [OF assms(3)] by (intro after_append_outside [OF assms(3,5)]) auto
  then have same: "?\<sigma>' (access_uuid X (u_Username u) fn) = store_of w (access_uuid X (u_Username u) fn)"
    "?\<sigma>' (ac_MymailboxUUID a) = store_of w (ac_MymailboxUUID a)"
    "\<And>k. k \<in> set (in_BlockUUIDs inode) \<Longrightarrow> ?\<sigma>' k = store_of w k"
    using assms(4) by (auto simp: view_ids_def)
  obtain bs where bs: "blocks_at X (store_of w) ?fks (in_BlockUUIDs inode) bs" "concat bs = content"
    using assms(3) by (auto simp: view_def file_at_def)
  have "blocks_at X ?\<sigma>' ?fks (in_BlockUUIDs inode) bs"
    by (rule blocks_at_cong [OF bs(1) same(3)])
  moreover have "blocks_at X ?\<sigma>' ?fks (map fst (block_puts X ?fks (draws w) (ByteToBlock extra)))
      (map fb_block (ByteToBlock extra))"
    by (rule blocks_at_puts [OF assms(1)], rule after_append_put [OF assms(3,5)])
      (simp add: append_puts_def Let_def)
  ultimately have "blocks_at X ?\<sigma>' ?fks (in_BlockUUIDs ?new) (bs @ map fb_block (ByteToBlock extra))"
    by (simp add: append_inode_def fst_block_puts length_ByteToBlock list_all2_appendI)
  then have "file_at X ?\<sigma>' (mb_FileKey node) (mb_InodeUUID node) ?new (content @ extra)"
    unfolding file_at_def using bs(2) after_append_inode [OF assms(1-3,5)] by force
  moreover have "access_at X ?\<sigma>' u fn a" "mailbox_at X ?\<sigma>' (ac_MymailboxUUID a) (ac_MymailboxKey a) node"
    using same(1,2) assms(3) by (auto simp: view_def access_at_def mailbox_at_def sealed_at_def)
  ultimately show ?thesis by (simp add: view_def)
qed

end
