(* ===== verification/Sample_External.thy ===== *)
theory Sample_External
  imports Go_External
begin

unbundle bit_operations_syntax

text \<open>
  A concrete instance of the external code, small enough to compute with: it satisfies
  \<open>crypto_ok\<close>, \<open>rsa_ok\<close>, \<open>uuid_ok\<close> and \<open>order_ok\<close>, so the hypotheses of the theorems can
  hold, and the witnesses of the properties run on it. It is not cryptography.
\<close>

definition pad :: "nat \<Rightarrow> bytes \<Rightarrow> bytes" where
  "pad n b = take n (b @ replicate n 0)"

definition mix :: "bytes \<Rightarrow> bytes \<Rightarrow> bytes" where
  "mix a b = map2 (\<lambda>x y. x XOR y) (pad 16 a) (pad 16 b)"

definition hex_digit :: "nat \<Rightarrow> char" where
  "hex_digit n = char_of (if n < 10 then n + 48 else n + 87 :: nat)"

definition hex_value :: "char \<Rightarrow> nat" where
  "hex_value c = (let n = of_char c in if n < 58 then n - 48 else n - 87)"

definition hex_byte :: "byte \<Rightarrow> string" where
  "hex_byte b = [hex_digit (unat b div 16), hex_digit (unat b mod 16)]"

fun unhex :: "string \<Rightarrow> bytes" where
  "unhex (a # b # r) = word_of_nat (hex_value a * 16 + hex_value b) # unhex r"
| "unhex _ = []"

definition sample_uuid_string :: "UUID \<Rightarrow> string" where
  "sample_uuid_string u =
     concat (map hex_byte (take 4 u)) @ ''-'' @ concat (map hex_byte (take 2 (drop 4 u))) @ ''-''
     @ concat (map hex_byte (take 2 (drop 6 u))) @ ''-'' @ concat (map hex_byte (take 2 (drop 8 u)))
     @ ''-'' @ concat (map hex_byte (drop 10 u))"

definition sample_uuid_parse :: "string \<Rightarrow> UUID option" where
  "sample_uuid_parse s =
     (let u = unhex (filter (\<lambda>c. c \<noteq> CHR ''-'') s) in if length u = 16 then Some u else None)"

definition sample_rsa :: "nat \<Rightarrow> rsa_private" where
  "sample_rsa i = \<lparr>rsa_PublicKey = \<lparr>rsa_N = int i, rsa_E = 65537\<rparr>, rsa_D = int i, rsa_Primes = [2, 3],
     rsa_Dp = 1, rsa_Dq = 1, rsa_Qinv = 1, rsa_CRTValues = []\<rparr>"

definition key_mark :: "rsa_public \<Rightarrow> byte" where
  "key_mark pk = word_of_int (rsa_N pk)"

definition sample :: ext where
  "sample = \<lparr>
     x_sha512 = pad 64,
     x_hmac_sha512 = (\<lambda>k m. pad 64 (mix k m)),
     x_aes_block = mix,
     x_argon2id = (\<lambda>p s t m th n. pad n (mix p s)),
     x_rsa_generate = (\<lambda>i n. Some (sample_rsa i)),
     x_oaep_encrypt = (\<lambda>i pk m. if length m \<le> 126
        then Some (word_of_nat (length m) # pad 254 m @ [key_mark pk]) else None),
     x_oaep_decrypt = (\<lambda>sk c. if length c = 256 \<and> c ! 255 = key_mark (rsa_PublicKey sk)
        then Some (take (unat (c ! 0)) (tl c)) else None),
     x_pkcs1_sign = (\<lambda>sk h. Some (pad 255 h @ [key_mark (rsa_PublicKey sk)])),
     x_pkcs1_verify = (\<lambda>pk h s. s = pad 255 h @ [key_mark pk]),
     x_rand_read = (\<lambda>i n. Some (replicate n (word_of_nat (i + 1)))),
     x_uuid_new = (\<lambda>i. Some (replicate 8 0xAA @ pad 8 [word_of_nat i, word_of_nat (i div 256)])),
     x_uuid_from_bytes = (\<lambda>b. if length b = 16 then Some b else None),
     x_uuid_string = sample_uuid_string,
     x_uuid_parse = sample_uuid_parse,
     x_range_order = (\<lambda>i ks. ks)\<rparr>"

lemma length_pad [simp]: "length (pad n b) = n"
  by (simp add: pad_def)

lemma length_mix [simp]: "length (mix a b) = 16"
  by (simp add: mix_def)

lemma sample_crypto_ok [simp]: "crypto_ok sample"
  by (simp add: crypto_ok_def sample_def)

lemma sample_order_ok [simp]: "order_ok sample"
  by (simp add: order_ok_def sample_def)

lemma hex_value_digit: "n < 16 \<Longrightarrow> hex_value (hex_digit n) = n"
  by (auto simp: hex_value_def hex_digit_def Let_def)

lemma byte_nibbles: "unat (b :: byte) div 16 < 16" "unat b mod 16 < 16"
proof -
  have "unat b < 256" using unsigned_less [of b] by simp
  then show "unat b div 16 < 16" by simp
qed simp

lemma unhex_hex: "unhex (concat (map hex_byte bs) @ r) = bs @ unhex r"
  by (induction bs) (simp_all add: hex_byte_def hex_value_digit byte_nibbles)

lemma hex_digit_range:
  "n < 16 \<Longrightarrow> (of_char (hex_digit n) :: nat) \<in> {48..57} \<or> (of_char (hex_digit n) :: nat) \<in> {97..102}"
  by (auto simp: hex_digit_def)

lemma hex_digit_dash: "n < 16 \<Longrightarrow> hex_digit n \<noteq> CHR ''-''"
  using hex_digit_range [of n] by auto

lemma filter_hex: "filter (\<lambda>c. c \<noteq> CHR ''-'') (concat (map hex_byte bs)) = concat (map hex_byte bs)"
  by (induction bs) (simp_all add: hex_byte_def hex_digit_dash byte_nibbles)

lemma sample_uuid_roundtrip:
  assumes "length u = 16"
  shows "sample_uuid_parse (sample_uuid_string u) = Some u"
proof -
  have "filter (\<lambda>c. c \<noteq> CHR ''-'') (sample_uuid_string u)
      = concat (map hex_byte (take 4 u @ take 2 (drop 4 u) @ take 2 (drop 6 u) @ take 2 (drop 8 u) @ drop 10 u))"
    by (simp add: sample_uuid_string_def filter_hex)
  also have "take 4 u @ take 2 (drop 4 u) @ take 2 (drop 6 u) @ take 2 (drop 8 u) @ drop 10 u = u"
  proof -
    have "drop 4 u = take 2 (drop 4 u) @ drop 6 u" "drop 6 u = take 2 (drop 6 u) @ drop 8 u"
      "drop 8 u = take 2 (drop 8 u) @ drop 10 u"
      using append_take_drop_id [of 2 "drop 4 u"] append_take_drop_id [of 2 "drop 6 u"]
        append_take_drop_id [of 2 "drop 8 u"] by simp_all
    then show ?thesis by (metis append_take_drop_id)
  qed
  finally show ?thesis
    using unhex_hex [of u "[]"] assms by (simp add: sample_uuid_parse_def)
qed

lemma length_hex [simp]: "length (concat (map hex_byte bs)) = 2 * length bs"
  by (induction bs) (simp_all add: hex_byte_def)

lemma set_hex:
  "c \<in> set (concat (map hex_byte bs)) \<Longrightarrow> (of_char c :: nat) \<in> {48..57} \<or> (of_char c :: nat) \<in> {97..102}"
proof -
  assume "c \<in> set (concat (map hex_byte bs))"
  then obtain b where "c \<in> set (hex_byte b)" by auto
  then consider "c = hex_digit (unat b div 16)" | "c = hex_digit (unat b mod 16)"
    by (auto simp: hex_byte_def)
  then show ?thesis
    using hex_digit_range [OF byte_nibbles(1) [of b]] hex_digit_range [OF byte_nibbles(2) [of b]]
    by cases simp_all
qed

lemma set_sample_uuid_string:
  "c \<in> set (sample_uuid_string u) \<Longrightarrow>
   c = CHR ''-'' \<or> (of_char c :: nat) \<in> {48..57} \<or> (of_char c :: nat) \<in> {97..102}"
  unfolding sample_uuid_string_def set_append using set_hex by auto

lemma sample_uuid_ok [simp]: "uuid_ok sample"
  unfolding uuid_ok_def
  using sample_uuid_roundtrip set_sample_uuid_string
  by (simp add: sample_def) (simp add: sample_uuid_string_def)

lemma sample_uuid_typed [simp]: "uuid_typed sample"
  by (auto simp: uuid_typed_def sample_def sample_uuid_parse_def pad_def Let_def split: if_splits)

lemma sample_rsa_ok [simp]: "rsa_ok sample"
proof -
  have "take n (pad 254 m @ r) = m" if "n = length m" "n \<le> 126" for n m r
    using that by (simp add: pad_def)
  moreover have "unat (word_of_nat n :: byte) = n" if "n \<le> 126" for n
    using that by (simp add: unat_of_nat)
  moreover have "(w # pad 254 m @ [k]) ! 255 = k" for w k :: byte and m
    by (simp add: nth_Cons' nth_append)
  ultimately show ?thesis
    by (auto simp: rsa_ok_def sample_def sample_rsa_def)
qed

text \<open>The sample HMAC separates keys that differ in their first 16 bytes, on every message.\<close>

lemma map2_xor_cancel:
  "length a = length c \<Longrightarrow> length b = length c \<Longrightarrow>
   map2 (\<lambda>x y. x XOR y) a c = map2 (\<lambda>x y. x XOR y) b c \<longleftrightarrow> (a :: bytes) = b"
proof (induction c arbitrary: a b)
  case (Cons z c)
  then obtain x a' y b' where "a = x # a'" "b = y # b'"
    by (metis length_Suc_conv)
  moreover have "x XOR z = y XOR z \<longleftrightarrow> x = y"
    by (metis xor.assoc xor_self_eq xor.right_neutral)
  ultimately show ?case using Cons by simp
qed simp

lemma mix_cancel: "mix a c = mix b c \<longleftrightarrow> pad 16 a = pad 16 b"
  by (simp add: mix_def map2_xor_cancel)

lemma sample_hmac_eq:
  "x_hmac_sha512 sample k c = x_hmac_sha512 sample k' c \<longleftrightarrow> pad 16 k = pad 16 k'"
proof -
  have "pad 64 a = pad 64 b \<longleftrightarrow> a = b" if "length a = 16" "length b = 16" for a b :: bytes
    using that by (simp add: pad_def)
  then show ?thesis by (simp add: sample_def mix_cancel)
qed

end
