(* ===== verification/User_Service.thy ===== *)
theory User_Service
  imports Memory_Storage Sample_External
begin

text \<open>
  What \<open>InitUser\<close> and \<open>GetUser\<close> of \<open>service.go\<close> do on the in-memory backend: the exact
  state \<open>InitUser\<close> leaves, the round trip through \<open>GetUser\<close>, rejection of duplicate users,
  unknown users and wrong passwords, and the authenticity of what \<open>GetUser\<close> returns.
\<close>

lemma InitUser_memory_exists:
  assumes "crypto_ok X" "uuid_ok X" "store_of w (user_uuid X username) \<noteq> None"
  shows "InitUser X memory_services username password w = (Err (UserExists username), w)"
  using assms by (simp add: InitUser_def monad_simps hashed_user_uuid)

definition rsa_at :: "ext \<Rightarrow> nat \<Rightarrow> rsa_private" where
  "rsa_at X i = (case x_rsa_generate X i 2048 of Some k \<Rightarrow> k | None \<Rightarrow> zero_rsa)"

lemma rsa_generate_at: "rsa_ok X \<Longrightarrow> x_rsa_generate X i 2048 = Some (rsa_at X i)"
  unfolding rsa_ok_def rsa_at_def by (metis option.simps(5))

definition new_user :: "ext \<Rightarrow> string \<Rightarrow> string \<Rightarrow> nat \<Rightarrow> User" where
  "new_user X username password d =
     \<lparr>u_Username = username,
      u_PKEPrivateKey = \<lparr>priv_KeyType = ''PKE'', priv_PrivKey = rsa_at X d\<rparr>,
      u_DSSignKey = \<lparr>priv_KeyType = ''DS'', priv_PrivKey = rsa_at X (Suc d)\<rparr>,
      u_MasterKey = master_key X username password,
      u_Files = Some []\<rparr>"

lemma InitUser_memory:
  assumes "crypto_ok X" "uuid_ok X" "rsa_ok X" "store_of w (user_uuid X username) = None"
    and d: "d = draws w" and u: "u = new_user X username password d"
  shows "InitUser X memory_services username password w =
    (Ok u, (put (user_uuid X username)
        (seal X (rand_at X (d + 2) 16) (bytes_of_string (json_print (enc_user X u)))
          (user_keys X (master_key X username password)))
      (put_key (username @ ''_sig_pub'') (AsPublicKey \<lparr>pub_KeyType = ''DS'', pub_PubKey = rsa_PublicKey (rsa_at X (Suc d))\<rparr>)
      (put_key (username @ ''_enc_pub'') (AsPublicKey \<lparr>pub_KeyType = ''PKE'', pub_PubKey = rsa_PublicKey (rsa_at X d)\<rparr>)
        w)))\<lparr>draws := d + 3\<rparr>)"
  using assms(1-4) unfolding u d
  by (simp add: InitUser_def monad_simps hashed_user_uuid argon2Key_eq hashKDF_ok
      pkeKeyGen_def dsKeyGen_def tick_def rsaKeySizeBits_def rsa_generate_at Let_def marshal_def
      encryptAndMAC_ok user_keys_def new_user_def numeral_2_eq_2 numeral_3_eq_3)

lemma GetUser_memory:
  assumes "crypto_ok X" "uuid_ok X"
    "sealed_at X (store_of w) (user_uuid X username) (enc_user X u) (user_keys X (master_key X username password))"
    "user_wf u"
  shows "GetUser X memory_services username password w = (Ok u, w)"
proof -
  obtain iv where iv: "length iv = 16" "store_of w (user_uuid X username) =
     Some (seal X iv (bytes_of_string (json_print (enc_user X u))) (user_keys X (master_key X username password)))"
    using assms(3) by (auto simp: sealed_at_def)
  have "unmarshal (dec_user X) (bytes_of_string (json_print (enc_user X u))) = Ok u"
    using user_codec [OF assms(2,4)] by (rule unmarshal_marshal)
  then show ?thesis
    using assms(1,2) iv
    by (simp add: GetUser_def monad_simps hashed_user_uuid argon2Key_eq hashKDF_ok
        user_keys_def Let_def)
qed

lemma GetUser_unknown:
  assumes "crypto_ok X" "uuid_ok X" "store_of w (user_uuid X username) = None"
  shows "GetUser X memory_services username password w = (Err (UserNotFound username), w)"
  using assms
  by (simp add: GetUser_def monad_simps hashed_user_uuid argon2Key_eq hashKDF_ok Let_def)

lemma GetUser_found:
  assumes "crypto_ok X" "uuid_ok X" "store_of w (user_uuid X username) = Some payload"
    and ks: "ks = user_keys X (master_key X username password)"
  shows "GetUser X memory_services username password w =
    (case decryptAndVerify X payload (fst ks) (snd ks) of
       Ok b \<Rightarrow> (case unmarshal (dec_user X) b of
           Ok u \<Rightarrow> (Ok u, w)
         | Err e \<Rightarrow> (Err (Wrap ''failed to unmarshal user'' e), w)
         | Panic p \<Rightarrow> (Panic p, w))
     | Err e \<Rightarrow> (Err (Wrap ''failed to decrypt user data'' e), w)
     | Panic p \<Rightarrow> (Panic p, w))"
  using assms(1-3) unfolding ks
  by (simp add: GetUser_def monad_simps hashed_user_uuid argon2Key_eq hashKDF_ok Let_def user_keys_def
      split: outcome.split)

lemma new_user_wf:
  assumes "rsa_ok X" "utf8_valid username"
  shows "user_wf (new_user X username password d)"
proof -
  have "int64 (rsa_E (rsa_PublicKey (rsa_at X i)))" for i
    using assms(1) rsa_generate_at [OF assms(1), of i] by (simp add: rsa_ok_def int64_def)
  moreover have "utf8_valid ''PKE''" "utf8_valid ''DS''" by (rule utf8_valid_ascii; auto)+
  ultimately show ?thesis
    using assms by (simp add: user_wf_def new_user_def private_wf_def rsa_wf_def map_wf_def)
qed

lemma InitUser_Ok_memory:
  assumes "crypto_ok X" "uuid_ok X" "rsa_ok X"
    and "InitUser X memory_services username password w = (Ok u, w')"
  shows "store_of w (user_uuid X username) = None \<and> u = new_user X username password (draws w)
    \<and> draws w' = draws w + 3
    \<and> store_of w' = (store_of w)(user_uuid X username \<mapsto>
        seal X (rand_at X (draws w + 2) 16) (bytes_of_string (json_print (enc_user X u)))
          (user_keys X (master_key X username password)))
    \<and> keys_of w' = (keys_of w)(
        username @ ''_enc_pub'' \<mapsto> AsPublicKey \<lparr>pub_KeyType = ''PKE'',
          pub_PubKey = rsa_PublicKey (priv_PrivKey (u_PKEPrivateKey u))\<rparr>,
        username @ ''_sig_pub'' \<mapsto> AsPublicKey \<lparr>pub_KeyType = ''DS'',
          pub_PubKey = rsa_PublicKey (priv_PrivKey (u_DSSignKey u))\<rparr>)"
proof (cases "store_of w (user_uuid X username)")
  case None
  with assms show ?thesis
    using InitUser_memory [OF assms(1-3) None refl refl, of password]
    by (auto simp: new_user_def)
next
  case (Some p)
  with assms InitUser_memory_exists [of X w username password] show ?thesis by simp
qed

text \<open>The record \<open>InitUser\<close> leaves is the sealed user struct.\<close>

lemma InitUser_sealed:
  assumes "crypto_ok X" "uuid_ok X" "rsa_ok X" "utf8_valid username"
    and "InitUser X memory_services username password w = (Ok u, w')"
  shows "sealed_at X (store_of w') (user_uuid X username) (enc_user X u) (user_keys X (master_key X username password))"
    "user_wf u"
proof -
  note post = InitUser_Ok_memory [OF assms(1-3,5)]
  then show "sealed_at X (store_of w') (user_uuid X username) (enc_user X u)
      (user_keys X (master_key X username password))"
    by (intro sealed_atI [OF length_rand_at [OF assms(1), of "draws w + 2"]]) simp
  from post show "user_wf u" using new_user_wf [OF assms(3,4)] by simp
qed

section \<open>Properties\<close>

definition start :: "memory world" where
  "start = \<lparr>draws = 0, backend = empty_memory\<rparr>"

lemma start_store [simp]: "store_of start = Map.empty"
  by (simp add: start_def empty_memory_def)

text \<open>
  C20: a user created by \<open>InitUser\<close> is given back unchanged by \<open>GetUser\<close> with the same
  credentials, through encryption, MAC and JSON, and \<open>GetUser\<close> writes nothing.
\<close>

theorem init_then_get:
  assumes "crypto_ok X" "uuid_ok X" "rsa_ok X" "utf8_valid username"
    and "InitUser X memory_services username password w = (Ok u, w')"
  shows "GetUser X memory_services username password w' = (Ok u, w')"
  by (rule GetUser_memory [OF assms(1,2) InitUser_sealed [OF assms]])

theorem init_then_get_witness:
  "\<exists>u w'. InitUser sample memory_services ''alice'' ''pw'' start = (Ok u, w')
     \<and> GetUser sample memory_services ''alice'' ''pw'' w' = (Ok u, w')"
proof -
  have "store_of start (user_uuid sample ''alice'') = None" by simp
  from InitUser_memory [OF sample_crypto_ok sample_uuid_ok sample_rsa_ok this refl refl, of "''pw''"]
  obtain u w' where init: "InitUser sample memory_services ''alice'' ''pw'' start = (Ok u, w')"
    by blast
  have "utf8_valid ''alice''" by (rule utf8_valid_ascii) auto
  from init_then_get [OF sample_crypto_ok sample_uuid_ok sample_rsa_ok this init] init
  show ?thesis by blast
qed

text \<open>
  What \<open>InitUser\<close> answers on any state. If the hashed user identifier is taken it is the
  error "already exists" and nothing changes, not even the randomness drawn; otherwise it
  succeeds, stores exactly the sealed user struct, and publishes the encryption and the
  verification key under \<open>_enc_pub\<close> and \<open>_sig_pub\<close>.
\<close>

theorem init_user_behaviour:
  assumes "crypto_ok X" "uuid_ok X" "rsa_ok X"
  shows "if user_uuid X username \<in> dom (store_of w)
    then InitUser X memory_services username password w = (Err (UserExists username), w)
    else (\<exists>u w'. InitUser X memory_services username password w = (Ok u, w')
      \<and> u_Username u = username \<and> u_Files u = Some []
      \<and> dom (store_of w') = insert (user_uuid X username) (dom (store_of w))
      \<and> (\<forall>k. k \<noteq> user_uuid X username \<longrightarrow> store_of w' k = store_of w k)
      \<and> keys_of w' (username @ ''_enc_pub'') = Some (AsPublicKey \<lparr>pub_KeyType = ''PKE'',
          pub_PubKey = rsa_PublicKey (priv_PrivKey (u_PKEPrivateKey u))\<rparr>)
      \<and> keys_of w' (username @ ''_sig_pub'') = Some (AsPublicKey \<lparr>pub_KeyType = ''DS'',
          pub_PubKey = rsa_PublicKey (priv_PrivKey (u_DSSignKey u))\<rparr>))"
proof (cases "user_uuid X username \<in> dom (store_of w)")
  case True
  then show ?thesis using InitUser_memory_exists [OF assms(1,2), of w username password] by auto
next
  case False
  then have none: "store_of w (user_uuid X username) = None" by auto
  obtain u w' where init: "InitUser X memory_services username password w = (Ok u, w')"
    using InitUser_memory [OF assms none refl refl, of password] by blast
  show ?thesis
    using False init InitUser_Ok_memory [OF assms init] by (auto simp: new_user_def)
qed

theorem init_user_behaviour_witness:
  "\<exists>u w'. InitUser sample memory_services ''alice'' ''pw'' start = (Ok u, w') \<and> u_Username u = ''alice''"
  using init_user_behaviour [OF sample_crypto_ok sample_uuid_ok sample_rsa_ok, of "''alice''" start "''pw''"]
  by auto

text \<open>
  C21: \<open>GetUser\<close> never writes, and returns a user only if the stored payload ends in the HMAC of
  its ciphertext under the MAC key of this very username and password; so a payload that was
  tampered with, or sealed under another password whose HMAC differs, is refused.
\<close>

theorem get_user_authentic:
  assumes "crypto_ok X" "uuid_ok X"
  shows "snd (GetUser X memory_services username password w) = w
    \<and> (\<forall>u. fst (GetUser X memory_services username password w) = Ok u \<longrightarrow>
        (\<exists>payload. store_of w (user_uuid X username) = Some payload \<and> 64 \<le> length payload
          \<and> drop (length payload - 64) payload =
              mac_of X (snd (user_keys X (master_key X username password))) (ciphertext_of payload)))"
proof (cases "store_of w (user_uuid X username)")
  case None
  then show ?thesis using GetUser_unknown [OF assms None] by simp
next
  case (Some payload)
  let ?ks = "user_keys X (master_key X username password)"
  have "64 \<le> length payload \<and> drop (length payload - 64) payload = mac_of X (snd ?ks) (ciphertext_of payload)"
    if "decryptAndVerify X payload (fst ?ks) (snd ?ks) = Ok b" for b
    using that by (auto simp: decryptAndVerify_eq [OF assms(1)] split: if_splits)
  then show ?thesis
    using Some GetUser_found [OF assms Some refl, of password] by (auto split: outcome.splits)
qed

theorem get_user_authentic_witness:
  "\<exists>(w :: memory world) u payload. GetUser sample memory_services ''alice'' ''pw'' w = (Ok u, w)
    \<and> store_of w (user_uuid sample ''alice'') = Some payload
    \<and> drop (length payload - 64) payload =
        mac_of sample (snd (user_keys sample (master_key sample ''alice'' ''pw''))) (ciphertext_of payload)"
proof -
  have none: "store_of start (user_uuid sample ''alice'') = None" by simp
  obtain u w where init: "InitUser sample memory_services ''alice'' ''pw'' start = (Ok u, w)"
    using InitUser_memory [OF sample_crypto_ok sample_uuid_ok sample_rsa_ok none refl refl, of "''pw''"] by blast
  have "utf8_valid ''alice''" by (rule utf8_valid_ascii) auto
  from GetUser_memory [OF sample_crypto_ok sample_uuid_ok InitUser_sealed [OF sample_crypto_ok sample_uuid_ok sample_rsa_ok this init]]
  have "GetUser sample memory_services ''alice'' ''pw'' w = (Ok u, w)" .
  with get_user_authentic [OF sample_crypto_ok sample_uuid_ok, of "''alice''" "''pw''" w] show ?thesis by auto
qed

text \<open>
  C22: after \<open>InitUser\<close>, logging in with a password whose MAC key computes another HMAC on the
  stored ciphertext fails with the MAC error.
\<close>

theorem wrong_password_rejected:
  assumes "crypto_ok X" "uuid_ok X" "rsa_ok X"
    and "InitUser X memory_services username password w = (Ok u, w')"
    and "store_of w' (user_uuid X username) = Some payload"
    and "mac_of X (snd (user_keys X (master_key X username wrong))) (ciphertext_of payload)
       \<noteq> mac_of X (snd (user_keys X (master_key X username password))) (ciphertext_of payload)"
  shows "GetUser X memory_services username wrong w'
    = (Err (Wrap ''failed to decrypt user data'' MACMismatch), w')"
proof -
  have "payload = seal X (rand_at X (draws w + 2) 16) (bytes_of_string (json_print (enc_user X u)))
      (user_keys X (master_key X username password))"
    using InitUser_Ok_memory [OF assms(1-4)] assms(5) by simp
  with assms(6) show ?thesis
    using GetUser_found [OF assms(1,2,5) refl, of wrong]
    by (simp add: decrypt_seal [OF assms(1) length_rand_at [OF assms(1)]] ciphertext_of_seal [OF assms(1)])
qed

theorem wrong_password_rejected_witness:
  "\<exists>w' :: memory world. GetUser sample memory_services ''alice'' ''guess'' w'
     = (Err (Wrap ''failed to decrypt user data'' MACMismatch), w')"
proof -
  have none: "store_of start (user_uuid sample ''alice'') = None" by simp
  obtain u w' where init: "InitUser sample memory_services ''alice'' ''pw'' start = (Ok u, w')"
    using InitUser_memory [OF sample_crypto_ok sample_uuid_ok sample_rsa_ok none refl refl, of "''pw''"] by blast
  obtain payload where payload: "store_of w' (user_uuid sample ''alice'') = Some payload"
    using InitUser_Ok_memory [OF sample_crypto_ok sample_uuid_ok sample_rsa_ok init] by simp
  have "mac_of sample (snd (user_keys sample (master_key sample ''alice'' ''guess''))) c
      \<noteq> mac_of sample (snd (user_keys sample (master_key sample ''alice'' ''pw''))) c" for c
    by (simp add: mac_of_def sample_hmac_eq aes_key_def)
      (simp add: sample_def user_keys_def master_key_def pad_def mix_def bytes_of_string_def
        byte_of_char_def)
  from wrong_password_rejected [OF sample_crypto_ok sample_uuid_ok sample_rsa_ok init payload this]
  show ?thesis by blast
qed

end
