(* ===== verification/File_Properties.thy ===== *)
theory File_Properties
  imports File_Correct User_Service
begin

text \<open>
  What the file operations promise on the in-memory backend: what is stored is loaded, also
  after a new login; appending extends a file for everybody who sees it and costs what the
  appended bytes cost; other files are left alone; reading writes nothing; missing files and
  blocks that do not authenticate are reported. Three theorems show where the promise breaks: a block
  copied over another block of its file, a file named like the user struct, and names of users and files whose concatenations agree.
\<close>

section \<open>Sessions on the sample instance\<close>

lemma sample_uuid_at: "uuid_at sample i = replicate 8 0xAA @ pad 8 [word_of_nat i, word_of_nat (i div 256)]"
  by (simp add: uuid_at_def sample_def)

lemma byte_pair_inject:
  assumes "word_of_nat i = (word_of_nat j :: byte)" "word_of_nat (i div 256) = (word_of_nat (j div 256) :: byte)"
    "i < 65536" "j < 65536"
  shows "i = j"
proof -
  have "i mod 256 = j mod 256"
    using arg_cong [OF assms(1), of unat] by (simp add: unat_of_nat)
  moreover have "i div 256 = j div 256"
    using arg_cong [OF assms(2), of unat] assms(3,4) by (simp add: unat_of_nat div_less_iff_less_mult)
  ultimately show ?thesis by (metis div_mult_mod_eq)
qed

lemma sample_uuid_inject: "i < 65536 \<Longrightarrow> j < 65536 \<Longrightarrow> uuid_at sample i = uuid_at sample j \<longleftrightarrow> i = j"
  using byte_pair_inject [of i j] by (auto simp: sample_uuid_at pad_def)

definition sample_ids :: "nat \<Rightarrow> UUID set \<Rightarrow> bool" where
  "sample_ids d A \<longleftrightarrow> (\<forall>k \<in> A. (\<exists>i < d. k = uuid_at sample i) \<or> hd k \<noteq> 0xAA)"

lemma sample_fresh:
  assumes "sample_ids d A" "d + n \<le> 65536"
  shows "fresh_uuids sample d n A"
proof -
  have "uuid_at sample (d + i) \<notin> A" if "i < n" for i
  proof
    assume "uuid_at sample (d + i) \<in> A"
    moreover have "hd (uuid_at sample (d + i)) = 0xAA" by (simp add: sample_uuid_at)
    ultimately obtain j where "j < d" "uuid_at sample (d + i) = uuid_at sample j"
      using assms(1) unfolding sample_ids_def by metis
    with that assms(2) show False by (simp add: sample_uuid_inject)
  qed
  then show ?thesis
    using assms(2) by (auto simp: fresh_uuids_def sample_uuid_inject)
qed

lemma sample_sha_take: "take 16 (x_sha512 sample b) = pad 16 b"
  by (simp add: sample_def pad_def)

lemma sample_name_ids:
  "access_uuid sample (c # cs) f = pad 16 (byte_of_char c # bytes_of_string (cs @ f))"
  "user_uuid sample (c # cs) = pad 16 (byte_of_char c # bytes_of_string (cs @ ''userStruct''))"
  by (simp_all only: access_uuid_def user_uuid_def sample_sha_take bytes_of_string_def append_Cons list.map)

lemma hd_pad [simp]: "hd (pad 16 (b # bs)) = b"
  by (simp add: pad_def)

definition alice :: User where "alice = new_user sample ''alice'' ''pw'' 0"
definition bob :: User where "bob = new_user sample ''bob'' ''pw'' 3"

definition alice_session :: "memory session" where
  "alice_session = \<lparr>draws = 6, backend = empty_memory, self = alice\<rparr>"

lemma alice_sel [simp]: "u_Username alice = ''alice''" "length (u_MasterKey alice) = 16" "u_Files alice = Some []"
  by (simp_all add: alice_def new_user_def)

lemma alice_session_sel [simp]: "self alice_session = alice" "draws alice_session = 6"
  "store_of alice_session = Map.empty"
  by (simp_all add: alice_session_def empty_memory_def)

lemma alice_can_store:
  assumes "sample_ids (draws w) (dom (store_of w))" "self w = alice" "draws w \<le> 60000"
    "length content \<le> 512"
  shows "can_store sample ''f'' content w"
proof -
  have "block_num (length content) \<le> 1"
    using assms(4) by (simp add: block_num_def BlockSize_def)
  then have "fresh_uuids sample (draws w) (store_draws content) (dom (store_of w)
       \<union> {access_uuid sample ''alice'' ''f'', user_uuid sample ''alice''})"
    using assms(1,3) by (intro sample_fresh)
      (auto simp: sample_ids_def store_draws_def sample_name_ids byte_of_char_def)
  moreover have "access_uuid sample ''alice'' ''f'' \<noteq> user_uuid sample ''alice''"
    by (simp add: sample_name_ids pad_def bytes_of_string_def byte_of_char_def)
  ultimately show ?thesis using assms by (simp add: can_store_def)
qed

section \<open>Properties\<close>

text \<open>
  C2: what \<open>StoreFile\<close> writes, \<open>LoadFile\<close> gives back. For every user with a 16-byte master key,
  every name whose access identifier is not that of the user struct, and every content,
  \<open>StoreFile\<close> succeeds, and \<open>LoadFile\<close> then returns exactly the content without changing
  the state, provided the UUIDs drawn meanwhile are new.
\<close>

theorem store_then_load:
  assumes "crypto_ok X" "uuid_ok X" "can_store X fn content w"
  shows "\<exists>w'. StoreFile X memory_services fn content w = (Ok (), w')
    \<and> LoadFile X memory_services fn w' = (Ok content, w')"
proof -
  have "StoreFile X memory_services fn content w = (Ok (), after_store X fn content w)"
    using assms by (intro StoreFile_after) (simp_all add: can_store_def)
  with LoadFile_view [OF assms(1,2) after_store_view [OF assms]] show ?thesis by blast
qed

theorem store_then_load_witness:
  "\<exists>w'. StoreFile sample memory_services ''f'' [1, 2, 3] alice_session = (Ok (), w')
    \<and> LoadFile sample memory_services ''f'' w' = (Ok [1, 2, 3], w')"
  by (rule store_then_load [OF sample_crypto_ok sample_uuid_ok alice_can_store])
    (simp_all add: sample_ids_def)

text \<open>
  C19: after \<open>StoreFile\<close>, logging in again returns the very user struct the session now holds,
  with the new file in its map: the struct the call saved is the one in memory.
\<close>

theorem store_is_persistent:
  assumes "crypto_ok X" "uuid_ok X" "can_store X fn content w" "utf8_valid fn" "user_wf (self w)"
    "u_MasterKey (self w) = master_key X username password" "u_Username (self w) = username"
    and "StoreFile X memory_services fn content w = (r, w')"
  shows "GetUser X memory_services username password w' = (Ok (self w'), w')
    \<and> u_Files (self w') = Some (gm_set fn (access_uuid X username fn) (files_of (self w)))"
proof -
  have w': "w' = after_store X fn content w"
    using StoreFile_after [OF assms(1,2), of w fn content] assms(3,8) by (simp add: can_store_def)
  have "user_at X (store_of w') (self w')"
    unfolding w' by (rule after_store_user [OF assms(1,5,4,3)])
  then have "GetUser X memory_services username password w' = (Ok (self w'), w')"
    using assms(6,7) by (intro GetUser_memory [OF assms(1,2)]) (auto simp: user_at_def w')
  then show ?thesis using assms(7) by (simp add: w' with_file_def)
qed

lemma alice_wf: "user_wf alice"
  unfolding alice_def by (rule new_user_wf [OF sample_rsa_ok]) (rule utf8_valid_ascii, auto)

theorem store_is_persistent_witness:
  "\<exists>w'. StoreFile sample memory_services ''f'' [] alice_session = (Ok (), w')
    \<and> GetUser sample memory_services ''alice'' ''pw'' w' = (Ok (self w'), w')"
proof -
  have can: "can_store sample ''f'' [] alice_session"
    by (rule alice_can_store) (simp_all add: sample_ids_def)
  then have run: "StoreFile sample memory_services ''f'' [] alice_session
      = (Ok (), after_store sample ''f'' [] alice_session)"
    by (intro StoreFile_after) simp_all
  have "utf8_valid ''f''" by (rule utf8_valid_ascii) auto
  from store_is_persistent [OF sample_crypto_ok sample_uuid_ok can this _ _ _ run, of "''alice''" "''pw''"] run
  show ?thesis by (auto simp: alice_wf) (simp add: alice_def new_user_def)
qed


text \<open>
  C7: \<open>StoreFile\<close> leaves every other file of every user as it was: a file whose access record
  is another one, and whose chain of blocks does not pass through the two records written in
  place, loads the same content afterwards.
\<close>

theorem store_preserves_others:
  assumes "crypto_ok X" "uuid_ok X" "can_store X fn content w"
    and "StoreFile X memory_services fn content w = (r, w')"
    and "view X (store_of w) v g a node inode old"
    and "access_uuid X (u_Username (self w)) fn \<notin> set (view_ids X v g a node inode)"
    and "user_uuid X (u_Username (self w)) \<notin> set (view_ids X v g a node inode)"
  shows "LoadFile X memory_services g (w'\<lparr>self := v\<rparr>) = (Ok old, w'\<lparr>self := v\<rparr>)"
proof -
  have w': "w' = after_store X fn content w"
    using StoreFile_after [OF assms(1,2), of w fn content] assms(3,4) by (simp add: can_store_def)
  have "store_of w' k = store_of w k" if "k \<in> set (view_ids X v g a node inode)" for k
    unfolding w' using that assms(6,7) view_ids_dom [OF assms(5)]
    by (intro after_store_outside [OF assms(3)]) auto
  then have "view X (store_of w') v g a node inode old"
    using view_cong [OF assms(5), of "store_of w'" v] by simp
  then show ?thesis by (intro LoadFile_view [OF assms(1,2)]) simp
qed

lemma sample_ids_put:
  assumes "sample_ids d A" "d \<le> d'" "B \<subseteq> N \<union> uuid_at sample ` {0..<d'}" "\<forall>k \<in> N. hd k \<noteq> 0xAA"
  shows "sample_ids d' (A \<union> B)"
  unfolding sample_ids_def
proof
  fix k assume "k \<in> A \<union> B"
  with assms(3) consider "k \<in> A" | "k \<in> N" | i where "i < d'" "k = uuid_at sample i" by auto
  then show "(\<exists>i < d'. k = uuid_at sample i) \<or> hd k \<noteq> 0xAA"
    using assms(1,2,4) unfolding sample_ids_def by cases (auto dest: order_less_le_trans)
qed

lemma sample_ids_store:
  assumes "sample_ids (draws w) (dom (store_of w))" "self w = alice"
  shows "sample_ids (draws w + store_draws content) (dom (store_of (after_store sample (c # fn) content w)))"
proof -
  have sub: "set (map fst (store_puts sample alice (draws w) (c # fn) content)) \<subseteq>
      {access_uuid sample ''alice'' (c # fn), user_uuid sample ''alice''}
      \<union> uuid_at sample ` {0..<draws w + store_draws content}"
    unfolding fst_store_puts by (auto simp: store_draws_def)
  show ?thesis
    unfolding after_store_sel dom_put_all assms(2)
    by (rule sample_ids_put [OF assms(1) _ sub [unfolded set_map]]) (auto simp: sample_name_ids byte_of_char_def)
qed

text \<open>Two files stored one after the other, the second as in the session above.\<close>

definition alice_two :: "memory session" where
  "alice_two = (after_store sample ''g'' [7] alice_session)\<lparr>self := alice\<rparr>"

lemma alice_two_ids: "sample_ids (draws alice_two) (dom (store_of alice_two))" "self alice_two = alice"
  "draws alice_two = 16"
proof -
  have "sample_ids (draws alice_session) (dom (store_of alice_session))" by (simp add: sample_ids_def)
  from sample_ids_store [OF this alice_session_sel(1), of "[7]" "CHR ''g''" "[]"]
  show "sample_ids (draws alice_two) (dom (store_of alice_two))" by (simp add: alice_two_def)
qed (simp_all add: alice_two_def store_draws_def block_num_def BlockSize_def)

lemma alice_can_store_g: "can_store sample ''g'' [7] alice_session"
proof -
  have "fresh_uuids sample 6 (store_draws [7])
     {access_uuid sample ''alice'' ''g'', user_uuid sample ''alice''}"
    by (rule sample_fresh) (auto simp: sample_ids_def sample_name_ids byte_of_char_def
        store_draws_def block_num_def BlockSize_def)
  moreover have "access_uuid sample ''alice'' ''g'' \<noteq> user_uuid sample ''alice''"
    by (simp add: sample_name_ids pad_def bytes_of_string_def byte_of_char_def)
  ultimately show ?thesis by (simp add: can_store_def)
qed

lemma alice_two_view: "view sample (store_of alice_two) alice ''g''
  (new_access sample 6) (new_node sample 6) (new_inode sample 6 [7]) [7]"
proof -
  have "view sample (store_of (after_store sample ''g'' [7] alice_session))
    (self (after_store sample ''g'' [7] alice_session)) ''g''
    (new_access sample 6) (new_node sample 6) (new_inode sample 6 [7]) [7]"
    using after_store_view [OF sample_crypto_ok sample_uuid_ok alice_can_store_g] by simp
  then show ?thesis
    unfolding alice_two_def by (rule view_cong) simp_all
qed

lemma sample_uuid_not_name:
  "uuid_at sample i \<noteq> access_uuid sample ''alice'' f" "uuid_at sample i \<noteq> user_uuid sample ''alice''"
proof -
  have "hd (uuid_at sample i) = 0xAA" by (simp add: sample_uuid_at)
  moreover have "hd (access_uuid sample ''alice'' f) = 97" "hd (user_uuid sample ''alice'') = 97"
    by (simp_all add: sample_name_ids byte_of_char_def)
  ultimately show "uuid_at sample i \<noteq> access_uuid sample ''alice'' f" "uuid_at sample i \<noteq> user_uuid sample ''alice''"
    by auto
qed

lemma alice_names_distinct:
  "access_uuid sample ''alice'' ''f'' \<noteq> access_uuid sample ''alice'' ''g''"
  "user_uuid sample ''alice'' \<noteq> access_uuid sample ''alice'' ''g''"
  by (simp_all add: sample_name_ids pad_def bytes_of_string_def byte_of_char_def)

lemma sample_view_ids: "set (view_ids sample u fn (new_access sample d) (new_node sample d) (new_inode sample d c))
  \<subseteq> insert (access_uuid sample (u_Username u) fn) (range (uuid_at sample))"
  by (auto simp: view_ids_def new_access_def new_node_def new_inode_def)

theorem store_preserves_others_witness:
  "\<exists>w'. StoreFile sample memory_services ''f'' [1, 2, 3] alice_two = (Ok (), w')
    \<and> LoadFile sample memory_services ''g'' (w'\<lparr>self := alice\<rparr>) = (Ok [7], w'\<lparr>self := alice\<rparr>)"
proof -
  have can: "can_store sample ''f'' [1, 2, 3] alice_two"
    using alice_two_ids by (intro alice_can_store) simp_all
  then have run: "StoreFile sample memory_services ''f'' [1, 2, 3] alice_two
      = (Ok (), after_store sample ''f'' [1, 2, 3] alice_two)"
    by (intro StoreFile_after) (simp_all add: alice_two_ids)
  have "access_uuid sample (u_Username (self alice_two)) ''f''
      \<notin> set (view_ids sample alice ''g'' (new_access sample 6) (new_node sample 6) (new_inode sample 6 [7]))"
    "user_uuid sample (u_Username (self alice_two))
      \<notin> set (view_ids sample alice ''g'' (new_access sample 6) (new_node sample 6) (new_inode sample 6 [7]))"
    using sample_view_ids [of alice "''g''" 6 "[7]"] sample_uuid_not_name [symmetric] alice_names_distinct
    unfolding alice_two_ids alice_sel by blast+
  from store_preserves_others [OF sample_crypto_ok sample_uuid_ok can run alice_two_view this] run
  show ?thesis by blast
qed

text \<open>
  C6: \<open>AppendToFile\<close> on a readable file succeeds, and the file then reads as the old content
  followed by the new one; this holds for the owner and, since only the shared inode and
  fresh blocks are written, for every user whose chain ends in the same inode.
\<close>

theorem append_then_load:
  assumes "crypto_ok X" "uuid_ok X" "view X (store_of w) (self w) fn a node inode content"
    and "distinct (view_ids X (self w) fn a node inode)"
    and "fresh_uuids X (draws w) (append_draws extra) (dom (store_of w))"
    and "view X (store_of w) v g b node' inode content"
    and "distinct (view_ids X v g b node' inode)"
    and "mb_InodeUUID node' = mb_InodeUUID node" "mb_FileKey node' = mb_FileKey node"
  shows "\<exists>w'. AppendToFile X memory_services fn (Some extra) w = (Ok (), w')
    \<and> LoadFile X memory_services fn w' = (Ok (content @ extra), w')
    \<and> LoadFile X memory_services g (w'\<lparr>self := v\<rparr>) = (Ok (content @ extra), w'\<lparr>self := v\<rparr>)"
proof -
  have same: "after_append X node' inode extra w = after_append X node inode extra w"
    using assms(8,9) by (simp add: after_append_def append_puts_def)
  have "AppendToFile X memory_services fn (Some extra) w = (Ok (), after_append X node inode extra w)"
    by (rule AppendToFile_view [OF assms(1-3)])
  moreover have "LoadFile X memory_services fn (after_append X node inode extra w)
      = (Ok (content @ extra), after_append X node inode extra w)"
    using LoadFile_view [OF assms(1,2)] after_append_view [OF assms(1-5)] by simp
  moreover have "LoadFile X memory_services g ((after_append X node inode extra w)\<lparr>self := v\<rparr>)
      = (Ok (content @ extra), (after_append X node inode extra w)\<lparr>self := v\<rparr>)"
    using LoadFile_view [OF assms(1,2), of "(after_append X node inode extra w)\<lparr>self := v\<rparr>"]
      after_append_view [OF assms(1,2,6,7,5)] same by simp
  ultimately show ?thesis by blast
qed


lemma new_view_distinct:
  assumes "can_store X fn content w"
  shows "distinct (view_ids X (self w) fn (new_access X (draws w)) (new_node X (draws w))
    (new_inode X (draws w) content))"
  using after_store_distinct [OF assms]
  unfolding fst_store_puts view_ids_def new_access_def new_node_def new_inode_def by auto

lemma alice_two_distinct: "distinct (view_ids sample alice ''g'' (new_access sample 6) (new_node sample 6)
  (new_inode sample 6 [7]))"
  using new_view_distinct [OF alice_can_store_g] by simp

theorem append_then_load_witness:
  "\<exists>w'. AppendToFile sample memory_services ''g'' (Some [8, 9]) alice_two = (Ok (), w')
    \<and> LoadFile sample memory_services ''g'' w' = (Ok [7, 8, 9], w')"
proof -
  have "fresh_uuids sample (draws alice_two) (append_draws [8, 9]) (dom (store_of alice_two))"
    using alice_two_ids by (intro sample_fresh) (simp_all add: append_draws_def block_num_def BlockSize_def)
  moreover have "view sample (store_of alice_two) (self alice_two) ''g'' (new_access sample 6)
      (new_node sample 6) (new_inode sample 6 [7]) [7]"
    "distinct (view_ids sample (self alice_two) ''g'' (new_access sample 6) (new_node sample 6)
      (new_inode sample 6 [7]))"
    using alice_two_view alice_two_distinct by (simp_all add: alice_two_ids)
  ultimately show ?thesis
    using append_then_load [OF sample_crypto_ok sample_uuid_ok _ _ _ alice_two_view alice_two_distinct refl refl]
    by fastforce
qed

text \<open>
  C11: \<open>AppendToFile\<close> costs what the appended bytes cost. It rewrites no block: of the
  identifiers in use only the inode changes, exactly one new record per started 512 bytes
  appears, and the user struct and the key store are untouched.
\<close>

theorem append_writes:
  assumes "crypto_ok X" "uuid_ok X" "view X (store_of w) (self w) fn a node inode content"
    and "fresh_uuids X (draws w) (append_draws extra) (dom (store_of w))"
    and "AppendToFile X memory_services fn (Some extra) w = (r, w')"
  shows "self w' = self w \<and> keys_of w' = keys_of w
    \<and> (\<forall>k \<in> dom (store_of w) - {mb_InodeUUID node}. store_of w' k = store_of w k)
    \<and> dom (store_of w) \<subseteq> dom (store_of w')
    \<and> card (dom (store_of w') - dom (store_of w)) = (length extra + 511) div 512"
proof -
  have w': "w' = after_append X node inode extra w"
    using AppendToFile_view [OF assms(1-3)] assms(5) by simp
  have idom: "mb_InodeUUID node \<in> dom (store_of w)"
    using view_ids_dom [OF assms(3)] by (simp add: view_ids_def)
  let ?new = "map (\<lambda>i. uuid_at X (draws w + 2 * i)) [0..<block_num (length extra)]"
  have "2 * length (ByteToBlock extra) \<le> append_draws extra"
    by (simp add: append_draws_def length_ByteToBlock)
  note new = block_puts_fresh [OF assms(4) this, of "([], [])", unfolded set_map [symmetric] fst_block_puts
      length_ByteToBlock]
  have "dom (store_of w') = dom (store_of w) \<union> set (map fst (append_puts X (draws w) node inode extra))"
    unfolding w' after_append_sel dom_put_all by simp
  then have dom: "dom (store_of w') = dom (store_of w) \<union> set ?new"
    unfolding fst_append_puts using idom by auto
  with new(2) have "dom (store_of w') - dom (store_of w) = set ?new" by auto
  moreover have "card (set ?new) = block_num (length extra)"
    using distinct_card [OF new(1)] by simp
  ultimately show ?thesis
    using after_append_outside [OF assms(3,4)] dom
    by (auto simp: w' block_num_def BlockSize_def)
qed

theorem append_writes_witness:
  "\<exists>w'. AppendToFile sample memory_services ''g'' (Some [8, 9]) alice_two = (Ok (), w')
    \<and> card (dom (store_of w') - dom (store_of alice_two)) = 1"
proof -
  have fresh: "fresh_uuids sample (draws alice_two) (append_draws [8, 9]) (dom (store_of alice_two))"
    using alice_two_ids by (intro sample_fresh) (simp_all add: append_draws_def block_num_def BlockSize_def)
  have view: "view sample (store_of alice_two) (self alice_two) ''g'' (new_access sample 6)
      (new_node sample 6) (new_inode sample 6 [7]) [7]"
    using alice_two_view by (simp add: alice_two_ids)
  note run = AppendToFile_view [OF sample_crypto_ok sample_uuid_ok view, of "[8, 9]"]
  from append_writes [OF sample_crypto_ok sample_uuid_ok view fresh run] run show ?thesis by simp
qed

definition read_only :: "('s, 'e, 'a) comp \<Rightarrow> bool" where
  "read_only m \<longleftrightarrow> (\<forall>s. snd (m s) = s)"

lemma read_only_bnd: "read_only m \<Longrightarrow> (\<And>x. read_only (f x)) \<Longrightarrow> read_only (bnd m f)"
  by (auto simp: read_only_def bnd_def split: prod.split outcome.split)
    (metis prod.sel(2))+

lemma read_only_map_err: "read_only m \<Longrightarrow> read_only (map_err g m)"
  by (auto simp: read_only_def map_err_def split: prod.split outcome.split) (metis prod.sel(2))+

lemma read_only_basic: "read_only (ret x)" "read_only (raise e)" "read_only (go_panic p)"
  "read_only (lift_outcome r)" "read_only (gets f)"
  by (simp_all add: read_only_def monad_simps)

lemma read_only_Get: "read_only (on_backend (st_Get (svc_storage memory_services) k) :: (memory session, _, _) comp)"
  by (simp add: read_only_def monad_simps)

lemmas read_only_intros = read_only_bnd read_only_map_err read_only_basic read_only_Get

lemma read_only_fetch: "read_only (fetch X memory_services i e ks f g dec :: (memory session, _, _) comp)"
  unfolding fetch_def by (intro read_only_intros) (auto intro!: read_only_intros split: option.split)

lemma read_only_load_blocks: "read_only (load_blocks X memory_services fn ek mk us data :: (memory session, _, _) comp)"
proof (induction us arbitrary: data)
  case (Cons u us)
  then show ?case
    unfolding load_blocks.simps by (intro read_only_intros) (auto intro!: read_only_intros split: option.split)
qed (simp add: read_only_basic)

lemma read_only_LoadFile: "read_only (LoadFile X memory_services fn)"
  unfolding LoadFile_def by (intro read_only_intros) (auto intro!: read_only_intros read_only_fetch read_only_load_blocks)


text \<open>\<open>always_ok\<close>: never fails; \<open>fails_clean\<close>: writes nothing when it fails.\<close>

definition always_ok :: "('s, 'e, 'a) comp \<Rightarrow> bool" where
  "always_ok m \<longleftrightarrow> (\<forall>s. \<exists>x. fst (m s) = Ok x)"

definition fails_clean :: "('s, 'e, 'a) comp \<Rightarrow> bool" where
  "fails_clean m \<longleftrightarrow> (\<forall>s. (\<forall>x. fst (m s) \<noteq> Ok x) \<longrightarrow> snd (m s) = s)"

lemma always_ok_bnd: "always_ok m \<Longrightarrow> (\<And>x. always_ok (f x)) \<Longrightarrow> always_ok (bnd m f)"
  unfolding always_ok_def
proof
  fix s assume "\<forall>s. \<exists>x. fst (m s) = Ok x" and f: "\<And>x. \<forall>s. \<exists>y. fst (f x s) = Ok y"
  then obtain x s' where "m s = (Ok x, s')" by (metis prod.collapse)
  with f show "\<exists>y. fst (bnd m f s) = Ok y" by (simp add: monad_simps)
qed

lemma always_ok_clean: "always_ok m \<Longrightarrow> fails_clean m"
  by (auto simp: always_ok_def fails_clean_def)

lemma read_only_clean: "read_only m \<Longrightarrow> fails_clean m"
  by (simp add: read_only_def fails_clean_def)

lemma fails_clean_bnd:
  assumes "read_only m" "\<And>x. fails_clean (f x)"
  shows "fails_clean (bnd m f)"
  unfolding fails_clean_def
proof (intro allI impI)
  fix s assume fail: "\<forall>x. fst (bnd m f s) \<noteq> Ok x"
  have "snd (m s) = s" using assms(1) by (simp add: read_only_def)
  with fail assms(2) show "snd (bnd m f s) = s"
    by (cases "m s"; cases "fst (m s)") (auto simp: bnd_def fails_clean_def)
qed

lemma always_ok_tail:
  assumes "crypto_ok X" "uuid_ok X"
  shows "always_ok (map_err g (lift_outcome (marshal j)) :: (memory session, _, _) comp)"
    "always_ok (map_err g (encryptAndMAC X b ek mk) :: (memory session, _, _) comp)"
    "always_ok (store_blocks X memory_services wrap ek mk fbs acc :: (memory session, _, _) comp)"
    "always_ok (on_backend (st_Set (svc_storage memory_services) k v) :: (memory session, _, _) comp)"
  using assms
  by (simp_all add: always_ok_def monad_simps marshal_def encryptAndMAC_ok store_blocks_memory)

lemma fails_clean_store:
  "crypto_ok X \<Longrightarrow> uuid_ok X \<Longrightarrow> (\<And>x. always_ok (f x)) \<Longrightarrow>
   fails_clean (bnd (store_blocks X memory_services wrap ek mk fbs acc :: (memory session, _, _) comp) f)"
  by (intro always_ok_clean always_ok_bnd always_ok_tail)

lemmas fails_clean_steps = fails_clean_bnd [OF read_only_fetch] fails_clean_bnd [OF read_only_basic(5)]
  fails_clean_bnd [OF read_only_map_err [OF read_only_basic(4)]]

lemma fails_clean_AppendToFile:
  assumes "crypto_ok X" "uuid_ok X"
  shows "fails_clean (AppendToFile X memory_services fn content)"
proof (cases content)
  case None
  then show ?thesis by (simp add: AppendToFile_def read_only_clean read_only_basic)
next
  case (Some extra)
  then show ?thesis
    unfolding AppendToFile_def Let_def
    by (auto intro!: fails_clean_steps fails_clean_store [OF assms] always_ok_bnd always_ok_tail [OF assms])
qed

text \<open>
  C23: \<open>LoadFile\<close> and \<open>ListFiles\<close> never write: on every state of the in-memory backend, whatever
  is stored and for whichever external code, the store, the key store and the user struct are
  the same afterwards. A call of \<open>AppendToFile\<close> or \<open>LoadFile\<close> that returns an error or panics
  has written nothing.
\<close>

theorem reads_write_nothing:
  assumes "crypto_ok X" "uuid_ok X"
  shows "snd (LoadFile X memory_services fn w) = w
    \<and> (\<exists>d. snd (ListFiles X w) = w\<lparr>draws := d\<rparr>)
    \<and> ((\<forall>x. fst (AppendToFile X memory_services fn content w) \<noteq> Ok x)
        \<longrightarrow> snd (AppendToFile X memory_services fn content w) = w)"
proof (intro conjI impI)
  show "snd (LoadFile X memory_services fn w) = w"
    using read_only_LoadFile by (simp add: read_only_def)
  show "\<exists>d. snd (ListFiles X w) = w\<lparr>draws := d\<rparr>"
    by (cases "u_Files (self w)")
      (auto simp: ListFiles_def monad_simps range_keys_eq intro: exI [of _ "draws w"])
  show "snd (AppendToFile X memory_services fn content w) = w"
    if "\<forall>x. fst (AppendToFile X memory_services fn content w) \<noteq> Ok x"
    using that fails_clean_AppendToFile [OF assms] by (simp add: fails_clean_def)
qed

theorem reads_write_nothing_witness:
  "snd (LoadFile sample memory_services ''f'' alice_session) = alice_session
   \<and> snd (AppendToFile sample memory_services ''f'' None alice_session) = alice_session"
  using reads_write_nothing [OF sample_crypto_ok sample_uuid_ok, of "''f''" alice_session None]
  by (simp add: AppendToFile_def monad_simps)

text \<open>
  A name without an access record is reported as such by all three operations that need
  one, and appending nil is refused before anything is read.
\<close>

theorem missing_file:
  assumes "crypto_ok X" "uuid_ok X"
    and "store_of w (access_uuid X (u_Username (self w)) fn) = None"
  shows "LoadFile X memory_services fn w = (Err (FileNotFound fn (u_Username (self w))), w)
    \<and> AppendToFile X memory_services fn (Some extra) w = (Err (FileNotFoundAppend fn), w)
    \<and> AppendToFile X memory_services fn None w = (Err ContentNil, w)"
  using assms by (simp add: LoadFile_def AppendToFile_def monad_simps hashed_access_uuid fetch_missing)

theorem missing_file_witness:
  "LoadFile sample memory_services ''f'' alice_session = (Err (FileNotFound ''f'' ''alice''), alice_session)"
  using missing_file [OF sample_crypto_ok sample_uuid_ok, of alice_session "''f''"] by simp


lemma load_blocks_append:
  "load_blocks X S fn ek mk (us @ vs) data = bnd (load_blocks X S fn ek mk us data) (load_blocks X S fn ek mk vs)"
proof (induction us arbitrary: data)
  case Nil
  show ?case by (rule ext) (simp add: monad_simps)
next
  case (Cons u us)
  show ?case
    unfolding append_Cons load_blocks.simps bnd_assoc Cons
  proof (intro arg_cong2 [where f = bnd] refl ext)
    fix found s
    show "(case found of None \<Rightarrow> raise (BlockNotFound fn)
        | Some p \<Rightarrow> bnd (map_err (Wrap ''failed to decrypt block'') (lift_outcome (decryptAndVerify X p ek mk)))
            (\<lambda>plain. bnd (load_blocks X S fn ek mk us (data @ plain)) (load_blocks X S fn ek mk vs))) s
      = bnd (case found of None \<Rightarrow> raise (BlockNotFound fn)
        | Some p \<Rightarrow> bnd (map_err (Wrap ''failed to decrypt block'') (lift_outcome (decryptAndVerify X p ek mk)))
            (\<lambda>plain. load_blocks X S fn ek mk us (data @ plain))) (load_blocks X S fn ek mk vs) s"
      by (cases found) (simp_all add: bnd_assoc monad_simps)
  qed
qed

text \<open>
  C16: a block that does not authenticate under the MAC key of the file is noticed. If any block of a
  readable file is replaced by a payload that is too short, or does not end in the HMAC of its ciphertext under
  that key, \<open>LoadFile\<close> returns the corresponding error and no data. Payloads that do authenticate are another matter:
  the next property.
\<close>

theorem tampered_block_detected:
  assumes "crypto_ok X" "uuid_ok X" "view X (store_of w) (self w) fn a node inode content"
    and "distinct (view_ids X (self w) fn a node inode)" "u \<in> set (in_BlockUUIDs inode)"
    and "length p < 64 \<or> drop (length p - 64) p \<noteq> mac_of X (snd (file_keys X (mb_FileKey node))) (ciphertext_of p)"
  shows "LoadFile X memory_services fn (put u p w) = (Err (Wrap ''failed to decrypt block''
    (if length p < 64 then PayloadTooShort else MACMismatch)), put u p w)"
proof -
  let ?fks = "file_keys X (mb_FileKey node)" and ?w' = "put u p w"
  have chain: "access_at X (store_of ?w') (self ?w') fn a"
    "mailbox_at X (store_of ?w') (ac_MymailboxUUID a) (ac_MymailboxKey a) node"
    "inode_at X (store_of ?w') (mb_FileKey node) (mb_InodeUUID node) inode"
    using assms(3-5) unfolding view_def file_at_def access_at_def mailbox_at_def inode_at_def sealed_at_def
    by (auto simp: view_ids_def)
  obtain us vs where split: "in_BlockUUIDs inode = us @ u # vs" "u \<notin> set us"
    using split_list_first [OF assms(5)] by blast
  obtain bs where "blocks_at X (store_of w) ?fks (in_BlockUUIDs inode) bs"
    using assms(3) by (auto simp: view_def file_at_def)
  then obtain cs where "blocks_at X (store_of w) ?fks us cs"
    unfolding split(1) list_all2_append1 by blast
  then have "blocks_at X (store_of ?w') ?fks us cs"
    by (rule blocks_at_cong) (use split(2) in auto)
  then have "load_blocks X memory_services fn (fst ?fks) (snd ?fks) us [] ?w' = (Ok (concat cs), ?w')"
    using load_blocks_memory [OF assms(1), of ?w'] by simp
  moreover have "decryptAndVerify X p (fst ?fks) (snd ?fks)
      = Err (if length p < 64 then PayloadTooShort else MACMismatch)"
    using assms(6) by (auto simp: decryptAndVerify_eq [OF assms(1)])
  ultimately have "load_blocks X memory_services fn (fst ?fks) (snd ?fks) (in_BlockUUIDs inode) [] ?w'
      = (Err (Wrap ''failed to decrypt block'' (if length p < 64 then PayloadTooShort else MACMismatch)), ?w')"
    unfolding split(1) load_blocks_append by (simp add: monad_simps)
  then show ?thesis
    using assms(1,2) chain by (simp add: LoadFile_def monad_simps hashed_access_uuid chain_simps case_prod_beta)
qed

lemma zero_block_unauthentic:
  "drop (length (replicate 80 0 :: bytes) - 64) (replicate 80 0)
    \<noteq> mac_of sample (snd (file_keys sample (mb_FileKey (new_node sample 6)))) (ciphertext_of (replicate 80 0))"
proof -
  have "hd (x_hmac_sha512 sample (aes_key sample (snd (file_keys sample (rand_at sample 6 16)))) (replicate 16 0)) = 7 XOR 0x66"
    by (simp add: aes_key_def file_keys_def)
      (simp add: sample_def rand_at_def mix_def pad_def bytes_of_string_def byte_of_char_def hd_append hd_zip list.map_sel)
  then have "mac_of sample (snd (file_keys sample (rand_at sample 6 16))) (replicate 16 0) \<noteq> replicate 64 0"
    by (auto simp: mac_of_def)
  then show ?thesis by (auto simp: new_node_def ciphertext_of_def macLen_def)
qed

theorem tampered_block_detected_witness:
  "\<exists>u. LoadFile sample memory_services ''g'' (put u [0] alice_two)
      = (Err (Wrap ''failed to decrypt block'' PayloadTooShort), put u [0] alice_two)
    \<and> LoadFile sample memory_services ''g'' (put u (replicate 80 0) alice_two)
      = (Err (Wrap ''failed to decrypt block'' MACMismatch), put u (replicate 80 0) alice_two)"
proof -
  have "uuid_at sample 12 \<in> set (in_BlockUUIDs (new_inode sample 6 [7]))"
    by (simp add: new_inode_def block_num_def BlockSize_def)
  note detect = tampered_block_detected [where w = alice_two and fn = "''g''" and content = "[7]",
      OF sample_crypto_ok sample_uuid_ok _ _ this, unfolded alice_two_ids(2), OF alice_two_view alice_two_distinct]
  show ?thesis using detect [of "[0]"] detect [of "replicate 80 0"] zero_block_unauthentic by auto
qed

lemma after_store_blocks:
  assumes "crypto_ok X" "can_store X fn content w"
  shows "blocks_at X (store_of (after_store X fn content w)) (file_keys X (rand_at X (draws w) 16))
    (in_BlockUUIDs (new_inode X (draws w) content)) (map fb_block (ByteToBlock content))"
proof -
  let ?fks = "file_keys X (rand_at X (draws w) 16)"
  have "blocks_at X (store_of (after_store X fn content w)) ?fks (map fst (block_puts X ?fks (draws w + 6) (ByteToBlock content)))
      (map fb_block (ByteToBlock content))"
    unfolding after_store_sel
    by (rule blocks_at_puts [OF assms(1)], rule store_of_put_all_in [OF _ after_store_distinct [OF assms(2)]])
      (simp add: store_puts_def Let_def)
  then show ?thesis by (simp add: fst_block_puts new_inode_def length_ByteToBlock)
qed

text \<open>A view after one of its blocks was replaced by a payload that is sealed under the key of the file.\<close>

lemma view_replace_block:
  assumes "view X (store_of w) u fn a node inode content" "distinct (view_ids X u fn a node inode)"
    and "blocks_at X (store_of w) (file_keys X (mb_FileKey node)) (in_BlockUUIDs inode) bs"
    and "i < length bs" "sealed_block X (store_of w) (file_keys X (mb_FileKey node)) v b" "store_of w v = Some p"
  shows "view X (store_of (put (in_BlockUUIDs inode ! i) p w)) u fn a node inode (concat (bs[i := b]))"
proof -
  let ?u = "in_BlockUUIDs inode ! i" and ?\<sigma> = "store_of (put (in_BlockUUIDs inode ! i) p w)"
  have i: "i < length (in_BlockUUIDs inode)" using assms(3,4) list_all2_lengthD by fastforce
  then have u: "?u \<in> set (in_BlockUUIDs inode)" by simp
  have "access_at X ?\<sigma> u fn a" "mailbox_at X ?\<sigma> (ac_MymailboxUUID a) (ac_MymailboxKey a) node"
    "inode_at X ?\<sigma> (mb_FileKey node) (mb_InodeUUID node) inode"
    using assms(1,2) u unfolding view_def file_at_def access_at_def mailbox_at_def inode_at_def sealed_at_def
    by (auto simp: view_ids_def)
  moreover have "sealed_block X ?\<sigma> (file_keys X (mb_FileKey node)) (in_BlockUUIDs inode ! k) (bs[i := b] ! k)"
    if "k < length (in_BlockUUIDs inode)" for k
  proof (cases "k = i")
    case True
    then show ?thesis using assms(4-6) by (auto simp: sealed_block_def)
  next
    case False
    with that i assms(2) have "in_BlockUUIDs inode ! k \<noteq> ?u" by (simp add: view_ids_def nth_eq_iff_index_eq)
    moreover have "sealed_block X (store_of w) (file_keys X (mb_FileKey node)) (in_BlockUUIDs inode ! k) (bs ! k)"
      using list_all2_nthD [OF assms(3) that] .
    ultimately show ?thesis using False by (simp add: sealed_block_def)
  qed
  then have "blocks_at X ?\<sigma> (file_keys X (mb_FileKey node)) (in_BlockUUIDs inode) (bs[i := b])"
    using list_all2_lengthD [OF assms(3)] by (intro list_all2_all_nthI) simp_all
  ultimately show ?thesis by (auto simp: view_def file_at_def)
qed

text \<open>
  C24: a block does not say where in the file it belongs. Whoever can write to the storage
  may, without any key, copy the record of one block of a stored file over that of another: \<open>LoadFile\<close> then
  reports success and returns the content with that block in the place of the other.
\<close>

theorem replayed_block_accepted:
  assumes "crypto_ok X" "uuid_ok X" "can_store X fn content w"
    and "StoreFile X memory_services fn content w = (r, w')"
    and "i < length (ByteToBlock content)" "j < length (ByteToBlock content)"
  shows "\<exists>p. store_of w' (uuid_at X (draws w + 6 + 2 * j)) = Some p
    \<and> LoadFile X memory_services fn (put (uuid_at X (draws w + 6 + 2 * i)) p w')
      = (Ok (concat ((map fb_block (ByteToBlock content))[i := fb_block (ByteToBlock content ! j)])),
         put (uuid_at X (draws w + 6 + 2 * i)) p w')"
proof -
  let ?a = "new_access X (draws w)" and ?n = "new_node X (draws w)" and ?i = "new_inode X (draws w) content"
  let ?bs = "map fb_block (ByteToBlock content)"
  have w': "w' = after_store X fn content w"
    using StoreFile_after [OF assms(1,2), of w fn content] assms(3,4) by (simp add: can_store_def)
  have view: "view X (store_of w') (self w') fn ?a ?n ?i content"
    unfolding w' by (rule after_store_view [OF assms(1-3)])
  have "view_ids X (self w') fn ?a ?n ?i = view_ids X (self w) fn ?a ?n ?i" by (simp add: w' view_ids_def)
  then have dist: "distinct (view_ids X (self w') fn ?a ?n ?i)" using new_view_distinct [OF assms(3)] by simp
  have blocks: "blocks_at X (store_of w') (file_keys X (mb_FileKey ?n)) (in_BlockUUIDs ?i) ?bs"
    unfolding w' using after_store_blocks [OF assms(1,3)] by (simp add: new_node_def)
  have uuid: "in_BlockUUIDs ?i ! k = uuid_at X (draws w + 6 + 2 * k)" if "k < length (ByteToBlock content)" for k
    using that by (simp add: new_inode_def length_ByteToBlock)
  have "sealed_block X (store_of w') (file_keys X (mb_FileKey ?n)) (in_BlockUUIDs ?i ! j) (?bs ! j)"
    using list_all2_nthD2 [OF blocks] assms(6) by simp
  moreover from this obtain p where p: "store_of w' (in_BlockUUIDs ?i ! j) = Some p" by (auto simp: sealed_block_def)
  ultimately have "view X (store_of (put (in_BlockUUIDs ?i ! i) p w')) (self w') fn ?a ?n ?i (concat (?bs[i := ?bs ! j]))"
    using assms(5) by (intro view_replace_block [OF view dist blocks]) simp_all
  then have "LoadFile X memory_services fn (put (in_BlockUUIDs ?i ! i) p w')
      = (Ok (concat (?bs[i := ?bs ! j])), put (in_BlockUUIDs ?i ! i) p w')"
    by (intro LoadFile_view [OF assms(1,2)]) simp
  with p show ?thesis using assms(5,6) by (simp only: uuid) simp
qed

theorem replayed_block_accepted_witness:
  "\<exists>w' p. StoreFile sample memory_services ''g'' (replicate 512 1 @ replicate 88 2) alice_session = (Ok (), w')
    \<and> LoadFile sample memory_services ''g'' w' = (Ok (replicate 512 1 @ replicate 88 2), w')
    \<and> store_of w' (uuid_at sample 14) = Some p
    \<and> fst (LoadFile sample memory_services ''g'' (put (uuid_at sample 12) p w')) = Ok (replicate 176 2)"
proof -
  let ?c = "replicate 512 1 @ replicate 88 (2 :: byte)"
  have n: "block_num 600 = 2" by (simp add: block_num_def BlockSize_def)
  have "fresh_uuids sample 6 (store_draws ?c) {access_uuid sample ''alice'' ''g'', user_uuid sample ''alice''}"
    by (rule sample_fresh) (auto simp: sample_ids_def sample_name_ids byte_of_char_def store_draws_def n)
  then have can: "can_store sample ''g'' ?c alice_session"
    using alice_names_distinct by (simp add: can_store_def)
  obtain w' where run: "StoreFile sample memory_services ''g'' ?c alice_session = (Ok (), w')"
    using StoreFile_after [OF sample_crypto_ok sample_uuid_ok, of alice_session] by simp
  then have "LoadFile sample memory_services ''g'' w' = (Ok ?c, w')"
    using StoreFile_after [OF sample_crypto_ok sample_uuid_ok, of alice_session "''g''" ?c]
      LoadFile_view [OF sample_crypto_ok sample_uuid_ok after_store_view [OF sample_crypto_ok sample_uuid_ok can]] by simp
  moreover have blocks: "map fb_block (ByteToBlock ?c) = [replicate 512 1, replicate 88 2]"
    by (simp add: ByteToBlock_def n numeral_2_eq_2 block_at_def slice_def BlockSize_def)
  have len: "length (ByteToBlock ?c) = 2"
    using arg_cong [OF blocks, of length] by (simp only: length_map list.size)
  moreover have "fb_block (ByteToBlock ?c ! 1) = map fb_block (ByteToBlock ?c) ! 1"
    by (subst nth_map) (simp_all only: len)
  then have "fb_block (ByteToBlock ?c ! 1) = replicate 88 2" by (simp only: blocks) simp
  note replayed = this
  from replayed_block_accepted [OF sample_crypto_ok sample_uuid_ok can run, of 0 1] len replayed
  obtain p where "store_of w' (uuid_at sample 14) = Some p"
    "LoadFile sample memory_services ''g'' (put (uuid_at sample 12) p w') = (Ok (replicate 176 2), put (uuid_at sample 12) p w')"
    by (auto simp: blocks simp flip: replicate_add)
  ultimately show ?thesis using run by fastforce
qed

lemma fetch_bad:
  assumes "store_of w ident = Some p" "keys = Ok ks" "decryptAndVerify X p (fst ks) (snd ks) = Err e"
  shows "fetch X memory_services ident missing keys wd wu dec w = (Err (wd e), w)"
  using assms by (cases ks) (simp add: fetch_def monad_simps)

text \<open>
  A record sealed under other keys. That the HMACs of the two MAC keys differ is only asked of the
  ciphertext that is stored.
\<close>

lemma decrypt_sealed_json:
  assumes "crypto_ok X" "p = sealed_json X i j ks"
  shows "decryptAndVerify X p (fst ks) (snd ks) = Ok (bytes_of_string (json_print j))"
    "mac_of X mk (ciphertext_of p) \<noteq> mac_of X (snd ks) (ciphertext_of p)
      \<Longrightarrow> decryptAndVerify X p ek mk = Err MACMismatch"
proof -
  note iv = length_rand_at [OF assms(1)]
  show "decryptAndVerify X p (fst ks) (snd ks) = Ok (bytes_of_string (json_print j))"
    using decrypt_seal_same [OF assms(1) iv, of i _ "fst ks" "snd ks"] by (simp add: assms(2) sealed_json_def)
  show "mac_of X mk (ciphertext_of p) \<noteq> mac_of X (snd ks) (ciphertext_of p)
      \<Longrightarrow> decryptAndVerify X p ek mk = Err MACMismatch"
    by (simp add: assms(2) sealed_json_def decrypt_seal [OF assms(1) iv] ciphertext_of_seal [OF assms(1)])
qed

lemma LoadFile_bad_access:
  assumes "crypto_ok X" "uuid_ok X" "length (u_MasterKey (self w)) = 16"
    and "store_of w (access_uuid X (u_Username (self w)) fn) = Some p" "p = sealed_json X i j ks"
    and "mac_of X (snd (personal_keys X (u_MasterKey (self w)) fn)) (ciphertext_of p) \<noteq> mac_of X (snd ks) (ciphertext_of p)"
  shows "LoadFile X memory_services fn w = (Err (Wrap ''failed to decrypt access'' MACMismatch), w)"
proof -
  have "getPersonalKey X (u_MasterKey (self w)) fn = Ok (personal_keys X (u_MasterKey (self w)) fn)"
    using assms(1,3) by (simp add: getPersonalKey_eq)
  note bad = fetch_bad [OF assms(4) this decrypt_sealed_json(2) [OF assms(1,5,6)]]
  show ?thesis
    by (simp add: LoadFile_def monad_simps hashed_access_uuid [OF assms(1,2)] bad)
qed

text \<open>
  C28: a file called \<open>userStruct\<close> cannot be read back. Its access record and the user struct
  share one identifier, so the \<open>saveUser\<close> at the end of \<open>StoreFile\<close> overwrites the record:
  \<open>StoreFile\<close> reports success, the record under the identifier of the file is the sealed user struct, and
  if the HMAC tells the MAC key of the file and that of the user apart on that very record, \<open>LoadFile\<close> fails.
\<close>

theorem userStruct_file_is_lost:
  assumes "crypto_ok X" "uuid_ok X" "length (u_MasterKey (self w)) = 16"
    and "StoreFile X memory_services ''userStruct'' content w = (r, w')"
  shows "r = Ok ()
    \<and> (\<exists>p. store_of w' (access_uuid X (u_Username (self w)) ''userStruct'') = Some p
      \<and> decryptAndVerify X p (fst (user_keys X (u_MasterKey (self w)))) (snd (user_keys X (u_MasterKey (self w))))
          = Ok (bytes_of_string (json_print (enc_user X (self w'))))
      \<and> (mac_of X (snd (personal_keys X (u_MasterKey (self w)) ''userStruct'')) (ciphertext_of p)
            \<noteq> mac_of X (snd (user_keys X (u_MasterKey (self w)))) (ciphertext_of p)
          \<longrightarrow> LoadFile X memory_services ''userStruct'' w' = (Err (Wrap ''failed to decrypt access'' MACMismatch), w')))"
proof -
  let ?u = "self w" and ?i = "draws w + 7 + 2 * block_num (length content)"
  let ?p = "sealed_json X ?i (enc_user X (with_file X ?u ''userStruct'')) (user_keys X (u_MasterKey ?u))"
  have w': "r = Ok ()" "w' = after_store X ''userStruct'' content w"
    using StoreFile_after [OF assms(1-3)] assms(4) by auto
  have "store_of w' (user_uuid X (u_Username ?u)) = Some ?p"
    unfolding w' after_store_sel by (simp add: store_puts_def Let_def put_all_append)
  then have stored: "store_of w' (access_uuid X (u_Username ?u) ''userStruct'') = Some ?p"
    by (simp add: access_uuid_def user_uuid_def)
  have self: "u_MasterKey (self w') = u_MasterKey ?u" "u_Username (self w') = u_Username ?u"
    "self w' = with_file X ?u ''userStruct''" by (simp_all add: w')
  have "LoadFile X memory_services ''userStruct'' w' = (Err (Wrap ''failed to decrypt access'' MACMismatch), w')"
    if "mac_of X (snd (personal_keys X (u_MasterKey ?u) ''userStruct'')) (ciphertext_of ?p)
      \<noteq> mac_of X (snd (user_keys X (u_MasterKey ?u))) (ciphertext_of ?p)"
    using that stored assms(3)
    by (intro LoadFile_bad_access [where w = w' and p = ?p, OF assms(1,2) _ _ refl]) (simp_all only: self(1,2) not_False_eq_True)
  then show ?thesis
    using w'(1) stored decrypt_sealed_json(1) [OF assms(1) refl] unfolding self(3) by blast
qed

theorem userStruct_file_is_lost_witness:
  "\<exists>w'. StoreFile sample memory_services ''userStruct'' [1] alice_session = (Ok (), w')
    \<and> LoadFile sample memory_services ''userStruct'' w'
        = (Err (Wrap ''failed to decrypt access'' MACMismatch), w')"
proof -
  have "mac_of sample (snd (personal_keys sample (u_MasterKey alice) ''userStruct'')) ct
      \<noteq> mac_of sample (snd (user_keys sample (u_MasterKey alice))) ct" for ct
    by (simp add: mac_of_def sample_hmac_eq aes_key_def)
      (simp add: sample_def user_keys_def personal_keys_def alice_def new_user_def master_key_def pad_def mix_def
        bytes_of_string_def byte_of_char_def Let_def)
  moreover obtain w' where run: "StoreFile sample memory_services ''userStruct'' [1] alice_session = (Ok (), w')"
    using StoreFile_after [OF sample_crypto_ok sample_uuid_ok, of alice_session] by simp
  ultimately show ?thesis
    using userStruct_file_is_lost [OF sample_crypto_ok sample_uuid_ok _ run] by (metis alice_session_sel(1) alice_sel(2))
qed


text \<open>
  C29: identifiers collide across users. The access record of a file lies at the hash of the
  user name followed by the file name, with nothing between them; if \<open>n @ f = m @ g\<close>, a
  \<open>StoreFile\<close> of \<open>f\<close> by user \<open>n\<close> succeeds and puts its record, sealed under the keys of \<open>n\<close>, where user
  \<open>m\<close> looks for \<open>g\<close>; if the HMAC tells the MAC keys of the two apart on that record, the \<open>LoadFile\<close> of \<open>m\<close> fails
  from then on.
\<close>

theorem concatenated_names_collide:
  assumes "crypto_ok X" "uuid_ok X" "can_store X fn content w"
    and "StoreFile X memory_services fn content w = (r, w')"
    and "u_Username (self w) @ fn = u_Username v @ g" "length (u_MasterKey v) = 16"
  shows "r = Ok ()
    \<and> (\<exists>p. store_of w' (access_uuid X (u_Username v) g) = Some p
      \<and> decryptAndVerify X p (fst (personal_keys X (u_MasterKey (self w)) fn)) (snd (personal_keys X (u_MasterKey (self w)) fn))
          = Ok (bytes_of_string (json_print (enc_access X (new_access X (draws w)))))
      \<and> (mac_of X (snd (personal_keys X (u_MasterKey v) g)) (ciphertext_of p)
            \<noteq> mac_of X (snd (personal_keys X (u_MasterKey (self w)) fn)) (ciphertext_of p)
          \<longrightarrow> LoadFile X memory_services g (w'\<lparr>self := v\<rparr>)
            = (Err (Wrap ''failed to decrypt access'' MACMismatch), w'\<lparr>self := v\<rparr>)))"
proof -
  let ?p = "sealed_json X (draws w + 5) (enc_access X (new_access X (draws w))) (personal_keys X (u_MasterKey (self w)) fn)"
  have w': "r = Ok ()" "w' = after_store X fn content w"
    using StoreFile_after [OF assms(1,2), of w fn content] assms(3,4) by (auto simp: can_store_def)
  have "store_of w' (access_uuid X (u_Username (self w)) fn) = Some ?p"
    unfolding w' after_store_sel
    by (rule store_of_put_all_in [OF _ after_store_distinct [OF assms(3)]]) (simp add: store_puts_def Let_def)
  moreover have "access_uuid X (u_Username (self w)) fn = access_uuid X (u_Username v) g"
    by (simp only: access_uuid_def assms(5))
  ultimately have stored: "store_of w' (access_uuid X (u_Username v) g) = Some ?p" by simp
  have "LoadFile X memory_services g (w'\<lparr>self := v\<rparr>)
      = (Err (Wrap ''failed to decrypt access'' MACMismatch), w'\<lparr>self := v\<rparr>)"
    if "mac_of X (snd (personal_keys X (u_MasterKey v) g)) (ciphertext_of ?p)
      \<noteq> mac_of X (snd (personal_keys X (u_MasterKey (self w)) fn)) (ciphertext_of ?p)"
    using that stored assms(6)
    by (intro LoadFile_bad_access [where w = "w'\<lparr>self := v\<rparr>" and p = ?p, OF assms(1,2) _ _ refl]) simp_all
  then show ?thesis using w'(1) stored decrypt_sealed_json(1) [OF assms(1) refl] by blast
qed

theorem concatenated_names_collide_witness:
  "\<exists>w'. StoreFile sample memory_services ''f'' [1] alice_session = (Ok (), w')
    \<and> LoadFile sample memory_services ''ef'' (w'\<lparr>self := new_user sample ''alic'' ''zz'' 0\<rparr>)
      = (Err (Wrap ''failed to decrypt access'' MACMismatch), w'\<lparr>self := new_user sample ''alic'' ''zz'' 0\<rparr>)"
proof -
  let ?v = "new_user sample ''alic'' ''zz'' 0"
  have can: "can_store sample ''f'' [1] alice_session"
    by (rule alice_can_store) (simp_all add: sample_ids_def)
  have "mac_of sample (snd (personal_keys sample (u_MasterKey ?v) ''ef'')) ct
      \<noteq> mac_of sample (snd (personal_keys sample (u_MasterKey (self alice_session)) ''f'')) ct" for ct
    by (simp add: mac_of_def sample_hmac_eq aes_key_def)
      (simp add: sample_def personal_keys_def alice_def new_user_def master_key_def pad_def mix_def
        bytes_of_string_def byte_of_char_def Let_def)
  moreover obtain w' where run: "StoreFile sample memory_services ''f'' [1] alice_session = (Ok (), w')"
    using StoreFile_after [OF sample_crypto_ok sample_uuid_ok, of alice_session] by simp
  ultimately have "LoadFile sample memory_services ''ef'' (w'\<lparr>self := ?v\<rparr>)
      = (Err (Wrap ''failed to decrypt access'' MACMismatch), w'\<lparr>self := ?v\<rparr>)"
    using concatenated_names_collide [OF sample_crypto_ok sample_uuid_ok can run, of ?v "''ef''"]
    by (auto simp: new_user_def)
  with run show ?thesis by blast
qed

text \<open>
  \<open>ListFiles\<close> after \<open>StoreFile\<close> lists the names of before together with the new one, each
  once.
\<close>

theorem list_after_store:
  assumes "crypto_ok X" "uuid_ok X" "order_ok X" "length (u_MasterKey (self w)) = 16"
    and "gm_wf (files_of (self w))" "StoreFile X memory_services fn content w = (r, w')"
  shows "\<exists>names w''. ListFiles X w' = (Ok names, w'') \<and> distinct names
    \<and> set names = insert fn (fst ` set (files_of (self w)))"
proof -
  let ?m = "gm_set fn (access_uuid X (u_Username (self w)) fn) (files_of (self w))"
  have "self w' = with_file X (self w) fn"
    using StoreFile_after [OF assms(1,2,4)] assms(6) by auto
  then have "ListFiles X w' = (Ok (x_range_order X (draws w') (gm_keys ?m)), w'\<lparr>draws := Suc (draws w')\<rparr>)"
    by (simp add: ListFiles_def monad_simps with_file_def range_keys_eq)
  moreover have "distinct (gm_keys ?m)"
    using gm_wf_distinct [OF gm_wf_set [OF assms(5)]] by (simp add: gm_keys_def)
  moreover have "set (gm_keys ?m) = insert fn (fst ` set (files_of (self w)))"
    by (simp add: gm_keys_def set_gm_set)
  ultimately show ?thesis using assms(3) by (simp add: order_ok_def)
qed

theorem list_after_store_witness:
  "\<exists>w' w''. StoreFile sample memory_services ''f'' [1] alice_session = (Ok (), w')
    \<and> ListFiles sample w' = (Ok [''f''], w'')"
proof -
  obtain w' where run: "StoreFile sample memory_services ''f'' [1] alice_session = (Ok (), w')"
    using StoreFile_after [OF sample_crypto_ok sample_uuid_ok, of alice_session] by simp
  obtain names w'' where "ListFiles sample w' = (Ok names, w'')" "distinct names" "set names = {''f''}"
    using list_after_store [OF sample_crypto_ok sample_uuid_ok sample_order_ok _ _ run]
    by (auto simp: files_of_def)
  moreover have "names = [''f'']"
    using distinct_card [OF calculation(2)] calculation(2,3) by (cases names) (auto simp: subset_singleton_iff)
  ultimately show ?thesis using run by blast
qed

end
