(* ===== verification/Crypto_Properties.thy ===== *)
theory Crypto_Properties
  imports File_Properties
begin

text \<open>
  What the lower layers promise: cutting a file into blocks and joining it, encrypt-then-MAC,
  AES in counter mode, the JSON text of the user struct; and two weaknesses of them, a panic
  on short ciphertexts and the constant keys of a mailbox key of the wrong length.
\<close>

text \<open>
  C27: cutting and joining. \<open>ByteToBlock\<close> makes one block per started 512 bytes, every block but
  the last has exactly 512 bytes and none is empty, and \<open>BlockYToByte\<close> with the size of the data
  gives the data back.
\<close>

theorem blocks_roundtrip:
  "BlockYToByte (Some (ByteToBlock data)) (int (length data)) = data
   \<and> length (ByteToBlock data) = (length data + 511) div 512
   \<and> (\<forall>i < length (ByteToBlock data). 0 < length (fb_block (ByteToBlock data ! i))
        \<and> length (fb_block (ByteToBlock data ! i)) \<le> 512
        \<and> (Suc i < length (ByteToBlock data) \<longrightarrow> length (fb_block (ByteToBlock data ! i)) = 512))"
proof -
  have nth: "fb_block (ByteToBlock data ! i) = chunks data ! i" if "i < length (ByteToBlock data)" for i
    using that by (simp flip: ByteToBlock_chunks)
  have len: "length (chunks data) = length (ByteToBlock data)"
    by (simp flip: ByteToBlock_chunks)
  have "ByteToBlock data = [] \<longleftrightarrow> data = []"
    using concat_ByteToBlock [of data] by (cases "ByteToBlock data") (auto simp: ByteToBlock_def)
  then have "BlockYToByte (Some (ByteToBlock data)) (int (length data)) = data"
    by (simp add: BlockYToByte_def Let_def)
  then show ?thesis
    using chunk_sizes [of _ data] chunk_full [of _ data]
    by (simp add: nth len length_ByteToBlock block_num_def) (auto simp: BlockSize_def len length_ByteToBlock block_num_def)
qed

theorem blocks_roundtrip_witness:
  "BlockYToByte (Some (ByteToBlock [1, 2, 3])) 3 = [1, 2, 3] \<and> length (ByteToBlock [1, 2, 3]) = 1"
  using blocks_roundtrip [of "[1, 2, 3]"] by simp

text \<open>
  C25: \<open>decryptAndVerify\<close> undoes \<open>encryptAndMAC\<close>, for keys of any length: the payload is 80 bytes
  longer than the data, and decrypting it with the same pair of keys gives the data back.
\<close>

theorem encrypt_then_decrypt:
  assumes "crypto_ok X"
  shows "\<exists>payload. encryptAndMAC X data encKey macKey s = (Ok payload, s\<lparr>draws := draws s + 1\<rparr>)
    \<and> length payload = length data + 80
    \<and> decryptAndVerify X payload encKey macKey = Ok data"
  using encryptAndMAC_ok [OF assms, of data encKey macKey s] length_seal [OF assms length_rand_at [OF assms]]
    decrypt_seal_same [OF assms length_rand_at [OF assms]]
  by (auto intro!: exI [of _ "seal X (rand_at X (draws s) 16) data (encKey, macKey)"])

theorem encrypt_then_decrypt_witness:
  "\<exists>payload. encryptAndMAC sample [1, 2] [3] [4] (\<lparr>draws = 0\<rparr> :: entropy) = (Ok payload, \<lparr>draws = 1\<rparr>)
    \<and> decryptAndVerify sample payload [3] [4] = Ok [1, 2]"
  using encrypt_then_decrypt [OF sample_crypto_ok, of "[1, 2]" "[3]" "[4]" "\<lparr>draws = 0\<rparr>"] by auto



text \<open>
  A short ciphertext is not an error but a crash. A payload of 64 to 79 bytes whose HMAC is
  right makes \<open>decryptAndVerify\<close> panic inside \<open>SymDec\<close> instead of returning an error.
\<close>

theorem short_ciphertext_panics:
  assumes "crypto_ok X" "length c < 16"
  shows "decryptAndVerify X (c @ mac_of X macKey c) encKey macKey = Panic ''ciphertext too short''"
  using assms
  by (simp add: decryptAndVerify_eq ciphertext_of_def macLen_def symDec_def AESBlockSizeBytes_def cipher_key_ok_def)

theorem short_ciphertext_panics_witness:
  "decryptAndVerify sample (mac_of sample [2] []) [1] [2] = Panic ''ciphertext too short''"
  using short_ciphertext_panics [OF sample_crypto_ok, of "[]" "[2]" "[1]"] by simp

text \<open>
  C35: the keys of a mailbox are public when its key has the wrong length. \<open>HashKDF\<close> refuses keys
  that do not have 16 bytes, \<open>getMailKeys\<close> drops the error, and both keys are then empty - the
  same for every such mailbox, so anybody can seal a mailbox that verifies under them.
\<close>

theorem bad_mailbox_key_is_public:
  assumes "crypto_ok X" "length key \<noteq> 16" "length key' \<noteq> 16" "length iv = 16"
  shows "getMailKeys X key = getMailKeys X key'
    \<and> decryptAndVerify X (seal X iv data ([], [])) (fst (getMailKeys X key)) (snd (getMailKeys X key)) = Ok data"
  using assms by (simp add: getMailKeys_bad)

theorem bad_mailbox_key_is_public_witness:
  "getMailKeys sample [1] = getMailKeys sample []"
  using bad_mailbox_key_is_public [OF sample_crypto_ok, of "[1]" "[]" "replicate 16 0" "[]"] by simp

text \<open>
  AES in counter mode. Decryption inverts encryption for every key size AES takes and every
  length of data, the ciphertext is the IV followed by as many bytes as the data has, and a
  wrong IV length, key size or short ciphertext panics.
\<close>

theorem counter_mode:
  assumes "crypto_ok X" "length key \<in> {16, 24, 32}"
  shows "(length iv = 16 \<longrightarrow> (\<exists>c. symEnc X key iv data = Ok (iv @ c) \<and> length c = length data
        \<and> symDec X key (iv @ c) = Ok data))
    \<and> (length iv \<noteq> 16 \<longrightarrow> symEnc X key iv data = Panic ''IV length not equal to AESBlockSizeBytes'')
    \<and> (length ct < 16 \<longrightarrow> symDec X key ct = Panic ''ciphertext too short'')"
  using assms by (auto simp: symEnc_def symDec_def AESBlockSizeBytes_def cipher_key_ok_def
      length_XORKeyStream XORKeyStream_twice)

theorem counter_mode_witness:
  "\<exists>c. symEnc sample (replicate 16 1) (replicate 16 0) [5] = Ok (replicate 16 0 @ c)
    \<and> symDec sample (replicate 16 1) (replicate 16 0 @ c) = Ok [5]"
  using counter_mode [OF sample_crypto_ok, of "replicate 16 1" "replicate 16 0" "[5]" "[]"] by auto

text \<open>
  The user struct survives its JSON text, byte for byte through \<open>encoding/json\<close>: private keys
  of any size, the master key in base64, and the map of files with the UUIDs as text.
\<close>

theorem user_json_roundtrip:
  assumes "uuid_ok X" "user_wf u"
  shows "\<exists>b. marshal (enc_user X u) = Ok b \<and> unmarshal (dec_user X) b = Ok u"
proof -
  have "unmarshal (dec_user X) (bytes_of_string (json_print (enc_user X u))) = Ok u"
    by (intro unmarshal_marshal user_codec assms)
  then show ?thesis by (simp add: marshal_def)
qed

theorem user_json_roundtrip_witness:
  "\<exists>b. marshal (enc_user sample alice) = Ok b \<and> unmarshal (dec_user sample) b = Ok alice"
  by (rule user_json_roundtrip [OF sample_uuid_ok alice_wf])

end
