(* ===== verification/Invitation_Service.thy ===== *)
theory Invitation_Service
  imports File_Service
begin

text \<open>
  \<open>InvitationService\<close> of \<open>internal/client/encryption/service.go\<close>: \<open>CreateInvitation\<close>,
  \<open>AcceptInvitation\<close> and \<open>RevokeAccess\<close>, statement by statement over a session.
\<close>

text \<open>\<open>k.(userlib.PKEEncKey)\<close>: a type assertion without \<open>ok\<close>, which panics on another type.\<close>

definition assert_key :: "iface \<Rightarrow> ('s, go_error, PublicKeyType) comp" where
  "assert_key v = (case v of
     AsPublicKey k \<Rightarrow> ret k
   | AsOther t \<Rightarrow> go_panic ''interface conversion'')"

text \<open>\<open>access.Children[name] = info\<close>; assigning into a nil map panics.\<close>

definition set_child :: "string \<Rightarrow> ChildrenInfo \<Rightarrow> Access \<Rightarrow> ('s, go_error, Access) comp" where
  "set_child name info access = (case ac_Children access of
     None \<Rightarrow> go_panic ''assignment to entry in nil map''
   | Some m \<Rightarrow> ret (access\<lparr>ac_Children := Some (gm_set name info m)\<rparr>))"

definition CreateInvitation :: "ext \<Rightarrow> 'b services \<Rightarrow> string \<Rightarrow> string \<Rightarrow> ('b session, go_error, UUID) comp" where
  "CreateInvitation X S filename recipientUsername =
     bnd (gets self) (\<lambda>userdata.
     bnd (map_err (Wrap ''failed to generate access UUID'')
            (lift_outcome (hashed_UUID X (u_Username userdata @ filename)))) (\<lambda>accessUUID.
     bnd (fetch X S accessUUID (FileNotFound filename (u_Username userdata))
            (getPersonalKey X (u_MasterKey userdata) filename)
            (Wrap ''failed to decrypt access'') (Wrap ''failed to unmarshal access'')
            (dec_access X)) (\<lambda>(access, pEncKey, pMacKey).
     bnd (fetch X S (ac_MymailboxUUID access) (MailboxNotFound filename)
            (Ok (getMailKeys X (ac_MymailboxKey access)))
            (Wrap ''failed to decrypt mailbox'') (Wrap ''failed to unmarshal mailbox'')
            (dec_mailbox X)) (\<lambda>(myMailbox, _).
     bnd (uuid_New X) (\<lambda>recipientMailboxUUID.
     bnd (randomBytes X 16) (\<lambda>recipientMailboxKey.
     let recipientMailbox = \<lparr>mb_FileKey = mb_FileKey myMailbox, mb_InodeUUID = mb_InodeUUID myMailbox\<rparr> in
     bnd (map_err (Wrap ''failed to marshal recipient mailbox'')
            (lift_outcome (marshal (enc_mailbox X recipientMailbox)))) (\<lambda>recipientMailboxBytes.
     let (rmEncKey, rmMacKey) = getMailKeys X recipientMailboxKey in
     bnd (map_err (Wrap ''failed to encrypt recipient mailbox'')
            (encryptAndMAC X recipientMailboxBytes rmEncKey rmMacKey)) (\<lambda>recipientMailboxPayload.
     bnd (storage_Set S recipientMailboxUUID recipientMailboxPayload) (\<lambda>_.
     bnd (keyStore_Get S (recipientUsername @ ''_enc_pub'')) (\<lambda>found. case found of
       None \<Rightarrow> raise (RecipientNotFound recipientUsername)
     | Some recipientPubkey \<Rightarrow>
     let invitation = \<lparr>inv_MailboxUUID = recipientMailboxUUID, inv_MailboxKey = recipientMailboxKey\<rparr> in
     bnd (map_err (Wrap ''failed to marshal invitation'')
            (lift_outcome (marshal (enc_invitation X invitation)))) (\<lambda>invBytes.
     bnd (assert_key recipientPubkey) (\<lambda>pubkey.
     bnd (map_err (Wrap ''failed to encrypt invitation'') (pkeEnc X pubkey invBytes)) (\<lambda>ciphertext.
     bnd (map_err (Wrap ''failed to sign invitation'')
            (lift_outcome (dsSign X (u_DSSignKey userdata) ciphertext))) (\<lambda>signature.
     bnd (uuid_New X) (\<lambda>invRandomPtr.
     bnd (storage_Set S invRandomPtr (ciphertext @ signature)) (\<lambda>_.
     bnd (set_child recipientUsername
            \<lparr>ch_MailboxUUID = recipientMailboxUUID, ch_MailboxKey = recipientMailboxKey\<rparr> access) (\<lambda>access'.
     bnd (map_err (Wrap ''failed to marshal access'')
            (lift_outcome (marshal (enc_access X access')))) (\<lambda>newAccessBytes.
     bnd (map_err (Wrap ''failed to encrypt access'')
            (encryptAndMAC X newAccessBytes pEncKey pMacKey)) (\<lambda>newAccessPayload.
     bnd (storage_Set S accessUUID newAccessPayload) (\<lambda>_.
     ret invRandomPtr))))))))))))))))))))"

definition AcceptInvitation :: "ext \<Rightarrow> 'b services \<Rightarrow> string \<Rightarrow> UUID \<Rightarrow> string \<Rightarrow> ('b session, go_error, unit) comp" where
  "AcceptInvitation X S senderUsername invitationPtr filename =
     bnd (gets self) (\<lambda>userdata.
     bnd (storage_Get S invitationPtr) (\<lambda>found. case found of
       None \<Rightarrow> raise (InvitationNotFound invitationPtr)
     | Some invitationPayload \<Rightarrow>
     if length invitationPayload < 256 then raise InvitationTooShort else
     let sigOffset = length invitationPayload - 256;
         ciphertext = take sigOffset invitationPayload;
         signature = drop sigOffset invitationPayload in
     bnd (keyStore_Get S (senderUsername @ ''_sig_pub'')) (\<lambda>found. case found of
       None \<Rightarrow> raise (SenderKeyNotFound senderUsername)
     | Some senderVerifyKey \<Rightarrow>
     bnd (assert_key senderVerifyKey) (\<lambda>vk.
     bnd (map_err (\<lambda>_. SignatureInvalid senderUsername)
            (lift_outcome (dsVerify X vk ciphertext signature))) (\<lambda>_.
     bnd (map_err (Wrap ''failed to decrypt invitation'')
            (lift_outcome (pkeDec X (u_PKEPrivateKey userdata) ciphertext))) (\<lambda>plaintext.
     bnd (map_err (Wrap ''failed to unmarshal invitation'')
            (lift_outcome (unmarshal (dec_invitation X) plaintext))) (\<lambda>getInvitation.
     let receiveAccess = \<lparr>ac_MymailboxUUID = inv_MailboxUUID getInvitation,
           ac_MymailboxKey = inv_MailboxKey getInvitation, ac_Children = Some []\<rparr> in
     bnd (map_err (Wrap ''failed to marshal access'')
            (lift_outcome (marshal (enc_access X receiveAccess)))) (\<lambda>currAccessPayload.
     bnd (lift_outcome (getPersonalKey X (u_MasterKey userdata) filename)) (\<lambda>(pEncKey, pMacKey).
     bnd (map_err (Wrap ''failed to encrypt access'')
            (encryptAndMAC X currAccessPayload pEncKey pMacKey)) (\<lambda>currAccessBytes.
     bnd (map_err (Wrap ''failed to generate access UUID'')
            (lift_outcome (hashed_UUID X (u_Username userdata @ filename)))) (\<lambda>accessUUID.
     bnd (storage_Set S accessUUID currAccessBytes) (\<lambda>_.
     bnd (set_file filename accessUUID) (\<lambda>_.
     save_self X S)))))))))))))"

text \<open>The first loop of \<open>RevokeAccess\<close>: every block is re-encrypted in place.\<close>

fun reencrypt_blocks :: "ext \<Rightarrow> 'b services \<Rightarrow> string \<Rightarrow> bytes \<times> bytes \<Rightarrow> bytes \<times> bytes \<Rightarrow> UUID list
    \<Rightarrow> (('b, 'z) world_scheme, go_error, unit) comp" where
  "reencrypt_blocks X S filename old new [] = ret ()"
| "reencrypt_blocks X S filename old new (u # us) =
     bnd (storage_Get S u) (\<lambda>found. case found of
       None \<Rightarrow> raise (BlockNotFound filename)
     | Some blockPayload \<Rightarrow>
         bnd (map_err (Wrap ''failed to decrypt block'')
                (lift_outcome (decryptAndVerify X blockPayload (fst old) (snd old)))) (\<lambda>plain.
         bnd (map_err (Wrap ''failed to encrypt block'') (encryptAndMAC X plain (fst new) (snd new))) (\<lambda>payload.
         bnd (storage_Set S u payload) (\<lambda>_.
         reencrypt_blocks X S filename old new us))))"

text \<open>
  The body of the loop over \<open>access.Children\<close>: the mailbox of a child that is kept gets the new
  file key. A child whose mailbox is missing, does not verify or does not parse is skipped.
\<close>

definition update_child :: "ext \<Rightarrow> 'b services \<Rightarrow> string \<Rightarrow> bytes \<Rightarrow> string \<times> ChildrenInfo
    \<Rightarrow> (('b, 'z) world_scheme, go_error, unit) comp" where
  "update_child X S recipientUsername newFileKey child = (case child of (childUsername, childInfo) \<Rightarrow>
     if childUsername = recipientUsername then ret () else
     bnd (storage_Get S (ch_MailboxUUID childInfo)) (\<lambda>found. case found of
       None \<Rightarrow> ret ()
     | Some childMailboxPayload \<Rightarrow>
     let (cmEncKey, cmMacKey) = getMailKeys X (ch_MailboxKey childInfo) in
     bnd (attempt (lift_outcome (decryptAndVerify X childMailboxPayload cmEncKey cmMacKey))) (\<lambda>plain.
     case plain of None \<Rightarrow> ret () | Some childMailboxBytes \<Rightarrow>
     bnd (attempt (lift_outcome (unmarshal (dec_mailbox X) childMailboxBytes))) (\<lambda>parsed.
     case parsed of None \<Rightarrow> ret () | Some childMailbox \<Rightarrow>
     bnd (map_err (Wrap ''failed to marshal child mailbox'')
            (lift_outcome (marshal (enc_mailbox X (childMailbox\<lparr>mb_FileKey := newFileKey\<rparr>))))) (\<lambda>updated.
     bnd (map_err (Wrap ''failed to encrypt child mailbox'')
            (encryptAndMAC X updated cmEncKey cmMacKey)) (\<lambda>updatedPayload.
     storage_Set S (ch_MailboxUUID childInfo) updatedPayload))))))"

text \<open>\<open>for childUsername, childInfo := range access.Children\<close>; a nil map has no entries.\<close>

definition children_entries :: "ext \<Rightarrow> (string, ChildrenInfo) gomap option
    \<Rightarrow> ('z entropy_scheme, go_error, (string \<times> ChildrenInfo) list) comp" where
  "children_entries X children = (case children of
     None \<Rightarrow> ret []
   | Some m \<Rightarrow> bnd (range_keys X m) (\<lambda>ks. ret (map (\<lambda>k. (k, the (map_of m k))) ks)))"

text \<open>\<open>delete(access.Children, name)\<close>; on a nil map it does nothing.\<close>

definition delete_child :: "string \<Rightarrow> (string, ChildrenInfo) gomap option \<Rightarrow> (string, ChildrenInfo) gomap option" where
  "delete_child name children = map_option (gm_del name) children"

definition RevokeAccess :: "ext \<Rightarrow> 'b services \<Rightarrow> string \<Rightarrow> string \<Rightarrow> ('b session, go_error, unit) comp" where
  "RevokeAccess X S filename recipientUsername =
     bnd (gets self) (\<lambda>userdata.
     bnd (map_err (Wrap ''failed to generate access UUID'')
            (lift_outcome (hashed_UUID X (u_Username userdata @ filename)))) (\<lambda>accessUUID.
     bnd (fetch X S accessUUID (FileNotFound filename (u_Username userdata))
            (getPersonalKey X (u_MasterKey userdata) filename)
            (Wrap ''failed to decrypt access'') (Wrap ''failed to unmarshal access'')
            (dec_access X)) (\<lambda>(access, pEncKey, pMacKey).
     bnd (fetch X S (ac_MymailboxUUID access) (MailboxNotFound filename)
            (Ok (getMailKeys X (ac_MymailboxKey access)))
            (Wrap ''failed to decrypt mailbox'') (Wrap ''failed to unmarshal mailbox'')
            (dec_mailbox X)) (\<lambda>(myMailbox, _).
     bnd (randomBytes X 16) (\<lambda>newFileKey.
     bnd (lift_outcome (getFileKeys X newFileKey)) (\<lambda>newKeys.
     bnd (fetch X S (mb_InodeUUID myMailbox) (InodeNotFound filename)
            (getFileKeys X (mb_FileKey myMailbox))
            (Wrap ''failed to decrypt inode'') (Wrap ''failed to unmarshal inode'')
            (dec_inode X)) (\<lambda>(inode, oldKeys).
     bnd (reencrypt_blocks X S filename oldKeys newKeys (in_BlockUUIDs inode)) (\<lambda>_.
     bnd (map_err (Wrap ''failed to marshal inode'')
            (lift_outcome (marshal (enc_inode X inode)))) (\<lambda>newInodeBytes.
     bnd (map_err (Wrap ''failed to encrypt inode'')
            (encryptAndMAC X newInodeBytes (fst newKeys) (snd newKeys))) (\<lambda>newInodePayload.
     bnd (storage_Set S (mb_InodeUUID myMailbox) newInodePayload) (\<lambda>_.
     bnd (randomBytes X 16) (\<lambda>newMailboxKey.
     bnd (uuid_New X) (\<lambda>newMailboxUUID.
     let newMailbox = \<lparr>mb_FileKey = newFileKey, mb_InodeUUID = mb_InodeUUID myMailbox\<rparr> in
     bnd (map_err (Wrap ''failed to marshal mailbox'')
            (lift_outcome (marshal (enc_mailbox X newMailbox)))) (\<lambda>newMailboxBytes.
     let (nmEncKey, nmMacKey) = getMailKeys X newMailboxKey in
     bnd (map_err (Wrap ''failed to encrypt mailbox'')
            (encryptAndMAC X newMailboxBytes nmEncKey nmMacKey)) (\<lambda>newMailboxPayload.
     bnd (storage_Set S newMailboxUUID newMailboxPayload) (\<lambda>_.
     bnd (children_entries X (ac_Children access)) (\<lambda>children.
     bnd (for_each (update_child X S recipientUsername newFileKey) children) (\<lambda>_.
     let access' = \<lparr>ac_MymailboxUUID = newMailboxUUID, ac_MymailboxKey = newMailboxKey,
           ac_Children = delete_child recipientUsername (ac_Children access)\<rparr> in
     bnd (map_err (Wrap ''failed to marshal access'')
            (lift_outcome (marshal (enc_access X access')))) (\<lambda>newAccessBytes.
     bnd (map_err (Wrap ''failed to encrypt access'')
            (encryptAndMAC X newAccessBytes pEncKey pMacKey)) (\<lambda>newAccessPayload.
     bnd (storage_Set S accessUUID newAccessPayload) (\<lambda>_.
     bnd (set_file filename accessUUID) (\<lambda>_.
     save_self X S))))))))))))))))))))))"

end
