(* ===== verification/Invitation_Correct.thy ===== *)
theory Invitation_Correct
  imports Invitation_Service File_Correct
begin

text \<open>
  \<open>CreateInvitation\<close> and \<open>AcceptInvitation\<close> on the in-memory backend, in closed form, between
  users whose key pairs were generated and published by \<open>InitUser\<close>. The invitation is short
  enough for one RSA encryption; accepting it gives the recipient a second view of the same
  inode, through a mailbox of its own.
\<close>

section \<open>The length of an invitation\<close>

text \<open>Characters \<open>encoding/json\<close> copies: the invitation consists of these.\<close>

definition plain_code :: "nat \<Rightarrow> bool" where
  "plain_code k \<longleftrightarrow> k = 43 \<or> k = 45 \<or> k = 47 \<or> k = 61 \<or> 48 \<le> k \<and> k \<le> 57 \<or> 65 \<le> k \<and> k \<le> 90 \<or> 97 \<le> k \<and> k \<le> 122"

lemma escape_plain: "\<forall>c \<in> set s. plain_code (code c) \<Longrightarrow> json_escape s = s"
proof (induction s)
  case (Cons c s)
  then have "c \<noteq> ch_quote" "c \<noteq> ch_bslash" "code c < 128" "\<not> code c < 32" "code c \<notin> {10, 13, 9, 60, 62, 38}"
    by (auto simp: plain_code_def)
  then have "escape_ascii c = [c]" by (simp add: escape_ascii_def Let_def)
  with Cons \<open>code c < 128\<close> show ?case by (simp add: json_escape.simps(2))
qed (simp add: json_escape.simps)

lemma length_quote_plain: "\<forall>c \<in> set s. plain_code (code c) \<Longrightarrow> length (json_quote s) = length s + 2"
  by (simp add: json_quote_def escape_plain)

lemma length_quoted_bytes: "length (json_quote (b64_encode b)) = 4 * ((length b + 2) div 3) + 2"
proof -
  have "plain_code (code c)" if "c \<in> set (b64_encode b)" for c
    using b64_encode_codes [OF that] by (auto simp: b64_code_def plain_code_def)
  then show ?thesis by (simp add: length_quote_plain length_b64_encode)
qed

lemma length_quoted_uuid:
  assumes "uuid_ok X" "length u = 16"
  shows "length (json_quote (x_uuid_string X u)) = 38"
proof -
  have "plain_code (code c)" if "c \<in> set (x_uuid_string X u)" for c
    using assms that by (fastforce simp: uuid_ok_def plain_code_def)
  then show ?thesis using assms by (simp add: length_quote_plain uuid_ok_def)
qed

definition invitation_bytes :: "ext \<Rightarrow> Invitation \<Rightarrow> bytes" where
  "invitation_bytes X i = bytes_of_string (json_print (enc_invitation X i))"

text \<open>94 bytes: it fits the 126 bytes one OAEP encryption under a 2048-bit key can carry.\<close>

lemma length_invitation:
  assumes "uuid_ok X" "invitation_wf i" "length (inv_MailboxKey i) = 16"
  shows "length (invitation_bytes X i) = 94"
proof -
  have "length (json_quote ''MailboxUUID'') = 13" "length (json_quote ''MailboxKey'') = 12"
    by (subst length_quote_plain; auto simp: plain_code_def)+
  with assms show ?thesis
    using length_quoted_uuid [OF assms(1), of "inv_MailboxUUID i"] length_quoted_bytes [of "inv_MailboxKey i"]
    by (simp add: invitation_bytes_def enc_invitation_def enc_uuid_def enc_bytes_def invitation_wf_def)
qed

section \<open>Keys generated by the code\<close>

text \<open>A private key that \<open>InitUser\<close> generated, and the public key it published for it.\<close>

definition generated :: "ext \<Rightarrow> string \<Rightarrow> PrivateKeyType \<Rightarrow> bool" where
  "generated X tag sk \<longleftrightarrow> priv_KeyType sk = tag \<and> (\<exists>i. x_rsa_generate X i 2048 = Some (priv_PrivKey sk))"

definition published :: "string \<Rightarrow> PrivateKeyType \<Rightarrow> iface" where
  "published tag sk = AsPublicKey \<lparr>pub_KeyType = tag, pub_PubKey = rsa_PublicKey (priv_PrivKey sk)\<rparr>"

definition registered :: "ext \<Rightarrow> (string \<rightharpoonup> iface) \<Rightarrow> User \<Rightarrow> bool" where
  "registered X \<kappa> u \<longleftrightarrow> generated X ''PKE'' (u_PKEPrivateKey u) \<and> generated X ''DS'' (u_DSSignKey u)
     \<and> \<kappa> (u_Username u @ ''_enc_pub'') = Some (published ''PKE'' (u_PKEPrivateKey u))
     \<and> \<kappa> (u_Username u @ ''_sig_pub'') = Some (published ''DS'' (u_DSSignKey u))"

definition oaep :: "ext \<Rightarrow> nat \<Rightarrow> User \<Rightarrow> bytes \<Rightarrow> bytes" where
  "oaep X i u m = the (x_oaep_encrypt X i (rsa_PublicKey (priv_PrivKey (u_PKEPrivateKey u))) m)"

definition sig_of :: "ext \<Rightarrow> User \<Rightarrow> bytes \<Rightarrow> bytes" where
  "sig_of X u m = the (x_pkcs1_sign X (priv_PrivKey (u_DSSignKey u)) (x_sha512 X m))"

lemma oaep_ok:
  assumes "rsa_ok X" "registered X \<kappa> u" "length m \<le> 126"
  shows "x_oaep_encrypt X i (rsa_PublicKey (priv_PrivKey (u_PKEPrivateKey u))) m = Some (oaep X i u m)"
    "length (oaep X i u m) = 256" "pkeDec X (u_PKEPrivateKey u) (oaep X i u m) = Ok m"
proof -
  obtain c where "x_oaep_encrypt X i (rsa_PublicKey (priv_PrivKey (u_PKEPrivateKey u))) m = Some c"
    "length c = 256" "x_oaep_decrypt X (priv_PrivKey (u_PKEPrivateKey u)) c = Some m"
    using assms unfolding rsa_ok_def registered_def generated_def by metis
  then show "x_oaep_encrypt X i (rsa_PublicKey (priv_PrivKey (u_PKEPrivateKey u))) m = Some (oaep X i u m)"
    "length (oaep X i u m) = 256" "pkeDec X (u_PKEPrivateKey u) (oaep X i u m) = Ok m"
    using assms(2) by (simp_all add: oaep_def pkeDec_def registered_def generated_def)
qed

lemma signature_ok:
  assumes "rsa_ok X" "registered X \<kappa> u"
  shows "dsSign X (u_DSSignKey u) m = Ok (sig_of X u m)" "length (sig_of X u m) = 256"
    "dsVerify X \<lparr>pub_KeyType = ''DS'', pub_PubKey = rsa_PublicKey (priv_PrivKey (u_DSSignKey u))\<rparr> m (sig_of X u m) = Ok ()"
proof -
  obtain s where "x_pkcs1_sign X (priv_PrivKey (u_DSSignKey u)) (x_sha512 X m) = Some s" "length s = 256"
    "x_pkcs1_verify X (rsa_PublicKey (priv_PrivKey (u_DSSignKey u))) (x_sha512 X m) s"
    using assms unfolding rsa_ok_def registered_def generated_def by metis
  then show "dsSign X (u_DSSignKey u) m = Ok (sig_of X u m)" "length (sig_of X u m) = 256"
    "dsVerify X \<lparr>pub_KeyType = ''DS'', pub_PubKey = rsa_PublicKey (priv_PrivKey (u_DSSignKey u))\<rparr> m (sig_of X u m) = Ok ()"
    using assms(2) by (simp_all add: sig_of_def dsSign_def dsVerify_def registered_def generated_def)
qed

section \<open>CreateInvitation in closed form\<close>

definition child_of :: "ext \<Rightarrow> nat \<Rightarrow> ChildrenInfo" where
  "child_of X d = \<lparr>ch_MailboxUUID = uuid_at X d, ch_MailboxKey = rand_at X (d + 1) 16\<rparr>"

definition invitation_of :: "ext \<Rightarrow> nat \<Rightarrow> Invitation" where
  "invitation_of X d = \<lparr>inv_MailboxUUID = uuid_at X d, inv_MailboxKey = rand_at X (d + 1) 16\<rparr>"

definition children_of :: "Access \<Rightarrow> (string, ChildrenInfo) gomap" where
  "children_of a = (case ac_Children a of None \<Rightarrow> [] | Some m \<Rightarrow> m)"

definition shared_access :: "ext \<Rightarrow> nat \<Rightarrow> Access \<Rightarrow> string \<Rightarrow> Access" where
  "shared_access X d a recipient = a\<lparr>ac_Children := Some (gm_set recipient (child_of X d) (children_of a))\<rparr>"

definition invitation_payload :: "ext \<Rightarrow> nat \<Rightarrow> User \<Rightarrow> User \<Rightarrow> bytes" where
  "invitation_payload X d sender recipient =
     (let c = oaep X (d + 3) recipient (invitation_bytes X (invitation_of X d)) in c @ sig_of X sender c)"

definition create_puts :: "ext \<Rightarrow> nat \<Rightarrow> User \<Rightarrow> string \<Rightarrow> Access \<Rightarrow> MailboxNode \<Rightarrow> User \<Rightarrow> (UUID \<times> bytes) list" where
  "create_puts X d u fn a node r =
     [(uuid_at X d, sealed_json X (d + 2) (enc_mailbox X node) (getMailKeys X (rand_at X (d + 1) 16))),
      (uuid_at X (d + 4), invitation_payload X d u r),
      (access_uuid X (u_Username u) fn, sealed_json X (d + 5) (enc_access X (shared_access X d a (u_Username r)))
         (personal_keys X (u_MasterKey u) fn))]"

definition after_create :: "ext \<Rightarrow> string \<Rightarrow> Access \<Rightarrow> MailboxNode \<Rightarrow> User \<Rightarrow> memory session \<Rightarrow> memory session" where
  "after_create X fn a node r w = (put_all (create_puts X (draws w) (self w) fn a node r) w)\<lparr>draws := draws w + 6\<rparr>"

lemma pkeEnc_registered:
  assumes "rsa_ok X" "registered X \<kappa> r" "length m \<le> 126"
  shows "pkeEnc X \<lparr>pub_KeyType = ''PKE'', pub_PubKey = rsa_PublicKey (priv_PrivKey (u_PKEPrivateKey r))\<rparr> m w
    = (Ok (oaep X (draws w) r m), w\<lparr>draws := Suc (draws w)\<rparr>)"
  by (simp add: pkeEnc_def tick_def monad_simps oaep_ok(1) [OF assms])

lemma CreateInvitation_memory:
  assumes "crypto_ok X" "uuid_ok X" "rsa_ok X" "registered X (keys_of w) (self w)" "registered X (keys_of w) r"
    "access_at X (store_of w) (self w) fn a" "mailbox_at X (store_of w) (ac_MymailboxUUID a) (ac_MymailboxKey a) node"
  shows "CreateInvitation X memory_services fn (u_Username r) w
    = (Ok (uuid_at X (draws w + 4)), after_create X fn a node r w)"
proof -
  have children: "ac_Children a = Some (children_of a)"
    using assms(6) by (auto simp: access_at_def access_wf_def map_wf_def children_of_def split: option.splits)
  have short: "length (bytes_of_string (json_print (enc_invitation X (invitation_of X d)))) \<le> 126" for d
    using length_invitation [OF assms(2), of "invitation_of X d"]
    by (simp add: invitation_of_def invitation_wf_def length_uuid_at [OF assms(2)] length_rand_at [OF assms(1)]
        invitation_bytes_def)
  have key: "keys_of w (u_Username r @ ''_enc_pub'') = Some (published ''PKE'' (u_PKEPrivateKey r))"
    using assms(5) by (simp add: registered_def)
  note enc = pkeEnc_registered [OF assms(3,5) short, unfolded invitation_of_def Suc_eq_plus1 [symmetric]]
  have node: "\<lparr>mb_FileKey = mb_FileKey node, mb_InodeUUID = mb_InodeUUID node\<rparr> = node" by simp
  show ?thesis
    using assms(1,2,6,7)
    by (simp add: CreateInvitation_def monad_simps hashed_access_uuid chain_simps case_prod_beta uuid_New_ok
        randomBytes_ok marshal_def encryptAndMAC_ok Let_def node key assert_key_def published_def enc
        signature_ok(1) [OF assms(3,4)] set_child_def children)
      (simp add: after_create_def create_puts_def sealed_json_def shared_access_def child_of_def
        invitation_payload_def invitation_bytes_def invitation_of_def Let_def eval_nat_numeral)
qed


section \<open>AcceptInvitation in closed form\<close>

definition accepted :: "Invitation \<Rightarrow> Access" where
  "accepted i = \<lparr>ac_MymailboxUUID = inv_MailboxUUID i, ac_MymailboxKey = inv_MailboxKey i, ac_Children = Some []\<rparr>"

definition accept_puts :: "ext \<Rightarrow> nat \<Rightarrow> User \<Rightarrow> string \<Rightarrow> Invitation \<Rightarrow> (UUID \<times> bytes) list" where
  "accept_puts X d u fn i =
     [(access_uuid X (u_Username u) fn,
         sealed_json X d (enc_access X (accepted i)) (personal_keys X (u_MasterKey u) fn)),
      (user_uuid X (u_Username u),
         sealed_json X (d + 1) (enc_user X (with_file X u fn)) (user_keys X (u_MasterKey u)))]"

definition after_accept :: "ext \<Rightarrow> string \<Rightarrow> Invitation \<Rightarrow> memory session \<Rightarrow> memory session" where
  "after_accept X fn i w = (put_all (accept_puts X (draws w) (self w) fn i) w)
     \<lparr>draws := draws w + 2, self := with_file X (self w) fn\<rparr>"

lemma set_file_memory:
  "u_Files (self w) \<noteq> None \<Longrightarrow> k = access_uuid X (u_Username (self w)) fn \<Longrightarrow>
   set_file fn k w = (Ok (), w\<lparr>self := with_file X (self w) fn\<rparr>)"
  by (auto simp: set_file_def monad_simps with_file_def files_of_def)

lemma save_self_memory:
  "crypto_ok X \<Longrightarrow> uuid_ok X \<Longrightarrow> length (u_MasterKey (self w)) = 16 \<Longrightarrow>
   save_self X memory_services w = (Ok (), (put (user_uuid X (u_Username (self w)))
     (sealed_json X (draws w) (enc_user X (self w)) (user_keys X (u_MasterKey (self w)))) w)\<lparr>draws := Suc (draws w)\<rparr>)"
  by (simp add: save_self_def monad_simps saveUser_session)

lemma AcceptInvitation_memory:
  assumes "crypto_ok X" "uuid_ok X" "store_of w ptr = Some (c @ s)" "length s = 256"
    "keys_of w (sender @ ''_sig_pub'') = Some (AsPublicKey vk)" "dsVerify X vk c s = Ok ()"
    "pkeDec X (u_PKEPrivateKey (self w)) c = Ok (invitation_bytes X i)" "invitation_wf i"
    "length (u_MasterKey (self w)) = 16" "u_Files (self w) \<noteq> None"
  shows "AcceptInvitation X memory_services sender ptr fn w = (Ok (), after_accept X fn i w)"
proof -
  have parse: "unmarshal (dec_invitation X) (invitation_bytes X i) = Ok i"
    unfolding invitation_bytes_def by (intro unmarshal_marshal invitation_codec assms(2,8))
  show ?thesis
    using assms(1,2,10)
    by (simp add: AcceptInvitation_def monad_simps assms(3-7,9) assert_key_def parse marshal_def Let_def
        getPersonalKey_eq encryptAndMAC_ok hashed_access_uuid case_prod_beta set_file_memory [where X = X] save_self_memory
        after_accept_def accept_puts_def accepted_def sealed_json_def)
qed


section \<open>Sharing builds a second view of the same inode\<close>

definition can_share :: "ext \<Rightarrow> memory session \<Rightarrow> User \<Rightarrow> string \<Rightarrow> UUID list \<Rightarrow> bool" where
  "can_share X w r g ids \<longleftrightarrow>
     length (u_MasterKey r) = 16 \<and> u_Files r \<noteq> None \<and> utf8_valid (u_Username r)
   \<and> access_uuid X (u_Username r) g \<noteq> user_uuid X (u_Username r)
   \<and> access_uuid X (u_Username r) g \<notin> set ids \<and> user_uuid X (u_Username r) \<notin> set ids
   \<and> fresh_uuids X (draws w) 6 (dom (store_of w) \<union> {access_uuid X (u_Username r) g, user_uuid X (u_Username r)})"

lemma after_create_sel [simp]:
  "self (after_create X fn a node r w) = self w" "keys_of (after_create X fn a node r w) = keys_of w"
  "draws (after_create X fn a node r w) = draws w + 6"
  "store_of (after_create X fn a node r w) = store_of (put_all (create_puts X (draws w) (self w) fn a node r) w)"
  by (simp_all add: after_create_def)

lemma after_accept_sel [simp]:
  "self (after_accept X fn i w) = with_file X (self w) fn" "keys_of (after_accept X fn i w) = keys_of w"
  "draws (after_accept X fn i w) = draws w + 2"
  "store_of (after_accept X fn i w) = store_of (put_all (accept_puts X (draws w) (self w) fn i) w)"
  by (simp_all add: after_accept_def)

lemma shared_access_wf:
  assumes "uuid_ok X" "access_wf a" "utf8_valid recipient"
  shows "access_wf (shared_access X d a recipient)"
  using assms gm_set_subset [of recipient "child_of X d" "children_of a"]
  by (fastforce simp: access_wf_def map_wf_def shared_access_def children_of_def child_wf_def child_of_def
      length_uuid_at split: option.splits)

lemma create_puts_fresh:
  assumes "fresh_uuids X d 6 A" "access_uuid X (u_Username u) fn \<in> A"
  shows "distinct (map fst (create_puts X d u fn a node r))"
    "k \<in> A \<Longrightarrow> k \<noteq> access_uuid X (u_Username u) fn \<Longrightarrow> k \<notin> fst ` set (create_puts X d u fn a node r)"
  using assms(2) fresh_notin [OF assms(1), of d] fresh_notin [OF assms(1), of "d + 4"]
    fresh_eq [OF assms(1), of d "d + 4"]
  by (auto simp: create_puts_def)

lemma after_create_facts:
  assumes "crypto_ok X" "uuid_ok X" "view X (store_of w) (self w) fn a node inode content"
    "distinct (view_ids X (self w) fn a node inode)" "fresh_uuids X (draws w) 6 (dom (store_of w))"
    "utf8_valid (u_Username r)" and \<sigma>': "\<sigma>' = store_of (after_create X fn a node r w)"
  shows "view X \<sigma>' (self w) fn (shared_access X (draws w) a (u_Username r)) node inode content"
    "mailbox_at X \<sigma>' (uuid_at X (draws w)) (rand_at X (draws w + 1) 16) node"
    "\<sigma>' (uuid_at X (draws w + 4)) = Some (invitation_payload X (draws w) (self w) r)"
    "k \<in> dom (store_of w) \<Longrightarrow> k \<noteq> access_uuid X (u_Username (self w)) fn \<Longrightarrow> \<sigma>' k = store_of w k"
proof -
  let ?u = "self w" and ?d = "draws w"
  note dom = view_ids_dom [OF assms(3)]
  have acc: "access_uuid X (u_Username ?u) fn \<in> dom (store_of w)" using dom by (simp add: view_ids_def)
  have put: "\<sigma>' k = Some v" if "(k, v) \<in> set (create_puts X ?d ?u fn a node r)" for k v
    unfolding \<sigma>' after_create_sel by (rule store_of_put_all_in [OF that create_puts_fresh(1) [OF assms(5) acc]])
  have out: "\<sigma>' k = store_of w k" if "k \<in> dom (store_of w)" "k \<noteq> access_uuid X (u_Username ?u) fn" for k
    unfolding \<sigma>' after_create_sel using that
    by (intro store_of_put_all_out create_puts_fresh(2) [OF assms(5) acc])
  show "\<sigma>' k = store_of w k" if "k \<in> dom (store_of w)" "k \<noteq> access_uuid X (u_Username ?u) fn" using out that .
  show "\<sigma>' (uuid_at X (?d + 4)) = Some (invitation_payload X ?d ?u r)"
    by (rule put) (simp add: create_puts_def)
  have chain: "access_at X (store_of w) ?u fn a"
    "mailbox_at X (store_of w) (ac_MymailboxUUID a) (ac_MymailboxKey a) node"
    "file_at X (store_of w) (mb_FileKey node) (mb_InodeUUID node) inode content"
    using assms(3) by (auto simp: view_def)
  then show "mailbox_at X \<sigma>' (uuid_at X ?d) (rand_at X (?d + 1) 16) node"
    using sealed_atI [where \<sigma> = \<sigma>', OF length_rand_at [OF assms(1), of "?d + 2"] put]
    by (auto simp: mailbox_at_def create_puts_def sealed_json_def)
  have "sealed_at X \<sigma>' (access_uuid X (u_Username ?u) fn) (enc_access X (shared_access X ?d a (u_Username r)))
      (personal_keys X (u_MasterKey ?u) fn)"
    by (rule sealed_atI [OF length_rand_at [OF assms(1), of "?d + 5"] put]) (simp add: create_puts_def sealed_json_def)
  moreover have "store_of w k = \<sigma>' k" if "k \<in> set (tl (view_ids X ?u fn a node inode))" for k
  proof -
    from that have "k \<in> dom (store_of w)" "k \<noteq> access_uuid X (u_Username ?u) fn"
      using dom assms(4) by (auto simp: view_ids_def)
    then show ?thesis by (simp add: out)
  qed
  ultimately show "view X \<sigma>' ?u fn (shared_access X ?d a (u_Username r)) node inode content"
    using chain shared_access_wf [OF assms(2) _ assms(6), of a ?d] file_at_cong [OF chain(3), of \<sigma>']
    by (auto simp: view_def access_at_def mailbox_at_def sealed_at_def view_ids_def shared_access_def)
qed


lemma sealed_json_at: "crypto_ok X \<Longrightarrow> \<sigma> k = Some (sealed_json X i j ks) \<Longrightarrow> sealed_at X \<sigma> k j ks"
  unfolding sealed_json_def by (rule sealed_atI [OF length_rand_at])

lemma after_accept_facts:
  assumes "crypto_ok X" "uuid_ok X" "access_uuid X (u_Username (self w)) g \<noteq> user_uuid X (u_Username (self w))"
    "invitation_wf i" "length (u_MasterKey (self w)) = 16" and \<sigma>': "\<sigma>' = store_of (after_accept X g i w)"
  shows "access_at X \<sigma>' (self w) g (accepted i)"
    "k \<noteq> access_uuid X (u_Username (self w)) g \<Longrightarrow> k \<noteq> user_uuid X (u_Username (self w)) \<Longrightarrow> \<sigma>' k = store_of w k"
proof -
  have "\<sigma>' (access_uuid X (u_Username (self w)) g) = Some (sealed_json X (draws w) (enc_access X (accepted i))
      (personal_keys X (u_MasterKey (self w)) g))"
    using assms(3) by (simp add: \<sigma>' accept_puts_def)
  then have "sealed_at X \<sigma>' (access_uuid X (u_Username (self w)) g) (enc_access X (accepted i))
      (personal_keys X (u_MasterKey (self w)) g)"
    by (rule sealed_json_at [OF assms(1)])
  then show "access_at X \<sigma>' (self w) g (accepted i)"
    using assms(4,5) by (simp add: access_at_def access_wf_def map_wf_def accepted_def invitation_wf_def)
  show "k \<noteq> access_uuid X (u_Username (self w)) g \<Longrightarrow> k \<noteq> user_uuid X (u_Username (self w)) \<Longrightarrow> \<sigma>' k = store_of w k"
    by (simp add: \<sigma>' accept_puts_def)
qed

lemma share_views:
  assumes "crypto_ok X" "uuid_ok X" "rsa_ok X" "registered X (keys_of w) (self w)" "registered X (keys_of w) r"
    and view: "view X (store_of w) (self w) fn a node inode content"
    and dist: "distinct (view_ids X (self w) fn a node inode)"
    and can: "can_share X w r g (view_ids X (self w) fn a node inode)"
  shows "\<exists>w2. AcceptInvitation X memory_services (u_Username (self w)) (uuid_at X (draws w + 4)) g
        ((after_create X fn a node r w)\<lparr>self := r\<rparr>) = (Ok (), w2)
    \<and> self w2 = with_file X r g \<and> draws w2 = draws w + 8 \<and> keys_of w2 = keys_of w
    \<and> view X (store_of w2) r g (accepted (invitation_of X (draws w))) node inode content
    \<and> view X (store_of w2) (self w) fn (shared_access X (draws w) a (u_Username r)) node inode content
    \<and> (\<forall>k \<in> dom (store_of w). k \<noteq> access_uuid X (u_Username (self w)) fn \<longrightarrow> k \<noteq> access_uuid X (u_Username r) g
         \<longrightarrow> k \<noteq> user_uuid X (u_Username r) \<longrightarrow> store_of w2 k = store_of w k)
    \<and> dom (store_of w2) = dom (store_of w) \<union> {uuid_at X (draws w), uuid_at X (draws w + 4),
         access_uuid X (u_Username r) g, user_uuid X (u_Username r)}"
proof -
  let ?d = "draws w" and ?u = "self w" and ?w1 = "(after_create X fn a node r w)\<lparr>self := r\<rparr>"
  let ?i = "invitation_of X (draws w)" and ?w2 = "after_accept X g (invitation_of X (draws w))
    ((after_create X fn a node r w)\<lparr>self := r\<rparr>)"
  have fresh: "fresh_uuids X ?d 6 (dom (store_of w))"
    using can by (auto simp: can_share_def intro: fresh_uuids_sub)
  have r: "utf8_valid (u_Username r)" "length (u_MasterKey r) = 16" "u_Files r \<noteq> None"
    "access_uuid X (u_Username r) g \<noteq> user_uuid X (u_Username r)"
    using can by (auto simp: can_share_def)
  note created = after_create_facts [OF assms(1,2) view dist fresh r(1) refl]
  have inv: "invitation_wf ?i" by (simp add: invitation_of_def invitation_wf_def length_uuid_at [OF assms(2)])
  have len: "length (invitation_bytes X ?i) \<le> 126"
    using length_invitation [OF assms(2) inv] by (simp add: invitation_of_def length_rand_at [OF assms(1)])
  have accept: "AcceptInvitation X memory_services (u_Username ?u) (uuid_at X (?d + 4)) g ?w1 = (Ok (), ?w2)"
  proof (rule AcceptInvitation_memory [OF assms(1,2)])
    show "store_of ?w1 (uuid_at X (?d + 4)) = Some (oaep X (?d + 3) r (invitation_bytes X ?i)
        @ sig_of X ?u (oaep X (?d + 3) r (invitation_bytes X ?i)))"
      using created(3) by (simp add: invitation_payload_def Let_def)
    show "keys_of ?w1 (u_Username ?u @ ''_sig_pub'') = Some (AsPublicKey
        \<lparr>pub_KeyType = ''DS'', pub_PubKey = rsa_PublicKey (priv_PrivKey (u_DSSignKey ?u))\<rparr>)"
      using assms(4) by (simp add: registered_def published_def)
  qed (use signature_ok [OF assms(3,4)] oaep_ok [OF assms(3,5) len] inv r in simp_all)
  note accepted = after_accept_facts [OF assms(1,2), of ?w1 g ?i, simplified, OF r(4) inv r(2) refl]
  have keep: "store_of ?w2 k = store_of ?w1 k"
    if "k \<noteq> access_uuid X (u_Username r) g" "k \<noteq> user_uuid X (u_Username r)" for k
    using accepted(2) [OF that] by simp
  have mailbox: "uuid_at X ?d \<noteq> access_uuid X (u_Username r) g" "uuid_at X ?d \<noteq> user_uuid X (u_Username r)"
    using can fresh_notin [of X ?d 6 _ ?d] by (fastforce simp: can_share_def)+
  have ids: "k \<noteq> access_uuid X (u_Username r) g" "k \<noteq> user_uuid X (u_Username r)"
    if "k \<in> set (view_ids X ?u fn a node inode)" for k
    using can that by (auto simp: can_share_def)
  have owner: "view X (store_of ?w2) ?u fn (shared_access X ?d a (u_Username r)) node inode content"
    by (rule view_cong [OF created(1)]) (use keep ids in \<open>auto simp: view_ids_def shared_access_def\<close>)
  moreover have "mailbox_at X (store_of ?w2) (uuid_at X ?d) (rand_at X (?d + 1) 16) node"
    using keep [OF mailbox] by (intro mailbox_at_cong [OF _ created(2)]) simp
  then have "view X (store_of ?w2) r g (accepted ?i) node inode content"
    using owner accepted(1) by (simp add: view_def accepted_def invitation_of_def)
  moreover have "dom (store_of ?w2) = dom (store_of w) \<union> {uuid_at X ?d, uuid_at X (?d + 4),
      access_uuid X (u_Username r) g, user_uuid X (u_Username r)}"
    using view_ids_dom [OF view] by (auto simp: dom_put_all create_puts_def accept_puts_def view_ids_def)
  ultimately show ?thesis
    using accept created(4) keep by (intro exI [of _ ?w2]) (simp add: ids)
qed

end
