(* ===== verification/Revoke_Correct.thy ===== *)
theory Revoke_Correct
  imports Invitation_Correct "HOL-Library.Multiset"
begin

text \<open>
  \<open>RevokeAccess\<close> on the in-memory backend: the loop that re-encrypts the blocks in place, the
  loop over the children in whatever order the runtime picks, and the state they leave. The
  caller keeps a view with the new file key, the mailboxes of the children that are kept get
  the new key, and nothing else changes.
\<close>

section \<open>Re-encrypting the blocks in place\<close>

lemma reencrypt_blocks_memory:
  assumes "crypto_ok X"
  shows "blocks_at X (store_of w) old us bs \<Longrightarrow> distinct us \<Longrightarrow>
    \<exists>w'. reencrypt_blocks X memory_services fn old new us w = (Ok (), w')
      \<and> draws w' = draws w + length us \<and> keys_of w' = keys_of w \<and> self w' = self (w :: memory session)
      \<and> blocks_at X (store_of w') new us bs
      \<and> (\<forall>k. k \<notin> set us \<longrightarrow> store_of w' k = store_of w k)"
proof (induction us arbitrary: bs w)
  case Nil
  then show ?case by (simp add: monad_simps)
next
  case (Cons u us bs0)
  obtain b bs where bs0: "bs0 = b # bs" "sealed_block X (store_of w) old u b" "blocks_at X (store_of w) old us bs"
    using Cons.prems(1) by (auto simp: list_all2_Cons1)
  obtain iv where iv: "length iv = 16" "store_of w u = Some (seal X iv b old)"
    using bs0(2) by (auto simp: sealed_block_def)
  let ?w1 = "(put u (seal X (rand_at X (draws w) 16) b new) w)\<lparr>draws := Suc (draws w)\<rparr>"
  have "blocks_at X (store_of ?w1) old us bs"
    using Cons.prems(2) by (intro blocks_at_cong [OF bs0(3)]) auto
  from Cons.IH [OF this] Cons.prems(2) obtain w' where
    w': "reencrypt_blocks X memory_services fn old new us ?w1 = (Ok (), w')"
      "draws w' = draws ?w1 + length us" "keys_of w' = keys_of ?w1" "self w' = self ?w1"
      "blocks_at X (store_of w') new us bs" "\<forall>k. k \<notin> set us \<longrightarrow> store_of w' k = store_of ?w1 k"
    by auto
  have dec: "decryptAndVerify X (seal X iv b old) (fst old) (snd old) = Ok b"
    using decrypt_seal_same [OF assms iv(1), of b "fst old" "snd old"] by simp
  have "reencrypt_blocks X memory_services fn old new (u # us) w = (Ok (), w')"
    using w'(1) by (simp add: monad_simps iv(2) dec encryptAndMAC_ok [OF assms])
  moreover have "sealed_block X (store_of w') new u b"
    using w'(6) Cons.prems length_rand_at [OF assms] by (auto simp: sealed_block_def)
  ultimately show ?case using w' by (auto simp: bs0(1))
qed

section \<open>Updating the children's mailboxes\<close>

definition kept :: "string \<Rightarrow> (string \<times> ChildrenInfo) list \<Rightarrow> ChildrenInfo list" where
  "kept r cs = map snd (filter (\<lambda>c. fst c \<noteq> r) cs)"

lemma kept_simps [simp]:
  "kept r [] = []" "kept r ((n, c) # cs) = (if n = r then kept r cs else c # kept r cs)"
  by (simp_all add: kept_def)

lemma update_child_skip: "update_child X S r fk (r, c) w = (Ok (), w)"
  by (simp add: update_child_def monad_simps)

lemma update_child_memory:
  assumes "crypto_ok X" "uuid_ok X" "n \<noteq> r"
    "mailbox_at X (store_of w) (ch_MailboxUUID c) (ch_MailboxKey c) node"
  shows "update_child X memory_services r fk (n, c) w =
    (Ok (), (put (ch_MailboxUUID c) (sealed_json X (draws w) (enc_mailbox X (node\<lparr>mb_FileKey := fk\<rparr>))
       (getMailKeys X (ch_MailboxKey c))) w)\<lparr>draws := Suc (draws w)\<rparr>)"
proof -
  obtain iv where iv: "length iv = 16" "store_of w (ch_MailboxUUID c) =
      Some (seal X iv (bytes_of_string (json_print (enc_mailbox X node))) (getMailKeys X (ch_MailboxKey c)))"
    using assms(4) by (auto simp: mailbox_at_def sealed_at_def)
  obtain ek mk where keys: "getMailKeys X (ch_MailboxKey c) = (ek, mk)" by fastforce
  have parse: "unmarshal (dec_mailbox X) (bytes_of_string (json_print (enc_mailbox X node))) = Ok node"
    using assms(4) by (intro unmarshal_marshal mailbox_codec assms(2)) (simp_all add: mailbox_at_def)
  show ?thesis
    using assms(1,3) by (simp add: update_child_def monad_simps iv keys parse marshal_def encryptAndMAC_ok sealed_json_def)
qed

lemma mailbox_at_update:
  assumes "crypto_ok X" "mailbox_at X \<sigma> mu mk node" "length fk = 16"
    "\<sigma>' mu = Some (sealed_json X i (enc_mailbox X (node\<lparr>mb_FileKey := fk\<rparr>)) (getMailKeys X mk))"
  shows "mailbox_at X \<sigma>' mu mk (node\<lparr>mb_FileKey := fk\<rparr>)"
  using assms(2,3) sealed_json_at [OF assms(1), where \<sigma> = \<sigma>', OF assms(4)] by (simp add: mailbox_at_def mailbox_wf_def)

lemma update_children_memory:
  assumes "crypto_ok X" "uuid_ok X" "length fk = 16"
  shows "\<forall>c \<in> set (kept r cs). mailbox_at X (store_of w) (ch_MailboxUUID c) (ch_MailboxKey c) (node c) \<Longrightarrow>
    distinct (map ch_MailboxUUID (kept r cs)) \<Longrightarrow>
    \<exists>w'. for_each (update_child X memory_services r fk) cs w = (Ok (), w')
      \<and> draws w' = draws w + length (kept r cs) \<and> keys_of w' = keys_of w \<and> self w' = self (w :: memory session)
      \<and> (\<forall>c \<in> set (kept r cs). mailbox_at X (store_of w') (ch_MailboxUUID c) (ch_MailboxKey c) ((node c)\<lparr>mb_FileKey := fk\<rparr>))
      \<and> (\<forall>k. k \<notin> ch_MailboxUUID ` set (kept r cs) \<longrightarrow> store_of w' k = store_of w k)"
proof (induction cs arbitrary: w)
  case Nil
  show ?case by (simp add: monad_simps)
next
  case (Cons nc cs)
  obtain n c where nc: "nc = (n, c)" by (cases nc)
  show ?case
  proof (cases "n = r")
    case True
    with Cons show ?thesis by (simp add: nc monad_simps update_child_skip)
  next
    case False
    let ?w1 = "(put (ch_MailboxUUID c) (sealed_json X (draws w) (enc_mailbox X ((node c)\<lparr>mb_FileKey := fk\<rparr>))
        (getMailKeys X (ch_MailboxKey c))) w)\<lparr>draws := Suc (draws w)\<rparr>"
    have here: "mailbox_at X (store_of w) (ch_MailboxUUID c) (ch_MailboxKey c) (node c)"
      using Cons.prems(1) False by (simp add: nc)
    have "mailbox_at X (store_of ?w1) (ch_MailboxUUID e) (ch_MailboxKey e) (node e)" if "e \<in> set (kept r cs)" for e
    proof (rule mailbox_at_cong)
      show "mailbox_at X (store_of w) (ch_MailboxUUID e) (ch_MailboxKey e) (node e)"
        using that Cons.prems(1) False by (simp add: nc)
      have "ch_MailboxUUID e \<noteq> ch_MailboxUUID c" using that Cons.prems(2) False by (simp add: nc) (metis imageI)
      then show "store_of ?w1 (ch_MailboxUUID e) = store_of w (ch_MailboxUUID e)" by simp
    qed
    then have "\<forall>c \<in> set (kept r cs). mailbox_at X (store_of ?w1) (ch_MailboxUUID c) (ch_MailboxKey c) (node c)"
      "distinct (map ch_MailboxUUID (kept r cs))"
      using Cons.prems(2) False by (auto simp: nc)
    from Cons.IH [OF this] obtain w' where
      w': "for_each (update_child X memory_services r fk) cs ?w1 = (Ok (), w')"
      "draws w' = draws ?w1 + length (kept r cs)" "keys_of w' = keys_of ?w1" "self w' = self ?w1"
      "\<forall>c \<in> set (kept r cs). mailbox_at X (store_of w') (ch_MailboxUUID c) (ch_MailboxKey c) ((node c)\<lparr>mb_FileKey := fk\<rparr>)"
      "\<forall>k. k \<notin> ch_MailboxUUID ` set (kept r cs) \<longrightarrow> store_of w' k = store_of ?w1 k"
      by blast
    have "store_of w' (ch_MailboxUUID c) = store_of ?w1 (ch_MailboxUUID c)"
      using w'(6) Cons.prems(2) False by (auto simp: nc)
    then have "mailbox_at X (store_of w') (ch_MailboxUUID c) (ch_MailboxKey c) ((node c)\<lparr>mb_FileKey := fk\<rparr>)"
      by (intro mailbox_at_update [OF assms(1) here assms(3)]) simp
    moreover have "for_each (update_child X memory_services r fk) (nc # cs) w = (Ok (), w')"
      using w'(1) update_child_memory [OF assms(1,2) False here] by (simp add: nc monad_simps)
    ultimately show ?thesis using w' False by (auto simp: nc)
  qed
qed


section \<open>RevokeAccess step by step\<close>

definition child_order :: "ext \<Rightarrow> nat \<Rightarrow> (string, ChildrenInfo) gomap \<Rightarrow> (string \<times> ChildrenInfo) list" where
  "child_order X i m = map (\<lambda>k. (k, the (map_of m k))) (x_range_order X i (gm_keys m))"

definition revoked_access :: "ext \<Rightarrow> nat \<Rightarrow> Access \<Rightarrow> string \<Rightarrow> Access" where
  "revoked_access X d a r = \<lparr>ac_MymailboxUUID = uuid_at X (d + 2), ac_MymailboxKey = rand_at X (d + 1) 16,
     ac_Children = Some (gm_del r (children_of a))\<rparr>"

text \<open>The state between the two loops, and the state at the end.\<close>

definition mid_revoke :: "ext \<Rightarrow> bytes \<Rightarrow> MailboxNode \<Rightarrow> Inode \<Rightarrow> memory session \<Rightarrow> memory session" where
  "mid_revoke X fk node inode w =
     (put (uuid_at X (draws w + 2)) (sealed_json X (draws w + 3) (enc_mailbox X (node\<lparr>mb_FileKey := fk\<rparr>))
          (getMailKeys X (rand_at X (draws w + 1) 16)))
     (put (mb_InodeUUID node) (sealed_json X (draws w) (enc_inode X inode) (file_keys X fk)) w))
     \<lparr>draws := draws w + 5\<rparr>"

definition end_revoke :: "ext \<Rightarrow> string \<Rightarrow> Access \<Rightarrow> memory session \<Rightarrow> memory session" where
  "end_revoke X fn a w = (put (user_uuid X (u_Username (self w)))
       (sealed_json X (draws w + 1) (enc_user X (with_file X (self w) fn)) (user_keys X (u_MasterKey (self w))))
     (put (access_uuid X (u_Username (self w)) fn)
       (sealed_json X (draws w) (enc_access X a) (personal_keys X (u_MasterKey (self w)) fn)) w))
     \<lparr>draws := draws w + 2, self := with_file X (self w) fn\<rparr>"

lemma self_draws: "w\<lparr>self := u, draws := n\<rparr> = w\<lparr>draws := n, self := u\<rparr>" for w :: "memory session"
  by simp

lemma RevokeAccess_run:
  assumes "crypto_ok X" "uuid_ok X" "access_at X (store_of w) (self w) fn a"
    "mailbox_at X (store_of w) (ac_MymailboxUUID a) (ac_MymailboxKey a) node"
    "inode_at X (store_of w) (mb_FileKey node) (mb_InodeUUID node) inode"
    "u_Files (self w) \<noteq> None" and fk: "fk = rand_at X (draws w) 16"
    and "reencrypt_blocks X memory_services fn (file_keys X (mb_FileKey node)) (file_keys X fk)
        (in_BlockUUIDs inode) (w\<lparr>draws := Suc (draws w)\<rparr>) = (Ok (), w1)"
    and "for_each (update_child X memory_services r fk) (child_order X (draws w1 + 4) (children_of a))
        (mid_revoke X fk node inode w1) = (Ok (), w2)"
    and "self w1 = self w" "self w2 = self w"
  shows "RevokeAccess X memory_services fn r w = (Ok (), end_revoke X fn (revoked_access X (draws w1) a r) w2)"
proof -
  have children: "ac_Children a = Some (children_of a)"
    using assms(3) by (auto simp: access_at_def access_wf_def map_wf_def children_of_def split: option.splits)
  have len: "length (rand_at X i 16) = 16" for i by (rule length_rand_at [OF assms(1)])
  have node: "\<lparr>mb_FileKey = fk, mb_InodeUUID = mb_InodeUUID node\<rparr> = node\<lparr>mb_FileKey := fk\<rparr>" by simp
  have mk: "length (u_MasterKey (self w)) = 16" using assms(3) by (simp add: access_at_def)
  have keys: "getFileKeys X fk = Ok (file_keys X fk)"
    using assms(1) by (simp add: fk getFileKeys_eq len)
  have nums: "k + 2 = Suc (Suc k)" "k + 3 = Suc (Suc (Suc k))" "k + 4 = Suc (Suc (Suc (Suc k)))"
    "k + 5 = Suc (Suc (Suc (Suc (Suc k))))" for k :: nat by simp_all
  note loops = assms(8) assms(9) [unfolded child_order_def mid_revoke_def sealed_json_def nums Suc_eq_plus1 [symmetric]]
  show ?thesis
    using assms(1-6)
    by (simp add: RevokeAccess_def monad_simps hashed_access_uuid chain_simps case_prod_beta uuid_New_ok fk [symmetric]
        randomBytes_ok marshal_def encryptAndMAC_ok Let_def keys children_entries_def children loops
        range_keys_eq node set_file_memory [where X = X] save_self_memory assms(10,11) mk delete_child_def)
      (simp add: end_revoke_def revoked_access_def sealed_json_def nums assms(11) self_draws)
qed


text \<open>Whatever order the runtime picks, the loop visits each child once.\<close>

lemma mset_child_order:
  assumes "order_ok X" "gm_wf m"
  shows "mset (child_order X i m) = mset m"
proof -
  have dist: "distinct (gm_keys m)" using gm_wf_distinct [OF assms(2)] by (simp add: gm_keys_def)
  then have "mset (x_range_order X i (gm_keys m)) = mset (gm_keys m)"
    using assms(1) by (intro set_eq_iff_mset_eq_distinct [THEN iffD1]) (auto simp: order_ok_def)
  then have "mset (child_order X i m) = mset (map (\<lambda>k. (k, the (map_of m k))) (gm_keys m))"
    by (simp add: child_order_def)
  also have "map (\<lambda>k. (k, the (map_of m k))) (gm_keys m) = m"
    unfolding gm_keys_def map_map
    by (rule map_idI) (use dist map_of_is_SomeI [of m] in \<open>auto simp: gm_keys_def\<close>)
  finally show ?thesis .
qed

lemma mset_kept: "mset xs = mset ys \<Longrightarrow> mset (kept r xs) = mset (kept r ys)"
  by (simp add: kept_def mset_filter)

lemma kept_child_order:
  assumes "order_ok X" "gm_wf m"
  shows "set (kept r (child_order X i m)) = set (kept r m)"
    "distinct (map ch_MailboxUUID (kept r (child_order X i m))) = distinct (map ch_MailboxUUID (kept r m))"
proof -
  note eq = mset_kept [OF mset_child_order [OF assms]]
  show "set (kept r (child_order X i m)) = set (kept r m)" by (rule mset_eq_setD [OF eq])
  show "distinct (map ch_MailboxUUID (kept r (child_order X i m))) = distinct (map ch_MailboxUUID (kept r m))"
    by (rule mset_eq_imp_distinct_iff) (simp add: eq)
qed

section \<open>RevokeAccess on a view\<close>

definition revoke_ids :: "ext \<Rightarrow> User \<Rightarrow> string \<Rightarrow> string \<Rightarrow> Access \<Rightarrow> MailboxNode \<Rightarrow> Inode \<Rightarrow> UUID list" where
  "revoke_ids X u fn r a node inode = view_ids X u fn a node inode @ map ch_MailboxUUID (kept r (children_of a))"

definition can_revoke :: "ext \<Rightarrow> memory session \<Rightarrow> string \<Rightarrow> string \<Rightarrow> Access \<Rightarrow> MailboxNode \<Rightarrow> Inode
    \<Rightarrow> (ChildrenInfo \<Rightarrow> MailboxNode) \<Rightarrow> bool" where
  "can_revoke X w fn r a node inode cnode \<longleftrightarrow>
     u_Files (self w) \<noteq> None
   \<and> distinct (revoke_ids X (self w) fn r a node inode)
   \<and> user_uuid X (u_Username (self w)) \<notin> set (revoke_ids X (self w) fn r a node inode)
   \<and> (\<forall>c \<in> set (kept r (children_of a)).
        mailbox_at X (store_of w) (ch_MailboxUUID c) (ch_MailboxKey c) (cnode c))
   \<and> uuid_at X (draws w + length (in_BlockUUIDs inode) + 3)
        \<notin> dom (store_of w) \<union> {user_uuid X (u_Username (self w))}"

lemma mid_revoke_sel [simp]:
  "self (mid_revoke X fk node inode w) = self w" "keys_of (mid_revoke X fk node inode w) = keys_of w"
  "draws (mid_revoke X fk node inode w) = draws w + 5"
  by (simp_all add: mid_revoke_def)

lemma end_revoke_sel [simp]:
  "self (end_revoke X fn a w) = with_file X (self w) fn" "keys_of (end_revoke X fn a w) = keys_of w"
  "draws (end_revoke X fn a w) = draws w + 2"
  by (simp_all add: end_revoke_def)

lemma store_mid_revoke:
  "store_of (mid_revoke X fk node inode w) k =
    (if k = uuid_at X (draws w + 2) then Some (sealed_json X (draws w + 3) (enc_mailbox X (node\<lparr>mb_FileKey := fk\<rparr>))
        (getMailKeys X (rand_at X (draws w + 1) 16)))
     else if k = mb_InodeUUID node then Some (sealed_json X (draws w) (enc_inode X inode) (file_keys X fk))
     else store_of w k)"
  by (simp add: mid_revoke_def)

lemma store_end_revoke:
  "store_of (end_revoke X fn a w) k =
    (if k = user_uuid X (u_Username (self w)) then Some (sealed_json X (draws w + 1)
        (enc_user X (with_file X (self w) fn)) (user_keys X (u_MasterKey (self w))))
     else if k = access_uuid X (u_Username (self w)) fn then
       Some (sealed_json X (draws w) (enc_access X a) (personal_keys X (u_MasterKey (self w)) fn))
     else store_of w k)"
  by (simp add: end_revoke_def)

lemma RevokeAccess_view:
  assumes "crypto_ok X" "uuid_ok X" "order_ok X"
    and view: "view X (store_of w) (self w) fn a node inode content"
    and can: "can_revoke X w fn r a node inode cnode"
    and fk: "fk = rand_at X (draws w) 16" and d: "d = draws w + length (in_BlockUUIDs inode) + 1"
  shows "\<exists>w1 w2. RevokeAccess X memory_services fn r w = (Ok (), end_revoke X fn (revoked_access X d a r) w2)
    \<and> draws w1 = d \<and> self w2 = self w \<and> keys_of w2 = keys_of w
    \<and> (\<exists>bs. blocks_at X (store_of w1) (file_keys X fk) (in_BlockUUIDs inode) bs \<and> concat bs = content)
    \<and> (\<forall>k. k \<notin> set (in_BlockUUIDs inode) \<longrightarrow> store_of w1 k = store_of w k)
    \<and> (\<forall>c \<in> set (kept r (children_of a)).
         mailbox_at X (store_of w2) (ch_MailboxUUID c) (ch_MailboxKey c) ((cnode c)\<lparr>mb_FileKey := fk\<rparr>))
    \<and> (\<forall>k. k \<notin> ch_MailboxUUID ` set (kept r (children_of a)) \<longrightarrow>
         store_of w2 k = store_of (mid_revoke X fk node inode w1) k)"
proof -
  have chain: "access_at X (store_of w) (self w) fn a"
    "mailbox_at X (store_of w) (ac_MymailboxUUID a) (ac_MymailboxKey a) node"
    "inode_at X (store_of w) (mb_FileKey node) (mb_InodeUUID node) inode"
    using view by (auto simp: view_def file_at_def)
  have wf: "gm_wf (children_of a)"
    using chain(1) by (auto simp: access_at_def access_wf_def map_wf_def children_of_def split: option.splits)
  let ?K = "kept r (children_of a)" and ?w0 = "w\<lparr>draws := Suc (draws w)\<rparr>"
  have dist: "distinct (in_BlockUUIDs inode)" "distinct (map ch_MailboxUUID ?K)"
    "ch_MailboxUUID ` set ?K \<inter> insert (mb_InodeUUID node) (set (in_BlockUUIDs inode)) = {}"
    using can by (auto simp: can_revoke_def revoke_ids_def view_ids_def simp del: imageE)
  obtain bs where bs: "blocks_at X (store_of w) (file_keys X (mb_FileKey node)) (in_BlockUUIDs inode) bs" "concat bs = content"
    using view by (auto simp: view_def file_at_def)
  have "blocks_at X (store_of ?w0) (file_keys X (mb_FileKey node)) (in_BlockUUIDs inode) bs"
    using bs(1) by simp
  from reencrypt_blocks_memory [OF assms(1) this dist(1), of fn "file_keys X fk"]
  obtain w1 where w1: "reencrypt_blocks X memory_services fn (file_keys X (mb_FileKey node)) (file_keys X fk)
      (in_BlockUUIDs inode) ?w0 = (Ok (), w1)" "draws w1 = d" "keys_of w1 = keys_of w" "self w1 = self w"
      "blocks_at X (store_of w1) (file_keys X fk) (in_BlockUUIDs inode) bs"
      "\<forall>k. k \<notin> set (in_BlockUUIDs inode) \<longrightarrow> store_of w1 k = store_of w k"
    by (auto simp: d)
  let ?w2 = "mid_revoke X fk node inode w1" and ?cs = "child_order X (draws w1 + 4) (children_of a)"
  note order = kept_child_order [OF assms(3) wf, of r "draws w1 + 4"]
  have "mailbox_at X (store_of ?w2) (ch_MailboxUUID c) (ch_MailboxKey c) (cnode c)" if "c \<in> set ?K" for c
  proof (rule mailbox_at_cong)
    show here: "mailbox_at X (store_of w) (ch_MailboxUUID c) (ch_MailboxKey c) (cnode c)"
      using can that by (simp add: can_revoke_def)
    then have "ch_MailboxUUID c \<in> dom (store_of w)" by (auto simp: mailbox_at_def dest: sealed_at_dom)
    moreover have "d + 2 = draws w + length (in_BlockUUIDs inode) + 3" by (simp add: d)
    then have "uuid_at X (d + 2) \<notin> dom (store_of w)" using can by (simp only: can_revoke_def) simp
    ultimately have "ch_MailboxUUID c \<noteq> uuid_at X (d + 2)" by metis
    moreover have "ch_MailboxUUID c \<notin> insert (mb_InodeUUID node) (set (in_BlockUUIDs inode))"
      using dist(3) imageI [OF that, of ch_MailboxUUID] by blast
    ultimately show "store_of ?w2 (ch_MailboxUUID c) = store_of w (ch_MailboxUUID c)"
      using w1(6) by (auto simp: store_mid_revoke w1(2))
  qed
  then have "\<forall>c \<in> set (kept r ?cs). mailbox_at X (store_of ?w2) (ch_MailboxUUID c) (ch_MailboxKey c) (cnode c)"
    "distinct (map ch_MailboxUUID (kept r ?cs))"
    using dist(2) order by simp_all
  from update_children_memory [OF assms(1,2) _ this, of fk] obtain w2 where
    "for_each (update_child X memory_services r fk) ?cs ?w2 = (Ok (), w2)" "keys_of w2 = keys_of w" "self w2 = self w"
    "\<forall>c \<in> set ?K. mailbox_at X (store_of w2) (ch_MailboxUUID c) (ch_MailboxKey c) ((cnode c)\<lparr>mb_FileKey := fk\<rparr>)"
    "\<forall>k. k \<notin> ch_MailboxUUID ` set ?K \<longrightarrow> store_of w2 k = store_of ?w2 k"
    using w1(3,4) order(1) length_rand_at [OF assms(1)] by (auto simp: fk)
  moreover from this(1) have "RevokeAccess X memory_services fn r w
      = (Ok (), end_revoke X fn (revoked_access X d a r) w2)"
    using RevokeAccess_run [OF assms(1,2) chain _ fk w1(1), of r w2] w1(2,4) calculation(3) can
    by (simp add: can_revoke_def)
  ultimately show ?thesis using w1 bs(2) by blast
qed


lemma revoked_access_wf:
  assumes "uuid_ok X" "access_wf a"
  shows "access_wf (revoked_access X d a r)"
proof -
  obtain m where m: "ac_Children a = Some m" "gm_wf m" "\<forall>kv \<in> set m. utf8_valid (fst kv) \<and> child_wf (snd kv)"
    using assms(2) by (auto simp: access_wf_def map_wf_def split: option.splits)
  then show ?thesis
    by (auto simp: access_wf_def map_wf_def revoked_access_def children_of_def length_uuid_at [OF assms(1)] gm_del_def [of r m])
      (metis gm_del_def gm_wf_del)
qed

lemma revoke_ids_facts:
  assumes "view X (store_of w) (self w) fn a node inode content" "can_revoke X w fn r a node inode cnode"
    and d: "d = draws w + length (in_BlockUUIDs inode) + 1"
  shows "set (revoke_ids X (self w) fn r a node inode) \<subseteq> dom (store_of w)"
    "uuid_at X (d + 2) \<notin> set (revoke_ids X (self w) fn r a node inode)"
    "uuid_at X (d + 2) \<noteq> user_uuid X (u_Username (self w))"
    "uuid_at X (d + 2) \<notin> dom (store_of w)"
proof -
  have "ch_MailboxUUID c \<in> dom (store_of w)" if "c \<in> set (kept r (children_of a))" for c
    using assms(2) that unfolding can_revoke_def mailbox_at_def by (blast dest: sealed_at_dom)
  with view_ids_dom [OF assms(1)] show dom: "set (revoke_ids X (self w) fn r a node inode) \<subseteq> dom (store_of w)"
    unfolding revoke_ids_def by auto
  have d2: "d + 2 = draws w + length (in_BlockUUIDs inode) + 3" by (simp add: d)
  have "uuid_at X (d + 2) \<notin> dom (store_of w) \<union> {user_uuid X (u_Username (self w))}"
    using assms(2) unfolding d2 can_revoke_def by blast
  with dom show "uuid_at X (d + 2) \<notin> set (revoke_ids X (self w) fn r a node inode)"
    "uuid_at X (d + 2) \<noteq> user_uuid X (u_Username (self w))" "uuid_at X (d + 2) \<notin> dom (store_of w)" by auto
qed

text \<open>Where each record of the final store comes from.\<close>

lemma revoke_lookup:
  assumes ids: "distinct (revoke_ids X (self w) fn r a node inode)"
      "user_uuid X (u_Username (self w)) \<notin> set (revoke_ids X (self w) fn r a node inode)"
      "uuid_at X (d + 2) \<notin> set (revoke_ids X (self w) fn r a node inode)"
      "uuid_at X (d + 2) \<noteq> user_uuid X (u_Username (self w))"
    and "self w2 = self w" "draws w1 = d"
    and w1: "\<forall>k. k \<notin> set (in_BlockUUIDs inode) \<longrightarrow> store_of w1 k = store_of w k"
    and w2: "\<forall>k. k \<notin> ch_MailboxUUID ` set (kept r (children_of a)) \<longrightarrow>
         store_of w2 k = store_of (mid_revoke X fk node inode w1) k"
    and \<sigma>': "\<sigma>' = store_of (end_revoke X fn a' w2)"
  shows "k \<in> set (in_BlockUUIDs inode) \<Longrightarrow> \<sigma>' k = store_of w1 k"
    "\<sigma>' (mb_InodeUUID node) = Some (sealed_json X d (enc_inode X inode) (file_keys X fk))"
    "\<sigma>' (uuid_at X (d + 2)) = Some (sealed_json X (d + 3) (enc_mailbox X (node\<lparr>mb_FileKey := fk\<rparr>))
       (getMailKeys X (rand_at X (d + 1) 16)))"
    "\<sigma>' (access_uuid X (u_Username (self w)) fn) = Some (sealed_json X (draws w2) (enc_access X a')
       (personal_keys X (u_MasterKey (self w)) fn))"
    "k \<in> ch_MailboxUUID ` set (kept r (children_of a)) \<Longrightarrow> \<sigma>' k = store_of w2 k"
    "k \<notin> set (revoke_ids X (self w) fn r a node inode) - {ac_MymailboxUUID a} \<Longrightarrow>
       k \<noteq> uuid_at X (d + 2) \<Longrightarrow> k \<noteq> user_uuid X (u_Username (self w)) \<Longrightarrow> \<sigma>' k = store_of w k"
proof -
  let ?acc = "access_uuid X (u_Username (self w)) fn" and ?usr = "user_uuid X (u_Username (self w))"
  obtain K where K: "K = ch_MailboxUUID ` set (kept r (children_of a))" by blast
  have disj: "?acc \<notin> K" "mb_InodeUUID node \<notin> K" "set (in_BlockUUIDs inode) \<inter> K = {}" "uuid_at X (d + 2) \<notin> K"
      "ac_MymailboxUUID a \<notin> K" "?usr \<notin> K"
    and dist: "distinct [?acc, ac_MymailboxUUID a, mb_InodeUUID node, ?usr, uuid_at X (d + 2)]"
      "set (in_BlockUUIDs inode) \<inter> {?acc, ac_MymailboxUUID a, mb_InodeUUID node, ?usr, uuid_at X (d + 2)} = {}"
    using ids by (auto simp: revoke_ids_def view_ids_def K simp del: imageE)
  have final: "\<sigma>' k = (if k = ?usr then Some (sealed_json X (draws w2 + 1) (enc_user X (with_file X (self w) fn)) (user_keys X (u_MasterKey (self w))))
     else if k = ?acc then Some (sealed_json X (draws w2) (enc_access X a') (personal_keys X (u_MasterKey (self w)) fn))
     else store_of w2 k)" for k
    by (simp add: \<sigma>' store_end_revoke assms(5))
  note mid = w2 [folded K, unfolded store_mid_revoke assms(6)]
  show "k \<in> set (in_BlockUUIDs inode) \<Longrightarrow> \<sigma>' k = store_of w1 k"
    using disj dist mid by (auto simp: final)
  show "\<sigma>' (mb_InodeUUID node) = Some (sealed_json X d (enc_inode X inode) (file_keys X fk))"
    using disj dist mid by (auto simp: final)
  show "\<sigma>' (uuid_at X (d + 2)) = Some (sealed_json X (d + 3) (enc_mailbox X (node\<lparr>mb_FileKey := fk\<rparr>))
       (getMailKeys X (rand_at X (d + 1) 16)))"
    using disj dist mid by (auto simp: final)
  show "\<sigma>' ?acc = Some (sealed_json X (draws w2) (enc_access X a') (personal_keys X (u_MasterKey (self w)) fn))"
    using dist by (auto simp: final)
  show "k \<in> ch_MailboxUUID ` set (kept r (children_of a)) \<Longrightarrow> \<sigma>' k = store_of w2 k"
    unfolding K [symmetric] using disj by (auto simp: final)
  show "k \<notin> set (revoke_ids X (self w) fn r a node inode) - {ac_MymailboxUUID a} \<Longrightarrow>
       k \<noteq> uuid_at X (d + 2) \<Longrightarrow> k \<noteq> ?usr \<Longrightarrow> \<sigma>' k = store_of w k"
    using mid w1 disj dist unfolding revoke_ids_def view_ids_def by (auto simp: final simp flip: K)
qed


lemma RevokeAccess_facts:
  assumes "crypto_ok X" "uuid_ok X" "order_ok X"
    and view: "view X (store_of w) (self w) fn a node inode content"
    and can: "can_revoke X w fn r a node inode cnode"
    and fk: "fk = rand_at X (draws w) 16" and d: "d = draws w + length (in_BlockUUIDs inode) + 1"
  shows "\<exists>w'. RevokeAccess X memory_services fn r w = (Ok (), w')
    \<and> self w' = with_file X (self w) fn \<and> keys_of w' = keys_of w
    \<and> access_at X (store_of w') (self w) fn (revoked_access X d a r)
    \<and> mailbox_at X (store_of w') (uuid_at X (d + 2)) (rand_at X (d + 1) 16) (node\<lparr>mb_FileKey := fk\<rparr>)
    \<and> file_at X (store_of w') fk (mb_InodeUUID node) inode content
    \<and> (\<forall>c \<in> set (kept r (children_of a)).
         mailbox_at X (store_of w') (ch_MailboxUUID c) (ch_MailboxKey c) ((cnode c)\<lparr>mb_FileKey := fk\<rparr>))
    \<and> (\<forall>k. k \<notin> set (revoke_ids X (self w) fn r a node inode) - {ac_MymailboxUUID a} \<longrightarrow>
         k \<noteq> uuid_at X (d + 2) \<longrightarrow> k \<noteq> user_uuid X (u_Username (self w)) \<longrightarrow> store_of w' k = store_of w k)
    \<and> store_of w' (mb_InodeUUID node) = Some (sealed_json X d (enc_inode X inode) (file_keys X fk))"
proof -
  obtain w1 w2 bs where run: "RevokeAccess X memory_services fn r w = (Ok (), end_revoke X fn (revoked_access X d a r) w2)"
    and sel: "draws w1 = d" "self w2 = self w" "keys_of w2 = keys_of w"
    and bs: "blocks_at X (store_of w1) (file_keys X fk) (in_BlockUUIDs inode) bs" "concat bs = content"
    and w1: "\<forall>k. k \<notin> set (in_BlockUUIDs inode) \<longrightarrow> store_of w1 k = store_of w k"
    and kids: "\<forall>c \<in> set (kept r (children_of a)).
         mailbox_at X (store_of w2) (ch_MailboxUUID c) (ch_MailboxKey c) ((cnode c)\<lparr>mb_FileKey := fk\<rparr>)"
    and w2: "\<forall>k. k \<notin> ch_MailboxUUID ` set (kept r (children_of a)) \<longrightarrow>
         store_of w2 k = store_of (mid_revoke X fk node inode w1) k"
    using RevokeAccess_view [OF assms(1-3) view can fk d] by blast
  let ?w' = "end_revoke X fn (revoked_access X d a r) w2"
  have chain: "access_wf a" "length (u_MasterKey (self w)) = 16" "mailbox_wf node" "inode_wf inode"
    using view by (auto simp: view_def file_at_def access_at_def mailbox_at_def inode_at_def)
  have ids: "distinct (revoke_ids X (self w) fn r a node inode)"
    "user_uuid X (u_Username (self w)) \<notin> set (revoke_ids X (self w) fn r a node inode)"
    using can by (simp_all add: can_revoke_def)
  note look = revoke_lookup [where a' = "revoked_access X d a r", OF ids revoke_ids_facts(2,3) [OF view can d] sel(2,1) w1 w2 refl]
  have sealed: "sealed_at X (store_of ?w') k j ks" if "store_of ?w' k = Some (sealed_json X i j ks)" for i j k ks
    using that by (rule sealed_json_at [OF assms(1)])
  have "access_at X (store_of ?w') (self w) fn (revoked_access X d a r)"
    using chain(2) revoked_access_wf [OF assms(2) chain(1)] sealed [OF look(4)]
    by (simp add: access_at_def)
  moreover have "mailbox_at X (store_of ?w') (uuid_at X (d + 2)) (rand_at X (d + 1) 16) (node\<lparr>mb_FileKey := fk\<rparr>)"
    using chain(3) sealed [OF look(3)] length_rand_at [OF assms(1)]
    by (simp add: mailbox_at_def mailbox_wf_def fk)
  moreover have "inode_at X (store_of ?w') fk (mb_InodeUUID node) inode"
    using chain(4) sealed [OF look(2)] length_rand_at [OF assms(1)] by (simp add: inode_at_def fk)
  then have "file_at X (store_of ?w') fk (mb_InodeUUID node) inode content"
    using blocks_at_cong [OF bs(1) look(1)] bs(2) by (auto simp: file_at_def)
  moreover have "mailbox_at X (store_of ?w') (ch_MailboxUUID c) (ch_MailboxKey c) ((cnode c)\<lparr>mb_FileKey := fk\<rparr>)"
    if "c \<in> set (kept r (children_of a))" for c
    by (rule mailbox_at_cong [OF look(5)]) (use that kids in auto)
  ultimately show ?thesis
    using run look(2,6) by (intro exI [of _ ?w']) (simp add: sel)
qed

end
