(* ===== verification/Invitation_Properties.thy ===== *)
theory Invitation_Properties
  imports Revoke_Correct File_Properties
begin

text \<open>
  What sharing and revoking promise on the in-memory backend: an accepted invitation gives the
  recipient the content, and proves who sent it; forged invitations are refused; revoking
  keeps the caller and the other children, and cuts off everybody whose mailbox is not
  renewed. Three theorems show the limits of the code: an invitation to nobody leaves a
  mailbox behind, any recipient can revoke its owner's access, and revoking is not atomic.
\<close>

section \<open>Sharing\<close>

text \<open>
  C3: sharing works end to end. When a registered user who can read a file invites another
  registered user, \<open>CreateInvitation\<close> returns a pointer, the recipient's \<open>AcceptInvitation\<close> of
  it under a name of its own choice succeeds, and from then on both load the same content.
\<close>

theorem share_then_load:
  assumes "crypto_ok X" "uuid_ok X" "rsa_ok X" "registered X (keys_of w) (self w)" "registered X (keys_of w) r"
    and "view X (store_of w) (self w) fn a node inode content"
    and "distinct (view_ids X (self w) fn a node inode)"
    and "can_share X w r g (view_ids X (self w) fn a node inode)"
  shows "\<exists>ptr w1 w2. CreateInvitation X memory_services fn (u_Username r) w = (Ok ptr, w1)
    \<and> AcceptInvitation X memory_services (u_Username (self w)) ptr g (w1\<lparr>self := r\<rparr>) = (Ok (), w2)
    \<and> LoadFile X memory_services g w2 = (Ok content, w2)
    \<and> LoadFile X memory_services fn (w2\<lparr>self := self w\<rparr>) = (Ok content, w2\<lparr>self := self w\<rparr>)"
proof -
  obtain w2 where w2: "AcceptInvitation X memory_services (u_Username (self w)) (uuid_at X (draws w + 4)) g
        ((after_create X fn a node r w)\<lparr>self := r\<rparr>) = (Ok (), w2)" "self w2 = with_file X r g"
    "view X (store_of w2) r g (accepted (invitation_of X (draws w))) node inode content"
    "view X (store_of w2) (self w) fn (shared_access X (draws w) a (u_Username r)) node inode content"
    using share_views [OF assms] by blast
  have "CreateInvitation X memory_services fn (u_Username r) w = (Ok (uuid_at X (draws w + 4)), after_create X fn a node r w)"
    using assms(6) by (intro CreateInvitation_memory assms(1-5)) (auto simp: view_def)
  moreover have "view X (store_of w2) (self w2) g (accepted (invitation_of X (draws w))) node inode content"
    by (rule view_cong [OF w2(3)]) (simp_all add: w2(2))
  then have "LoadFile X memory_services g w2 = (Ok content, w2)"
    by (rule LoadFile_view [OF assms(1,2)])
  moreover have "LoadFile X memory_services fn (w2\<lparr>self := self w\<rparr>) = (Ok content, w2\<lparr>self := self w\<rparr>)"
    using w2(4) by (intro LoadFile_view [OF assms(1,2)]) simp
  ultimately show ?thesis using w2(1) by blast
qed

text \<open>Alice has stored \<open>g\<close>; she and Bob have published their keys.\<close>

definition sample_keys :: "string \<rightharpoonup> iface" where
  "sample_keys = Map.empty(
     ''alice_enc_pub'' \<mapsto> published ''PKE'' (u_PKEPrivateKey alice), ''alice_sig_pub'' \<mapsto> published ''DS'' (u_DSSignKey alice),
     ''bob_enc_pub'' \<mapsto> published ''PKE'' (u_PKEPrivateKey bob), ''bob_sig_pub'' \<mapsto> published ''DS'' (u_DSSignKey bob))"

definition alice_shares :: "memory session" where
  "alice_shares = alice_two\<lparr>backend := (backend alice_two)\<lparr>mem_keys := sample_keys\<rparr>\<rparr>"

lemma alice_shares_sel [simp]:
  "store_of alice_shares = store_of alice_two" "self alice_shares = alice" "draws alice_shares = 16"
  "keys_of alice_shares = sample_keys"
  using alice_two_ids by (simp_all add: alice_shares_def)

lemma bob_sel [simp]: "u_Username bob = ''bob''" "length (u_MasterKey bob) = 16" "u_Files bob = Some []"
  by (simp_all add: bob_def new_user_def)

lemma sample_registered: "registered sample sample_keys alice" "registered sample sample_keys bob"
proof -
  have "x_rsa_generate sample i 2048 = Some (rsa_at sample i)" for i
    by (rule rsa_generate_at [OF sample_rsa_ok])
  then show "registered sample sample_keys alice" "registered sample sample_keys bob"
    by (auto simp: registered_def generated_def sample_keys_def published_def alice_def bob_def new_user_def)
qed

abbreviation g_access :: Access where "g_access \<equiv> new_access sample 6"
abbreviation g_node :: MailboxNode where "g_node \<equiv> new_node sample 6"
abbreviation g_inode :: Inode where "g_inode \<equiv> new_inode sample 6 [7]"

lemma alice_shares_view: "view sample (store_of alice_shares) (self alice_shares) ''g'' g_access g_node g_inode [7]"
  using alice_two_view by simp

lemma alice_shares_distinct: "distinct (view_ids sample (self alice_shares) ''g'' g_access g_node g_inode)"
  using alice_two_distinct by simp

lemma alice_can_share: "can_share sample alice_shares bob ''h'' (view_ids sample (self alice_shares) ''g'' g_access g_node g_inode)"
proof -
  have hd: "hd (access_uuid sample ''bob'' ''h'') = 98" "hd (user_uuid sample ''bob'') = 98"
    "hd (access_uuid sample ''alice'' ''g'') = 97" "hd (uuid_at sample i) = 0xAA" for i
    by (simp_all add: sample_name_ids byte_of_char_def sample_uuid_at)
  have "hd k \<noteq> 98" if "k \<in> set (view_ids sample alice ''g'' g_access g_node g_inode)" for k
    using that sample_view_ids [of alice "''g''" 6 "[7]"] hd by auto
  then have "access_uuid sample ''bob'' ''h'' \<notin> set (view_ids sample alice ''g'' g_access g_node g_inode)"
    "user_uuid sample ''bob'' \<notin> set (view_ids sample alice ''g'' g_access g_node g_inode)"
    using hd by metis+
  moreover have "fresh_uuids sample 16 6 (dom (store_of alice_two) \<union> {access_uuid sample ''bob'' ''h'', user_uuid sample ''bob''})"
    using alice_two_ids hd by (intro sample_fresh) (auto simp: sample_ids_def)
  moreover have "access_uuid sample ''bob'' ''h'' \<noteq> user_uuid sample ''bob''"
    by (simp add: sample_name_ids pad_def bytes_of_string_def byte_of_char_def)
  moreover have "utf8_valid ''bob''" by (rule utf8_valid_ascii) auto
  ultimately show ?thesis by (simp add: can_share_def)
qed

theorem share_then_load_witness:
  "\<exists>ptr w1 w2. CreateInvitation sample memory_services ''g'' ''bob'' alice_shares = (Ok ptr, w1)
    \<and> AcceptInvitation sample memory_services ''alice'' ptr ''h'' (w1\<lparr>self := bob\<rparr>) = (Ok (), w2)
    \<and> LoadFile sample memory_services ''h'' w2 = (Ok [7], w2)"
  using share_then_load [OF sample_crypto_ok sample_uuid_ok sample_rsa_ok _ _ alice_shares_view alice_shares_distinct
      alice_can_share] sample_registered by auto

text \<open>
  C17: what an accepted invitation proves. If \<open>AcceptInvitation\<close> succeeds then the payload at the
  pointer ended in a 256-byte signature that verifies, over everything before it, under the
  verification key published for the named sender, and the recipient's own key decrypted it.
\<close>

theorem accept_is_authentic:
  assumes "AcceptInvitation X memory_services sender ptr fn w = (Ok (), w')"
  shows "\<exists>c s vk m. store_of w ptr = Some (c @ s) \<and> length s = 256
    \<and> keys_of w (sender @ ''_sig_pub'') = Some (AsPublicKey vk) \<and> pub_KeyType vk = ''DS''
    \<and> x_pkcs1_verify X (pub_PubKey vk) (x_sha512 X c) s
    \<and> pkeDec X (u_PKEPrivateKey (self w)) c = Ok m"
proof -
  obtain p where p: "store_of w ptr = Some p"
    using assms by (cases "store_of w ptr") (simp_all add: AcceptInvitation_def monad_simps)
  have len: "256 \<le> length p"
    using assms by (cases "length p < 256") (simp_all add: AcceptInvitation_def monad_simps p)
  let ?c = "take (length p - 256) p" and ?s = "drop (length p - 256) p"
  obtain k where k: "keys_of w (sender @ ''_sig_pub'') = Some k"
    using assms len by (cases "keys_of w (sender @ ''_sig_pub'')") (simp_all add: AcceptInvitation_def monad_simps p Let_def)
  obtain vk where vk: "k = AsPublicKey vk"
    using assms len by (cases k) (simp_all add: AcceptInvitation_def monad_simps p k assert_key_def Let_def)
  have sig: "dsVerify X vk ?c ?s = Ok ()"
    using assms len
    by (cases "dsVerify X vk ?c ?s") (simp_all add: AcceptInvitation_def monad_simps p k assert_key_def vk Let_def)
  obtain m where "pkeDec X (u_PKEPrivateKey (self w)) ?c = Ok m"
    using assms len sig by (cases "pkeDec X (u_PKEPrivateKey (self w)) ?c")
      (simp_all add: AcceptInvitation_def monad_simps p k assert_key_def vk Let_def)
  moreover have "pub_KeyType vk = ''DS''" "x_pkcs1_verify X (pub_PubKey vk) (x_sha512 X ?c) ?s"
    using sig by (auto simp: dsVerify_def split: if_splits)
  moreover have "p = ?c @ ?s" "length ?s = 256" using len by simp_all
  ultimately show ?thesis using p k vk by metis
qed

theorem accept_is_authentic_witness:
  "\<exists>(w :: memory session) w' ptr c s vk.
     AcceptInvitation sample memory_services ''alice'' ptr ''h'' w = (Ok (), w')
   \<and> store_of w ptr = Some (c @ s) \<and> length s = 256 \<and> keys_of w ''alice_sig_pub'' = Some (AsPublicKey vk)
   \<and> x_pkcs1_verify sample (pub_PubKey vk) (x_sha512 sample c) s"
proof -
  obtain ptr w1 w2 where run: "AcceptInvitation sample memory_services ''alice'' ptr ''h'' (w1\<lparr>self := bob\<rparr>) = (Ok (), w2)"
    using share_views [OF sample_crypto_ok sample_uuid_ok sample_rsa_ok _ _ alice_shares_view alice_shares_distinct
      alice_can_share] sample_registered by auto
  from accept_is_authentic [OF run] run show ?thesis by fastforce
qed


text \<open>The reasons to refuse an invitation, in the order of the checks.\<close>

definition accept_refusal :: "ext \<Rightarrow> memory session \<Rightarrow> string \<Rightarrow> UUID \<Rightarrow> go_error option" where
  "accept_refusal X w sender ptr = (case store_of w ptr of
     None \<Rightarrow> Some (InvitationNotFound ptr)
   | Some p \<Rightarrow>
       if length p < 256 then Some InvitationTooShort else
       let c = take (length p - 256) p; s = drop (length p - 256) p in
       (case keys_of w (sender @ ''_sig_pub'') of
          None \<Rightarrow> Some (SenderKeyNotFound sender)
        | Some (AsOther t) \<Rightarrow> None
        | Some (AsPublicKey vk) \<Rightarrow>
            if pub_KeyType vk \<noteq> ''DS'' \<or> \<not> x_pkcs1_verify X (pub_PubKey vk) (x_sha512 X c) s
            then Some (SignatureInvalid sender)
            else (case pkeDec X (u_PKEPrivateKey (self w)) c of
                Err e \<Rightarrow> Some (Wrap ''failed to decrypt invitation'' e)
              | _ \<Rightarrow> None)))"

text \<open>
  C18: a forged or damaged invitation is refused without touching anything. A missing pointer, a
  payload too short for a signature, an unknown sender, a signature that does not verify and
  a ciphertext for somebody else are five different errors, reported in this order, and the
  state is the same as before.
\<close>

theorem accept_rejects_forgery:
  assumes "accept_refusal X w sender ptr = Some e"
  shows "AcceptInvitation X memory_services sender ptr fn w = (Err e, w)"
  using assms
  by (auto simp: accept_refusal_def AcceptInvitation_def monad_simps assert_key_def Let_def dsVerify_def
      split: option.splits iface.splits if_splits outcome.splits)

theorem accept_rejects_forgery_witness:
  "AcceptInvitation sample memory_services ''alice'' [1] ''h'' (put [1] (replicate 300 0) alice_shares)
     = (Err (SignatureInvalid ''alice''), put [1] (replicate 300 0) alice_shares)"
proof (rule accept_rejects_forgery)
  have "x_pkcs1_verify sample (rsa_PublicKey (rsa_at sample 1)) h s \<longleftrightarrow> s = pad 255 h @ [1]" for h s
    by (simp add: sample_def rsa_at_def key_mark_def sample_rsa_def)
  moreover have "replicate 256 0 \<noteq> pad 255 h @ [1 :: byte]" for h
  proof
    assume "replicate 256 0 = pad 255 h @ [1 :: byte]"
    then have "last (replicate 256 (0 :: byte)) = 1" by simp
    then show False by simp
  qed
  ultimately show "accept_refusal sample (put [1] (replicate 300 0) alice_shares) ''alice'' [1] = Some (SignatureInvalid ''alice'')"
    by (simp add: accept_refusal_def sample_keys_def published_def alice_def new_user_def Let_def)
qed

text \<open>
  C34: \<open>CreateInvitation\<close> for a user nobody knows fails, but not before it has written: the mailbox
  made for the recipient is already stored, and it holds the key of the file.
\<close>

theorem create_for_unknown_leaves_mailbox:
  assumes "crypto_ok X" "uuid_ok X" "view X (store_of w) (self w) fn a node inode content"
    and "keys_of w (r @ ''_enc_pub'') = None"
  shows "\<exists>w'. CreateInvitation X memory_services fn r w = (Err (RecipientNotFound r), w')
    \<and> mailbox_at X (store_of w') (uuid_at X (draws w)) (rand_at X (draws w + 1) 16) node
    \<and> (\<forall>k. k \<noteq> uuid_at X (draws w) \<longrightarrow> store_of w' k = store_of w k)"
proof -
  have chain: "access_at X (store_of w) (self w) fn a"
    "mailbox_at X (store_of w) (ac_MymailboxUUID a) (ac_MymailboxKey a) node"
    using assms(3) by (auto simp: view_def)
  have node: "\<lparr>mb_FileKey = mb_FileKey node, mb_InodeUUID = mb_InodeUUID node\<rparr> = node" by simp
  let ?p = "sealed_json X (draws w + 2) (enc_mailbox X node) (getMailKeys X (rand_at X (draws w + 1) 16))"
  have "CreateInvitation X memory_services fn r w
      = (Err (RecipientNotFound r), (put (uuid_at X (draws w)) ?p w)\<lparr>draws := draws w + 3\<rparr>)"
    using assms(1,2,4) chain
    by (simp add: CreateInvitation_def monad_simps hashed_access_uuid chain_simps case_prod_beta uuid_New_ok
        randomBytes_ok marshal_def encryptAndMAC_ok Let_def node sealed_json_def numeral_2_eq_2 numeral_3_eq_3)
  moreover have "sealed_at X (store_of (put (uuid_at X (draws w)) ?p w)) (uuid_at X (draws w)) (enc_mailbox X node)
      (getMailKeys X (rand_at X (draws w + 1) 16))"
    by (rule sealed_json_at [OF assms(1)]) simp
  ultimately show ?thesis using chain(2) by (auto simp: mailbox_at_def)
qed

theorem create_for_unknown_leaves_mailbox_witness:
  "\<exists>w'. CreateInvitation sample memory_services ''g'' ''carol'' alice_shares = (Err (RecipientNotFound ''carol''), w')
    \<and> mailbox_at sample (store_of w') (uuid_at sample 16) (rand_at sample 17 16) g_node"
  using create_for_unknown_leaves_mailbox [OF sample_crypto_ok sample_uuid_ok alice_shares_view, of "''carol''"]
  by (auto simp: sample_keys_def)


section \<open>Revoking\<close>

text \<open>
  C5: revoking keeps the others. After \<open>RevokeAccess\<close> the caller still loads the same content,
  and so does every user whose mailbox is that of a direct child other than the revoked one.
\<close>

theorem revoke_keeps_sharees:
  assumes "crypto_ok X" "uuid_ok X" "order_ok X"
    and view: "view X (store_of w) (self w) fn a node inode content"
    and can: "can_revoke X w fn r a node inode cnode"
    and c: "c \<in> set (kept r (children_of a))"
    and v: "view X (store_of w) v g b (cnode c) inode content" "ac_MymailboxUUID b = ch_MailboxUUID c"
      "ac_MymailboxKey b = ch_MailboxKey c" "mb_InodeUUID (cnode c) = mb_InodeUUID node"
      "access_uuid X (u_Username v) g \<notin> set (revoke_ids X (self w) fn r a node inode)"
      "access_uuid X (u_Username v) g \<noteq> user_uuid X (u_Username (self w))"
  shows "\<exists>w'. RevokeAccess X memory_services fn r w = (Ok (), w')
    \<and> LoadFile X memory_services fn w' = (Ok content, w')
    \<and> LoadFile X memory_services g (w'\<lparr>self := v\<rparr>) = (Ok content, w'\<lparr>self := v\<rparr>)"
proof -
  define d where "d = draws w + length (in_BlockUUIDs inode) + 1"
  define fk where "fk = rand_at X (draws w) 16"
  obtain w' where run: "RevokeAccess X memory_services fn r w = (Ok (), w')" and self: "self w' = with_file X (self w) fn"
    and acc: "access_at X (store_of w') (self w) fn (revoked_access X d a r)"
    and mail: "mailbox_at X (store_of w') (uuid_at X (d + 2)) (rand_at X (d + 1) 16) (node\<lparr>mb_FileKey := fk\<rparr>)"
    and data: "file_at X (store_of w') fk (mb_InodeUUID node) inode content"
    and kids: "mailbox_at X (store_of w') (ch_MailboxUUID c) (ch_MailboxKey c) ((cnode c)\<lparr>mb_FileKey := fk\<rparr>)"
    and frame: "\<forall>k. k \<notin> set (revoke_ids X (self w) fn r a node inode) - {ac_MymailboxUUID a} \<longrightarrow>
         k \<noteq> uuid_at X (d + 2) \<longrightarrow> k \<noteq> user_uuid X (u_Username (self w)) \<longrightarrow> store_of w' k = store_of w k"
    using RevokeAccess_facts [OF assms(1-3) view can fk_def d_def] c by blast
  have "view X (store_of w') (self w') fn (revoked_access X d a r) (node\<lparr>mb_FileKey := fk\<rparr>) inode content"
    using acc mail data by (simp add: view_def access_at_def self revoked_access_def)
  then have "LoadFile X memory_services fn w' = (Ok content, w')"
    by (rule LoadFile_view [OF assms(1,2)])
  moreover have "access_uuid X (u_Username v) g \<in> dom (store_of w)"
    using view_ids_dom [OF v(1)] by (simp add: view_ids_def)
  then have "access_uuid X (u_Username v) g \<noteq> uuid_at X (d + 2)"
    using revoke_ids_facts(4) [OF view can d_def] by auto
  then have "store_of w' (access_uuid X (u_Username v) g) = store_of w (access_uuid X (u_Username v) g)"
    using frame v(5,6) by auto
  then have "access_at X (store_of w') v g b"
    using v(1) by (simp add: view_def access_at_def sealed_at_def)
  then have "view X (store_of w') v g b ((cnode c)\<lparr>mb_FileKey := fk\<rparr>) inode content"
    using kids data v(2-4) by (simp add: view_def)
  then have "LoadFile X memory_services g (w'\<lparr>self := v\<rparr>) = (Ok content, w'\<lparr>self := v\<rparr>)"
    by (intro LoadFile_view [OF assms(1,2)]) simp
  ultimately show ?thesis using run by blast
qed

text \<open>Alice has shared \<open>g\<close> with Bob, who calls it \<open>h\<close>.\<close>

abbreviation g_shared :: Access where "g_shared \<equiv> shared_access sample 16 g_access ''bob''"
abbreviation h_access :: Access where "h_access \<equiv> accepted (invitation_of sample 16)"

lemma shared_state:
  obtains w2 :: "memory session" where
    "AcceptInvitation sample memory_services ''alice'' (uuid_at sample 20) ''h''
       ((after_create sample ''g'' g_access g_node bob alice_shares)\<lparr>self := bob\<rparr>) = (Ok (), w2)"
    "self w2 = with_file sample bob ''h''" "draws w2 = 24" "keys_of w2 = sample_keys"
    "view sample (store_of w2) bob ''h'' h_access g_node g_inode [7]"
    "view sample (store_of w2) alice ''g'' g_shared g_node g_inode [7]"
    "sample_ids 24 (dom (store_of w2))"
proof -
  obtain w2 where w2: "AcceptInvitation sample memory_services ''alice'' (uuid_at sample 20) ''h''
       ((after_create sample ''g'' g_access g_node bob alice_shares)\<lparr>self := bob\<rparr>) = (Ok (), w2)"
    "self w2 = with_file sample bob ''h''" "draws w2 = 24" "keys_of w2 = sample_keys"
    "view sample (store_of w2) bob ''h'' h_access g_node g_inode [7]"
    "view sample (store_of w2) alice ''g'' g_shared g_node g_inode [7]"
    "dom (store_of w2) = dom (store_of alice_two) \<union> {uuid_at sample 16, uuid_at sample 20,
         access_uuid sample ''bob'' ''h'', user_uuid sample ''bob''}"
    using share_views [OF sample_crypto_ok sample_uuid_ok sample_rsa_ok _ _ alice_shares_view alice_shares_distinct
      alice_can_share] sample_registered by auto
  have "sample_ids 24 (dom (store_of w2))"
    unfolding w2(7)
  proof (rule sample_ids_put)
    show "sample_ids 16 (dom (store_of alice_two))" using alice_two_ids by simp
    show "\<forall>k \<in> {access_uuid sample ''bob'' ''h'', user_uuid sample ''bob''}. hd k \<noteq> 0xAA"
      by (simp add: sample_name_ids byte_of_char_def)
  qed auto
  with w2 show thesis using that by blast
qed

lemma sample_ids_fresh: "sample_ids d A \<Longrightarrow> d \<le> i \<Longrightarrow> i < 65536 \<Longrightarrow> uuid_at sample i \<notin> A"
  using fresh_notin [OF sample_fresh [of d A "65536 - d"], of i] by simp

lemma g_chain: "view_ids sample u fn a g_node g_inode
  = [access_uuid sample (u_Username u) fn, ac_MymailboxUUID a, uuid_at sample 7, uuid_at sample 12]"
  by (simp add: view_ids_def new_node_def new_inode_def block_num_def BlockSize_def)

lemma g_shared_sel: "ac_MymailboxUUID g_shared = uuid_at sample 8" "children_of g_shared = [(''bob'', child_of sample 16)]"
  by (simp_all add: shared_access_def new_access_def children_of_def)

lemma h_access_sel: "ac_MymailboxUUID h_access = uuid_at sample 16" "children_of h_access = []"
  "ac_MymailboxKey h_access = rand_at sample 17 16"
  by (simp_all add: accepted_def invitation_of_def children_of_def)

lemma bob_not_alice:
  "access_uuid sample ''bob'' f \<noteq> access_uuid sample ''alice'' f'" "access_uuid sample ''bob'' f \<noteq> user_uuid sample ''alice''"
  "user_uuid sample ''bob'' \<noteq> access_uuid sample ''alice'' f'" "access_uuid sample ''bob'' f \<noteq> uuid_at sample i"
  "user_uuid sample ''bob'' \<noteq> uuid_at sample i"
proof -
  have "hd (access_uuid sample ''bob'' f) = 98" "hd (user_uuid sample ''bob'') = 98"
    "hd (access_uuid sample ''alice'' f') = 97" "hd (user_uuid sample ''alice'') = 97" "hd (uuid_at sample i) = 0xAA"
    by (simp_all add: sample_name_ids byte_of_char_def sample_uuid_at)
  then show "access_uuid sample ''bob'' f \<noteq> access_uuid sample ''alice'' f'" "access_uuid sample ''bob'' f \<noteq> user_uuid sample ''alice''"
    "user_uuid sample ''bob'' \<noteq> access_uuid sample ''alice'' f'" "access_uuid sample ''bob'' f \<noteq> uuid_at sample i"
    "user_uuid sample ''bob'' \<noteq> uuid_at sample i"
    by fastforce+
qed

lemma shared_can_revoke:
  assumes "view sample (store_of w) bob ''h'' h_access g_node g_inode [7]" "sample_ids 24 (dom (store_of w))"
    "self w = alice" "draws w = 24"
  shows "can_revoke sample w ''g'' r g_shared g_node g_inode (\<lambda>_. g_node)"
proof -
  have "mailbox_at sample (store_of w) (uuid_at sample 16) (rand_at sample 17 16) g_node"
    using assms(1) by (simp add: view_def h_access_sel)
  moreover have "uuid_at sample 28 \<notin> dom (store_of w)" by (rule sample_ids_fresh [OF assms(2)]) simp_all
  moreover have "length (in_BlockUUIDs g_inode) = 1" by (simp add: new_inode_def block_num_def BlockSize_def)
  moreover have kept: "kept r (children_of g_shared) = (if r = ''bob'' then [] else [child_of sample 16])"
    by (simp add: g_shared_sel)
  moreover have "distinct (revoke_ids sample alice ''g'' r g_shared g_node g_inode)"
    "user_uuid sample ''alice'' \<notin> set (revoke_ids sample alice ''g'' r g_shared g_node g_inode)"
    unfolding revoke_ids_def g_chain kept g_shared_sel(1)
    by (cases "r = ''bob''"; simp add: child_of_def sample_uuid_inject sample_uuid_not_name
        sample_uuid_not_name [symmetric] alice_names_distinct)+
  ultimately show ?thesis
    using assms(3,4) sample_uuid_not_name(2) [of 28]
    by (simp add: can_revoke_def child_of_def)
qed

theorem revoke_keeps_sharees_witness:
  "\<exists>w w' :: memory session. RevokeAccess sample memory_services ''g'' ''carol'' w = (Ok (), w')
    \<and> LoadFile sample memory_services ''h'' (w'\<lparr>self := bob\<rparr>) = (Ok [7], w'\<lparr>self := bob\<rparr>)"
proof -
  obtain w2 :: "memory session" where w2:
    "AcceptInvitation sample memory_services ''alice'' (uuid_at sample 20) ''h''
       ((after_create sample ''g'' g_access g_node bob alice_shares)\<lparr>self := bob\<rparr>) = (Ok (), w2)"
    "self w2 = with_file sample bob ''h''" "draws w2 = 24" "keys_of w2 = sample_keys"
    "view sample (store_of w2) bob ''h'' h_access g_node g_inode [7]"
    "view sample (store_of w2) alice ''g'' g_shared g_node g_inode [7]"
    "sample_ids 24 (dom (store_of w2))"
    by (rule shared_state)
  let ?w = "w2\<lparr>self := alice\<rparr>"
  have can: "can_revoke sample ?w ''g'' ''carol'' g_shared g_node g_inode (\<lambda>_. g_node)"
    using w2(3,5,7) by (intro shared_can_revoke) simp_all
  have view: "view sample (store_of ?w) (self ?w) ''g'' g_shared g_node g_inode [7]" using w2(6) by simp
  have c: "child_of sample 16 \<in> set (kept ''carol'' (children_of g_shared))" by (simp add: g_shared_sel)
  have away: "access_uuid sample (u_Username bob) ''h'' \<notin> set (revoke_ids sample (self ?w) ''g'' ''carol'' g_shared g_node g_inode)"
    by (simp add: revoke_ids_def g_chain g_shared_sel bob_not_alice child_of_def)
  have b: "ac_MymailboxUUID h_access = ch_MailboxUUID (child_of sample 16)" "ac_MymailboxKey h_access = ch_MailboxKey (child_of sample 16)"
    "access_uuid sample (u_Username bob) ''h'' \<noteq> user_uuid sample (u_Username (self ?w))"
    "view sample (store_of ?w) bob ''h'' h_access g_node g_inode [7]"
    using w2(5) by (simp_all add: h_access_sel child_of_def bob_not_alice)
  from revoke_keeps_sharees [OF sample_crypto_ok sample_uuid_ok sample_order_ok view can c b(4,1,2) refl away b(3)]
  show ?thesis by blast
qed

lemma stale_mailbox:
  assumes "crypto_ok X" "uuid_ok X" "access_at X (store_of w) (self w) g b"
    "mailbox_at X (store_of w) (ac_MymailboxUUID b) (ac_MymailboxKey b) node"
    "store_of w (mb_InodeUUID node) = Some p" "p = sealed_json X i j ks"
    "mac_of X (snd (file_keys X (mb_FileKey node))) (ciphertext_of p) \<noteq> mac_of X (snd ks) (ciphertext_of p)"
  shows "LoadFile X memory_services g w = (Err (Wrap ''failed to decrypt inode'' MACMismatch), w)"
    "AppendToFile X memory_services g (Some extra) w = (Err MACMismatch, w)"
proof -
  have "getFileKeys X (mb_FileKey node) = Ok (file_keys X (mb_FileKey node))"
    using assms(1,4) by (simp add: getFileKeys_eq mailbox_at_def)
  note bad = fetch_bad [OF assms(5) this decrypt_sealed_json(2) [OF assms(1,6,7)]]
  show "LoadFile X memory_services g w = (Err (Wrap ''failed to decrypt inode'' MACMismatch), w)"
    "AppendToFile X memory_services g (Some extra) w = (Err MACMismatch, w)"
    using assms(1-4)
    by (simp_all add: LoadFile_def AppendToFile_def monad_simps hashed_access_uuid chain_simps case_prod_beta bad)
qed

text \<open>Whoever has a chain of its own to the inode keeps it, with the old key, while the inode gets the new one.\<close>

lemma revoke_strands:
  assumes "crypto_ok X" "uuid_ok X" "order_ok X"
    and view: "view X (store_of w) (self w) fn a node inode content"
    and can: "can_revoke X w fn r a node inode cnode"
    and t: "access_at X (store_of w) t g b" "mailbox_at X (store_of w) (ac_MymailboxUUID b) (ac_MymailboxKey b) tnode"
    and away: "{access_uuid X (u_Username t) g, ac_MymailboxUUID b}
      \<inter> (set (revoke_ids X (self w) fn r a node inode) - {ac_MymailboxUUID a} \<union> {user_uuid X (u_Username (self w))}) = {}"
  shows "\<exists>w' i. RevokeAccess X memory_services fn r w = (Ok (), w')
    \<and> access_at X (store_of w') t g b \<and> mailbox_at X (store_of w') (ac_MymailboxUUID b) (ac_MymailboxKey b) tnode
    \<and> store_of w' (mb_InodeUUID node)
        = Some (sealed_json X i (enc_inode X inode) (file_keys X (rand_at X (draws w) 16)))"
proof -
  define d where "d = draws w + length (in_BlockUUIDs inode) + 1"
  obtain w' where run: "RevokeAccess X memory_services fn r w = (Ok (), w')"
    and frame: "\<forall>k. k \<notin> set (revoke_ids X (self w) fn r a node inode) - {ac_MymailboxUUID a} \<longrightarrow>
         k \<noteq> uuid_at X (d + 2) \<longrightarrow> k \<noteq> user_uuid X (u_Username (self w)) \<longrightarrow> store_of w' k = store_of w k"
    and inode: "store_of w' (mb_InodeUUID node)
      = Some (sealed_json X d (enc_inode X inode) (file_keys X (rand_at X (draws w) 16)))"
    using RevokeAccess_facts [OF assms(1-3) view can refl d_def] by blast
  have "access_uuid X (u_Username t) g \<in> dom (store_of w)" "ac_MymailboxUUID b \<in> dom (store_of w)"
    using t by (auto simp: access_at_def mailbox_at_def dest: sealed_at_dom)
  then have "access_uuid X (u_Username t) g \<noteq> uuid_at X (d + 2)" "ac_MymailboxUUID b \<noteq> uuid_at X (d + 2)"
    using revoke_ids_facts(4) [OF view can d_def] by auto
  then have same: "store_of w' (access_uuid X (u_Username t) g) = store_of w (access_uuid X (u_Username t) g)"
    "store_of w' (ac_MymailboxUUID b) = store_of w (ac_MymailboxUUID b)"
    using frame away by auto
  then have "access_at X (store_of w') t g b" "mailbox_at X (store_of w') (ac_MymailboxUUID b) (ac_MymailboxKey b) tnode"
    using t by (simp_all add: access_at_def mailbox_at_def sealed_at_def)
  with run inode show ?thesis by blast
qed

text \<open>
  C4: revoking cuts off. \<open>RevokeAccess\<close> seals the inode under a new key. Whoever reached the inode through a
  mailbox that \<open>RevokeAccess\<close> does not renew - the revoked user, and everybody that user shared with - can from
  then on neither load the file nor append to it, if the HMACs of the inode's new ciphertext under the old and
  the new MAC key differ.
\<close>

theorem revoke_cuts_off:
  assumes "crypto_ok X" "uuid_ok X" "order_ok X"
    and view: "view X (store_of w) (self w) fn a node inode content"
    and can: "can_revoke X w fn r a node inode cnode"
    and t: "access_at X (store_of w) t g b" "mailbox_at X (store_of w) (ac_MymailboxUUID b) (ac_MymailboxKey b) tnode"
      "mb_InodeUUID tnode = mb_InodeUUID node"
    and away: "{access_uuid X (u_Username t) g, ac_MymailboxUUID b}
      \<inter> (set (revoke_ids X (self w) fn r a node inode) - {ac_MymailboxUUID a} \<union> {user_uuid X (u_Username (self w))}) = {}"
    and new: "new = file_keys X (rand_at X (draws w) 16)"
  shows "\<exists>w' p. RevokeAccess X memory_services fn r w = (Ok (), w')
    \<and> store_of w' (mb_InodeUUID node) = Some p
    \<and> decryptAndVerify X p (fst new) (snd new) = Ok (bytes_of_string (json_print (enc_inode X inode)))
    \<and> (mac_of X (snd (file_keys X (mb_FileKey tnode))) (ciphertext_of p) \<noteq> mac_of X (snd new) (ciphertext_of p) \<longrightarrow>
        LoadFile X memory_services g (w'\<lparr>self := t\<rparr>)
          = (Err (Wrap ''failed to decrypt inode'' MACMismatch), w'\<lparr>self := t\<rparr>)
      \<and> AppendToFile X memory_services g (Some extra) (w'\<lparr>self := t\<rparr>) = (Err MACMismatch, w'\<lparr>self := t\<rparr>))"
proof -
  obtain w' i where run: "RevokeAccess X memory_services fn r w = (Ok (), w')"
    and chain: "access_at X (store_of w') t g b" "mailbox_at X (store_of w') (ac_MymailboxUUID b) (ac_MymailboxKey b) tnode"
    and inode: "store_of w' (mb_InodeUUID node) = Some (sealed_json X i (enc_inode X inode) new)"
    using revoke_strands [OF assms(1-3) view can t(1,2) away] new by blast
  note stale = stale_mailbox [where w = "w'\<lparr>self := t\<rparr>" and g = g and node = tnode, OF assms(1,2) _ _ _ refl]
  show ?thesis
    using run inode decrypt_sealed_json(1) [OF assms(1) refl, of i _ new] chain t(3) stale
    by (intro exI [of _ w'] exI [of _ "sealed_json X i (enc_inode X inode) new"]) auto
qed

lemma sample_keys_differ:
  assumes "i < 250" "j < 250" "i \<noteq> j"
  shows "mac_of sample (snd (file_keys sample (rand_at sample i 16))) ct
    \<noteq> mac_of sample (snd (file_keys sample (rand_at sample j 16))) ct"
proof -
  have "rand_at sample k 16 = replicate 16 (word_of_nat (k + 1))" for k
    by (simp add: rand_at_def sample_def)
  moreover have "pad 16 (replicate 16 x) = replicate 16 x" for x
    by (simp add: pad_def)
  moreover have "(word_of_nat (i + 1) :: byte) \<noteq> word_of_nat (j + 1)"
  proof
    assume "(word_of_nat (i + 1) :: byte) = word_of_nat (j + 1)"
    then have "unat (word_of_nat (i + 1) :: byte) = unat (word_of_nat (j + 1) :: byte)" by (rule arg_cong)
    with assms show False by (simp add: unat_of_nat del: of_nat_add of_nat_Suc)
  qed
  moreover have "take 16 (x_hmac_sha512 sample k m) = mix k m" for k m
    by (simp add: sample_def) (simp add: pad_def)
  moreover have "pad 16 (mix k m) = mix k m" for k m by (simp add: pad_def)
  ultimately show ?thesis
    by (simp add: mac_of_def sample_hmac_eq aes_key_def file_keys_def sample_sha_take mix_cancel)
qed


theorem revoke_cuts_off_witness:
  "\<exists>w w' :: memory session. RevokeAccess sample memory_services ''g'' ''bob'' w = (Ok (), w')
    \<and> LoadFile sample memory_services ''h'' (w'\<lparr>self := bob\<rparr>)
        = (Err (Wrap ''failed to decrypt inode'' MACMismatch), w'\<lparr>self := bob\<rparr>)"
proof -
  obtain w2 :: "memory session" where w2:
    "AcceptInvitation sample memory_services ''alice'' (uuid_at sample 20) ''h''
       ((after_create sample ''g'' g_access g_node bob alice_shares)\<lparr>self := bob\<rparr>) = (Ok (), w2)"
    "self w2 = with_file sample bob ''h''" "draws w2 = 24" "keys_of w2 = sample_keys"
    "view sample (store_of w2) bob ''h'' h_access g_node g_inode [7]"
    "view sample (store_of w2) alice ''g'' g_shared g_node g_inode [7]"
    "sample_ids 24 (dom (store_of w2))"
    by (rule shared_state)
  let ?w = "w2\<lparr>self := alice\<rparr>"
  have can: "can_revoke sample ?w ''g'' ''bob'' g_shared g_node g_inode (\<lambda>_. g_node)"
    using w2(3,5,7) by (intro shared_can_revoke) simp_all
  have view: "view sample (store_of ?w) (self ?w) ''g'' g_shared g_node g_inode [7]" using w2(6) by simp
  have bob: "access_at sample (store_of ?w) bob ''h'' h_access"
    "mailbox_at sample (store_of ?w) (ac_MymailboxUUID h_access) (ac_MymailboxKey h_access) g_node"
    using w2(5) by (simp_all add: view_def)
  have away: "{access_uuid sample (u_Username bob) ''h'', ac_MymailboxUUID h_access}
      \<inter> (set (revoke_ids sample (self ?w) ''g'' ''bob'' g_shared g_node g_inode) - {ac_MymailboxUUID g_shared}
        \<union> {user_uuid sample (u_Username (self ?w))}) = {}"
    by (simp add: revoke_ids_def g_chain g_shared_sel h_access_sel bob_not_alice sample_uuid_not_name sample_uuid_inject)
  have mac: "mac_of sample (snd (file_keys sample (mb_FileKey g_node))) ct
      \<noteq> mac_of sample (snd (file_keys sample (rand_at sample (draws ?w) 16))) ct" for ct
    using sample_keys_differ [of 6 24 ct] by (simp add: new_node_def w2(3))
  from revoke_cuts_off [OF sample_crypto_ok sample_uuid_ok sample_order_ok view can bob refl away refl] mac
  show ?thesis by blast
qed

text \<open>
  C30: anybody a file was shared with can lock its owner out. \<open>RevokeAccess\<close> does not ask who owns
  the file: called by the recipient right after accepting the invitation, with any name, it
  succeeds and seals the inode under a key that the owner, who is not a child of the recipient, is not given; the
  owner can no longer load the file, if the HMACs of the inode's new ciphertext under the old and the new key differ.
\<close>

theorem sharee_locks_out_owner:
  assumes "crypto_ok X" "uuid_ok X" "rsa_ok X" "order_ok X"
    and reg: "registered X (keys_of w) (self w)" "registered X (keys_of w) r"
    and view: "view X (store_of w) (self w) fn a node inode content"
    and dist: "distinct (view_ids X (self w) fn a node inode)"
    and can: "can_share X w r g (view_ids X (self w) fn a node inode)"
    and new: "uuid_at X (draws w + 8 + length (in_BlockUUIDs inode) + 3) \<notin> dom (store_of w)
      \<union> {uuid_at X (draws w), uuid_at X (draws w + 4), access_uuid X (u_Username r) g, user_uuid X (u_Username r)}"
    and key: "key = file_keys X (rand_at X (draws w + 8) 16)"
  shows "\<exists>ptr w1 w2 w3 p. CreateInvitation X memory_services fn (u_Username r) w = (Ok ptr, w1)
    \<and> AcceptInvitation X memory_services (u_Username (self w)) ptr g (w1\<lparr>self := r\<rparr>) = (Ok (), w2)
    \<and> LoadFile X memory_services fn (w2\<lparr>self := self w\<rparr>) = (Ok content, w2\<lparr>self := self w\<rparr>)
    \<and> RevokeAccess X memory_services g victim w2 = (Ok (), w3)
    \<and> store_of w3 (mb_InodeUUID node) = Some p
    \<and> decryptAndVerify X p (fst key) (snd key) = Ok (bytes_of_string (json_print (enc_inode X inode)))
    \<and> (mac_of X (snd (file_keys X (mb_FileKey node))) (ciphertext_of p) \<noteq> mac_of X (snd key) (ciphertext_of p) \<longrightarrow>
        LoadFile X memory_services fn (w3\<lparr>self := self w\<rparr>)
          = (Err (Wrap ''failed to decrypt inode'' MACMismatch), w3\<lparr>self := self w\<rparr>))"
proof -
  let ?i = "accepted (invitation_of X (draws w))" and ?a = "shared_access X (draws w) a (u_Username r)"
  let ?r = "with_file X r g"
  obtain w2 where w2: "AcceptInvitation X memory_services (u_Username (self w)) (uuid_at X (draws w + 4)) g
        ((after_create X fn a node r w)\<lparr>self := r\<rparr>) = (Ok (), w2)" "self w2 = ?r" "draws w2 = draws w + 8"
    "view X (store_of w2) r g ?i node inode content" "view X (store_of w2) (self w) fn ?a node inode content"
    "dom (store_of w2) = dom (store_of w) \<union> {uuid_at X (draws w), uuid_at X (draws w + 4),
       access_uuid X (u_Username r) g, user_uuid X (u_Username r)}"
    using share_views [OF assms(1-3) reg view dist can] by blast
  have view2: "view X (store_of w2) (self w2) g ?i node inode content"
    by (rule view_cong [OF w2(4)]) (simp_all add: w2(2))
  have fresh: "uuid_at X (draws w) \<notin> dom (store_of w)" "uuid_at X (draws w) \<noteq> access_uuid X (u_Username r) g"
    "uuid_at X (draws w) \<noteq> user_uuid X (u_Username r)"
    using can fresh_notin [of X "draws w" 6 _ "draws w"] by (auto simp: can_share_def)
  have ids: "access_uuid X (u_Username r) g \<notin> set (view_ids X (self w) fn a node inode)"
    "user_uuid X (u_Username r) \<notin> set (view_ids X (self w) fn a node inode)"
    "access_uuid X (u_Username r) g \<noteq> user_uuid X (u_Username r)" "u_Files r \<noteq> None"
    "uuid_at X (draws w) \<notin> set (view_ids X (self w) fn a node inode)"
    using can fresh view_ids_dom [OF view] by (auto simp: can_share_def)
  have rids: "revoke_ids X ?r g victim ?i node inode
      = [access_uuid X (u_Username r) g, uuid_at X (draws w), mb_InodeUUID node] @ in_BlockUUIDs inode"
    by (simp add: revoke_ids_def view_ids_def accepted_def invitation_of_def children_of_def)
  have "distinct (revoke_ids X ?r g victim ?i node inode)"
    "user_uuid X (u_Username r) \<notin> set (revoke_ids X ?r g victim ?i node inode)"
    unfolding rids using ids fresh dist by (auto simp: view_ids_def)
  then have can2: "can_revoke X w2 g victim ?i node inode (\<lambda>_. node)"
    using new by (simp add: can_revoke_def w2(2,3,6) with_file_def accepted_def children_of_def)
  have "{access_uuid X (u_Username (self w)) fn, ac_MymailboxUUID ?a}
      \<inter> (set (revoke_ids X (self w2) g victim ?i node inode) - {ac_MymailboxUUID ?i} \<union> {user_uuid X (u_Username (self w2))}) = {}"
    unfolding w2(2) rids using ids dist by (auto simp: view_ids_def shared_access_def accepted_def invitation_of_def)
  with revoke_strands [OF assms(1,2,4) view2 can2, of "self w" fn ?a node]
  obtain w3 i where w3: "RevokeAccess X memory_services g victim w2 = (Ok (), w3)"
    "access_at X (store_of w3) (self w) fn ?a"
    "mailbox_at X (store_of w3) (ac_MymailboxUUID ?a) (ac_MymailboxKey ?a) node"
    "store_of w3 (mb_InodeUUID node) = Some (sealed_json X i (enc_inode X inode) key)"
    using w2(3,5) key unfolding view_def by auto
  let ?p = "sealed_json X i (enc_inode X inode) key"
  note stale = stale_mailbox(1) [where w = "w3\<lparr>self := self w\<rparr>" and g = fn and node = node, OF assms(1,2) _ _ _ refl]
  have "LoadFile X memory_services fn (w3\<lparr>self := self w\<rparr>)
      = (Err (Wrap ''failed to decrypt inode'' MACMismatch), w3\<lparr>self := self w\<rparr>)"
    if "mac_of X (snd (file_keys X (mb_FileKey node))) (ciphertext_of ?p) \<noteq> mac_of X (snd key) (ciphertext_of ?p)"
    using w3(2-4) that by (intro stale) simp_all
  moreover have "LoadFile X memory_services fn (w2\<lparr>self := self w\<rparr>) = (Ok content, w2\<lparr>self := self w\<rparr>)"
    using w2(5) by (intro LoadFile_view [OF assms(1,2)]) simp
  moreover have "CreateInvitation X memory_services fn (u_Username r) w = (Ok (uuid_at X (draws w + 4)), after_create X fn a node r w)"
    using view by (intro CreateInvitation_memory assms(1-3) reg) (auto simp: view_def)
  ultimately show ?thesis using w2(1) w3(1,4) decrypt_sealed_json(1) [OF assms(1) refl, of i _ key] by blast
qed

theorem sharee_locks_out_owner_witness:
  "\<exists>ptr w1 w2 w3. CreateInvitation sample memory_services ''g'' ''bob'' alice_shares = (Ok ptr, w1)
    \<and> AcceptInvitation sample memory_services ''alice'' ptr ''h'' (w1\<lparr>self := bob\<rparr>) = (Ok (), w2)
    \<and> LoadFile sample memory_services ''g'' (w2\<lparr>self := alice\<rparr>) = (Ok [7], w2\<lparr>self := alice\<rparr>)
    \<and> RevokeAccess sample memory_services ''h'' ''nobody'' w2 = (Ok (), w3)
    \<and> LoadFile sample memory_services ''g'' (w3\<lparr>self := alice\<rparr>)
        = (Err (Wrap ''failed to decrypt inode'' MACMismatch), w3\<lparr>self := alice\<rparr>)"
proof -
  have "uuid_at sample 28 \<notin> dom (store_of alice_two)"
    using alice_two_ids by (intro sample_ids_fresh [of 16]) simp_all
  then have new: "uuid_at sample (draws alice_shares + 8 + length (in_BlockUUIDs g_inode) + 3) \<notin> dom (store_of alice_shares)
      \<union> {uuid_at sample (draws alice_shares), uuid_at sample (draws alice_shares + 4),
         access_uuid sample (u_Username bob) ''h'', user_uuid sample (u_Username bob)}"
    by (simp add: new_inode_def block_num_def BlockSize_def sample_uuid_inject bob_not_alice [symmetric])
  have mac: "mac_of sample (snd (file_keys sample (mb_FileKey g_node))) ct
      \<noteq> mac_of sample (snd (file_keys sample (rand_at sample (draws alice_shares + 8) 16))) ct" for ct
    using sample_keys_differ [of 6 24 ct] by (simp add: new_node_def)
  show ?thesis
    using sharee_locks_out_owner [OF sample_crypto_ok sample_uuid_ok sample_rsa_ok sample_order_ok _ _ alice_shares_view
      alice_shares_distinct alice_can_share new refl, of "''nobody''"] sample_registered mac
    by (simp only: alice_shares_sel alice_sel bob_sel simp_thms True_implies_equals) blast
qed


text \<open>A record is deleted from the storage.\<close>

definition lose :: "UUID \<Rightarrow> memory session \<Rightarrow> memory session" where
  "lose k w = snd (on_backend (MemoryStorage_Delete k) w)"

lemma lose_sel [simp]:
  "store_of (lose k w) = (store_of w)(k := None)" "draws (lose k w) = draws w" "self (lose k w) = self w"
  by (simp_all add: lose_def on_backend_def MemoryStorage_Delete_def)

lemma put_lose: "store_of w k = Some p \<Longrightarrow> put k p (lose k w) = w"
  by (simp add: put_def lose_def on_backend_def MemoryStorage_Delete_def fun_upd_idem)

lemma reencrypt_blocks_append:
  "reencrypt_blocks X S fn old new (us @ vs)
    = bnd (reencrypt_blocks X S fn old new us) (\<lambda>_. reencrypt_blocks X S fn old new vs)"
proof (induction us)
  case Nil
  show ?case by (rule ext) (simp add: monad_simps)
next
  case (Cons u us)
  show ?case
    unfolding append_Cons reencrypt_blocks.simps bnd_assoc Cons
    by (intro arg_cong2 [where f = bnd] refl ext) (auto simp: bnd_assoc monad_simps split: option.split)
qed

text \<open>The chain of a file is still there after one of its blocks was lost or written.\<close>

lemma chain_cong:
  assumes "view X \<sigma> u fn a node inode content" "\<And>k. k \<in> {access_uuid X (u_Username u) fn, ac_MymailboxUUID a, mb_InodeUUID node} \<Longrightarrow> \<sigma>' k = \<sigma> k"
  shows "access_at X \<sigma>' u fn a" "mailbox_at X \<sigma>' (ac_MymailboxUUID a) (ac_MymailboxKey a) node"
    "inode_at X \<sigma>' (mb_FileKey node) (mb_InodeUUID node) inode"
  using assms unfolding view_def file_at_def access_at_def mailbox_at_def inode_at_def sealed_at_def by auto

lemma LoadFile_first_block_bad:
  assumes "crypto_ok X" "uuid_ok X" "access_at X (store_of w) (self w) fn a"
    "mailbox_at X (store_of w) (ac_MymailboxUUID a) (ac_MymailboxKey a) node"
    "inode_at X (store_of w) (mb_FileKey node) (mb_InodeUUID node) inode"
    and "in_BlockUUIDs inode = u # us" "store_of w u = Some q"
    and "decryptAndVerify X q (fst (file_keys X (mb_FileKey node))) (snd (file_keys X (mb_FileKey node))) = Err e"
  shows "LoadFile X memory_services fn w = (Err (Wrap ''failed to decrypt block'' e), w)"
  using assms by (simp add: LoadFile_def monad_simps hashed_access_uuid chain_simps case_prod_beta)

lemma RevokeAccess_block_missing:
  assumes "crypto_ok X" "uuid_ok X" "access_at X (store_of w) (self w) fn a"
    "mailbox_at X (store_of w) (ac_MymailboxUUID a) (ac_MymailboxKey a) node"
    "inode_at X (store_of w) (mb_FileKey node) (mb_InodeUUID node) inode"
    and "in_BlockUUIDs inode = us @ v # vs" "v \<notin> set us" "distinct us" "store_of w v = None"
    and "blocks_at X (store_of w) (file_keys X (mb_FileKey node)) us bs"
    and fk: "new = file_keys X (rand_at X (draws w) 16)"
  shows "\<exists>w'. RevokeAccess X memory_services fn r w = (Err (BlockNotFound fn), w')
    \<and> self w' = self w \<and> blocks_at X (store_of w') new us bs \<and> (\<forall>k. k \<notin> set us \<longrightarrow> store_of w' k = store_of w k)"
proof -
  let ?old = "file_keys X (mb_FileKey node)" and ?w1 = "w\<lparr>draws := Suc (draws w)\<rparr>"
  have "blocks_at X (store_of ?w1) ?old us bs" using assms(10) by simp
  from reencrypt_blocks_memory [OF assms(1) this assms(8), of fn new]
  obtain w' where w': "reencrypt_blocks X memory_services fn ?old new us ?w1 = (Ok (), w')"
    "blocks_at X (store_of w') new us bs" "\<forall>k. k \<notin> set us \<longrightarrow> store_of w' k = store_of w k"
    "self w' = self w"
    by auto
  moreover have "store_of w' v = None" using w'(3) assms(7,9) by simp
  ultimately have loop: "reencrypt_blocks X memory_services fn ?old new (in_BlockUUIDs inode) ?w1 = (Err (BlockNotFound fn), w')"
    unfolding assms(6) reencrypt_blocks_append by (simp add: monad_simps)
  have "getFileKeys X (rand_at X (draws w) 16) = Ok new"
    using assms(1) by (simp add: fk getFileKeys_eq length_rand_at)
  then have "RevokeAccess X memory_services fn r w = (Err (BlockNotFound fn), w')"
    using assms(1-5) loop
    by (simp add: RevokeAccess_def monad_simps hashed_access_uuid chain_simps case_prod_beta randomBytes_ok Let_def)
  with w' show ?thesis by blast
qed

text \<open>
  C31: \<open>RevokeAccess\<close> is not atomic. Let a readable file lose a block other than the first for a while, as when the
  storage fails to answer for it once. If the block comes back, the file is readable as before; but if \<open>RevokeAccess\<close> is called in
  between, it returns the error with the first block already sealed under a new file key, and all records but the blocks before the
  gap as they were. \<open>LoadFile\<close> then fails even when the block comes back, if the HMACs of
  the first block's new ciphertext under the old and the new MAC key differ.
\<close>

theorem revoke_is_not_atomic:
  assumes "crypto_ok X" "uuid_ok X"
    and view: "view X (store_of w) (self w) fn a node inode content"
    and dist: "distinct (view_ids X (self w) fn a node inode)"
    and blocks: "in_BlockUUIDs inode = u # us @ v # vs" and p: "store_of w v = Some p"
    and new: "new = file_keys X (rand_at X (draws w) 16)"
  shows "LoadFile X memory_services fn (put v p (lose v w)) = (Ok content, put v p (lose v w))
    \<and> (\<exists>w' q b. RevokeAccess X memory_services fn r (lose v w) = (Err (BlockNotFound fn), w')
      \<and> (\<forall>k. k \<notin> set (u # us) \<longrightarrow> store_of w' k = store_of (lose v w) k)
      \<and> store_of w' u = Some q \<and> decryptAndVerify X q (fst new) (snd new) = Ok b
      \<and> (mac_of X (snd (file_keys X (mb_FileKey node))) (ciphertext_of q) \<noteq> mac_of X (snd new) (ciphertext_of q) \<longrightarrow>
          LoadFile X memory_services fn (put v p w') = (Err (Wrap ''failed to decrypt block'' MACMismatch), put v p w')))"
proof (rule conjI)
  show "LoadFile X memory_services fn (put v p (lose v w)) = (Ok content, put v p (lose v w))"
    using LoadFile_view [OF assms(1,2) view] by (simp add: put_lose [where w = w] p)
  let ?old = "file_keys X (mb_FileKey node)" and ?acc = "access_uuid X (u_Username (self w)) fn"
  have ids: "v \<notin> set (u # us)" "distinct (u # us)" "v \<notin> {?acc, ac_MymailboxUUID a, mb_InodeUUID node}"
    "set (u # us) \<inter> {?acc, ac_MymailboxUUID a, mb_InodeUUID node} = {}"
    using dist by (auto simp: view_ids_def blocks)
  obtain bs where "blocks_at X (store_of w) ?old (in_BlockUUIDs inode) bs"
    using view by (auto simp: view_def file_at_def)
  then obtain b cs where "blocks_at X (store_of w) ?old (u # us) (b # cs)"
    unfolding blocks append_Cons [symmetric] list_all2_append1 by (auto simp: list_all2_Cons1)
  then have bs: "blocks_at X (store_of (lose v w)) ?old (u # us) (b # cs)"
    by (rule blocks_at_cong) (use ids(1) in auto)
  have lost: "store_of (lose v w) k = store_of w k" if "k \<in> {?acc, ac_MymailboxUUID a, mb_InodeUUID node}" for k
    using that ids(3) by auto
  have chain: "access_at X (store_of (lose v w)) (self (lose v w)) fn a"
    "mailbox_at X (store_of (lose v w)) (ac_MymailboxUUID a) (ac_MymailboxKey a) node"
    "inode_at X (store_of (lose v w)) (mb_FileKey node) (mb_InodeUUID node) inode"
    using chain_cong [where \<sigma>' = "store_of (lose v w)", OF view lost] by simp_all
  obtain w' where w': "RevokeAccess X memory_services fn r (lose v w) = (Err (BlockNotFound fn), w')"
    "blocks_at X (store_of w') new (u # us) (b # cs)" "\<forall>k. k \<notin> set (u # us) \<longrightarrow> store_of w' k = store_of (lose v w) k"
    "self w' = self w"
    using RevokeAccess_block_missing [OF assms(1,2) chain _ ids(1,2) _ bs, of vs new r] blocks new by auto
  obtain iv where iv: "length iv = 16" "store_of w' u = Some (seal X iv b new)"
    using w'(2) by (auto simp: sealed_block_def)
  let ?w = "put v p w'"
  have "store_of ?w k = store_of w k" if "k \<in> {?acc, ac_MymailboxUUID a, mb_InodeUUID node}" for k
    using that ids(3,4) w'(3) by auto
  note chain' = chain_cong [where \<sigma>' = "store_of ?w", OF view this]
  have "LoadFile X memory_services fn ?w = (Err (Wrap ''failed to decrypt block'' MACMismatch), ?w)"
    if "mac_of X (snd ?old) (ciphertext_of (seal X iv b new)) \<noteq> mac_of X (snd new) (ciphertext_of (seal X iv b new))"
  proof (rule LoadFile_first_block_bad [OF assms(1,2) _ _ _ blocks])
    show "access_at X (store_of ?w) (self ?w) fn a" using chain'(1) w'(4) by simp
    show "store_of ?w u = Some (seal X iv b new)" using iv(2) ids(1) by auto
    show "decryptAndVerify X (seal X iv b new) (fst ?old) (snd ?old) = Err MACMismatch"
      using that by (simp add: decrypt_seal [OF assms(1) iv(1)] ciphertext_of_seal [OF assms(1)])
  qed (use chain' in simp_all)
  moreover have "decryptAndVerify X (seal X iv b new) (fst new) (snd new) = Ok b"
    using decrypt_seal_same [OF assms(1) iv(1), of b "fst new" "snd new"] by simp
  ultimately show "\<exists>w' q b. RevokeAccess X memory_services fn r (lose v w) = (Err (BlockNotFound fn), w')
      \<and> (\<forall>k. k \<notin> set (u # us) \<longrightarrow> store_of w' k = store_of (lose v w) k)
      \<and> store_of w' u = Some q \<and> decryptAndVerify X q (fst new) (snd new) = Ok b
      \<and> (mac_of X (snd ?old) (ciphertext_of q) \<noteq> mac_of X (snd new) (ciphertext_of q) \<longrightarrow>
          LoadFile X memory_services fn (put v p w') = (Err (Wrap ''failed to decrypt block'' MACMismatch), put v p w'))"
    using w'(1,3) iv(2) by blast
qed

theorem revoke_is_not_atomic_witness:
  "\<exists>w w' p. LoadFile sample memory_services ''g'' (put (uuid_at sample 14) p (lose (uuid_at sample 14) w))
        = (Ok (replicate 600 0), put (uuid_at sample 14) p (lose (uuid_at sample 14) w))
    \<and> RevokeAccess sample memory_services ''g'' ''bob'' (lose (uuid_at sample 14) w) = (Err (BlockNotFound ''g''), w')
    \<and> fst (LoadFile sample memory_services ''g'' (put (uuid_at sample 14) p w'))
        = Err (Wrap ''failed to decrypt block'' MACMismatch)"
proof -
  let ?c = "replicate 600 (0 :: byte)" and ?i = "new_inode sample 6 (replicate 600 0)"
  have n: "block_num 600 = 2" by (simp add: block_num_def BlockSize_def)
  have "fresh_uuids sample 6 (store_draws ?c) {access_uuid sample ''alice'' ''g'', user_uuid sample ''alice''}"
    by (rule sample_fresh) (auto simp: sample_ids_def sample_name_ids byte_of_char_def store_draws_def n)
  then have can: "can_store sample ''g'' ?c alice_session"
    using alice_names_distinct by (simp add: can_store_def)
  obtain w where w: "w = after_store sample ''g'' ?c alice_session" by blast
  have view: "view sample (store_of w) (self w) ''g'' g_access g_node ?i ?c"
    unfolding w using after_store_view [OF sample_crypto_ok sample_uuid_ok can] by (simp only: alice_session_sel)
  have dist: "distinct (view_ids sample (self w) ''g'' g_access g_node ?i)"
    using new_view_distinct [OF can] by (simp add: w view_ids_def with_file_def)
  have blocks: "in_BlockUUIDs ?i = uuid_at sample 12 # [] @ uuid_at sample 14 # []"
    by (simp add: new_inode_def n upt_conv_Cons)
  then have "uuid_at sample 14 \<in> dom (store_of w)" using view_ids_dom [OF view] by (auto simp: view_ids_def)
  then obtain p where p: "store_of w (uuid_at sample 14) = Some p" by blast
  have "draws w = 18" by (simp add: w store_draws_def n)
  then have "mac_of sample (snd (file_keys sample (mb_FileKey g_node))) ct
      \<noteq> mac_of sample (snd (file_keys sample (rand_at sample (draws w) 16))) ct" for ct
    using sample_keys_differ [of 6 18 ct] by (simp add: new_node_def)
  with revoke_is_not_atomic [OF sample_crypto_ok sample_uuid_ok view dist blocks p refl, of "''bob''"]
  show ?thesis by (metis fst_conv)
qed

end
