(* ===== verification/App.thy ===== *)
theory App
  imports Invitation_Service
begin

text \<open>
  The client object of \<open>internal/client/app/app.go\<close>: the logged-in user and the three services,
  which are made on the first \<open>InitUser\<close> or \<open>GetUser\<close>. Until then the service pointers are nil, and
  until a login succeeds the user pointer is nil; what the methods do then is part of the model.
\<close>

record 'b client = "'b world" +
  user :: "User option"
  has_services :: bool

definition ensureServices :: "('b client, go_error, unit) comp" where
  "ensureServices = modify (\<lambda>c. c\<lparr>has_services := True\<rparr>)"

definition set_user :: "User \<Rightarrow> ('b client, go_error, unit) comp" where
  "set_user u = modify (\<lambda>c. c\<lparr>user := Some u\<rparr>)"

text \<open>
  A service method is given the user by pointer: what it changes of the struct stays changed,
  also when it fails. It starts by reading a field of the struct, so a nil user panics.
\<close>

definition with_user :: "('b session, go_error, 'a) comp \<Rightarrow> ('b client, go_error, 'a) comp" where
  "with_user f c = (case user c of
     None \<Rightarrow> (Panic ''nil pointer dereference'', c)
   | Some u \<Rightarrow> (case f \<lparr>draws = draws c, backend = backend c, self = u\<rparr> of (r, s) \<Rightarrow>
       (r, c\<lparr>draws := draws s, backend := backend s, user := Some (self s)\<rparr>)))"

definition app_InitUser :: "ext \<Rightarrow> 'b services \<Rightarrow> string \<Rightarrow> string \<Rightarrow> ('b client, go_error, unit) comp" where
  "app_InitUser X S username password =
     bnd ensureServices (\<lambda>_.
     bnd (InitUser X S username password) (\<lambda>u.
     set_user u))"

definition app_GetUser :: "ext \<Rightarrow> 'b services \<Rightarrow> string \<Rightarrow> string \<Rightarrow> ('b client, go_error, unit) comp" where
  "app_GetUser X S username password =
     bnd ensureServices (\<lambda>_.
     bnd (GetUser X S username password) (\<lambda>u.
     set_user u))"

definition app_StoreFile :: "ext \<Rightarrow> 'b services \<Rightarrow> string \<Rightarrow> bytes \<Rightarrow> ('b client, go_error, unit) comp" where
  "app_StoreFile X S filename content = with_user (StoreFile X S filename content)"

definition app_LoadFile :: "ext \<Rightarrow> 'b services \<Rightarrow> string \<Rightarrow> ('b client, go_error, bytes) comp" where
  "app_LoadFile X S filename = with_user (LoadFile X S filename)"

text \<open>\<open>AppendToFile\<close> looks at the content before it looks at the user.\<close>

definition app_AppendToFile :: "ext \<Rightarrow> 'b services \<Rightarrow> string \<Rightarrow> bytes option \<Rightarrow> ('b client, go_error, unit) comp" where
  "app_AppendToFile X S filename content =
     (if content = None then raise ContentNil else with_user (AppendToFile X S filename content))"

definition app_CreateInvitation :: "ext \<Rightarrow> 'b services \<Rightarrow> string \<Rightarrow> string \<Rightarrow> ('b client, go_error, UUID) comp" where
  "app_CreateInvitation X S filename recipientUsername = with_user (CreateInvitation X S filename recipientUsername)"

text \<open>
  \<open>AcceptInvitation\<close> reads the user only after the signature is verified: with services and
  without a user it gets that far, without services it panics at once.
\<close>

definition accept_without_user :: "ext \<Rightarrow> 'b services \<Rightarrow> string \<Rightarrow> UUID \<Rightarrow> ('b client, go_error, unit) comp" where
  "accept_without_user X S senderUsername invitationPtr =
     bnd (storage_Get S invitationPtr) (\<lambda>found. case found of
       None \<Rightarrow> raise (InvitationNotFound invitationPtr)
     | Some invitationPayload \<Rightarrow>
     if length invitationPayload < 256 then raise InvitationTooShort else
     let sigOffset = length invitationPayload - 256;
         ciphertext = take sigOffset invitationPayload;
         signature = drop sigOffset invitationPayload in
     bnd (keyStore_Get S (senderUsername @ ''_sig_pub'')) (\<lambda>found. case found of
       None \<Rightarrow> raise (SenderKeyNotFound senderUsername)
     | Some senderVerifyKey \<Rightarrow>
     bnd (assert_key senderVerifyKey) (\<lambda>vk.
     bnd (map_err (\<lambda>_. SignatureInvalid senderUsername)
            (lift_outcome (dsVerify X vk ciphertext signature))) (\<lambda>_.
     go_panic ''nil pointer dereference''))))"

definition app_AcceptInvitation :: "ext \<Rightarrow> 'b services \<Rightarrow> string \<Rightarrow> UUID \<Rightarrow> string \<Rightarrow> ('b client, go_error, unit) comp" where
  "app_AcceptInvitation X S senderUsername invitationPtr filename =
     bnd (gets has_services) (\<lambda>made. bnd (gets user) (\<lambda>u.
     if \<not> made then go_panic ''nil pointer dereference''
     else if u = None then accept_without_user X S senderUsername invitationPtr
     else with_user (AcceptInvitation X S senderUsername invitationPtr filename)))"

definition app_RevokeAccess :: "ext \<Rightarrow> 'b services \<Rightarrow> string \<Rightarrow> string \<Rightarrow> ('b client, go_error, unit) comp" where
  "app_RevokeAccess X S filename recipientUsername = with_user (RevokeAccess X S filename recipientUsername)"

definition app_ListFiles :: "ext \<Rightarrow> ('b client, go_error, string list) comp" where
  "app_ListFiles X = bnd (gets user) (\<lambda>u. if u = None then ret [] else with_user (ListFiles X))"

section \<open>Sequences of calls\<close>

datatype call =
    InitUser_call string string
  | GetUser_call string string
  | StoreFile_call string bytes
  | LoadFile_call string
  | AppendToFile_call string "bytes option"
  | CreateInvitation_call string string
  | AcceptInvitation_call string UUID string
  | RevokeAccess_call string string
  | ListFiles_call

datatype answer = Nothing | Content bytes | Pointer UUID | Names "string list"

fun run_call :: "ext \<Rightarrow> 'b services \<Rightarrow> call \<Rightarrow> ('b client, go_error, answer) comp" where
  "run_call X S (InitUser_call n p) = bnd (app_InitUser X S n p) (\<lambda>_. ret Nothing)"
| "run_call X S (GetUser_call n p) = bnd (app_GetUser X S n p) (\<lambda>_. ret Nothing)"
| "run_call X S (StoreFile_call fn c) = bnd (app_StoreFile X S fn c) (\<lambda>_. ret Nothing)"
| "run_call X S (LoadFile_call fn) = bnd (app_LoadFile X S fn) (\<lambda>b. ret (Content b))"
| "run_call X S (AppendToFile_call fn c) = bnd (app_AppendToFile X S fn c) (\<lambda>_. ret Nothing)"
| "run_call X S (CreateInvitation_call fn r) = bnd (app_CreateInvitation X S fn r) (\<lambda>p. ret (Pointer p))"
| "run_call X S (AcceptInvitation_call s p fn) = bnd (app_AcceptInvitation X S s p fn) (\<lambda>_. ret Nothing)"
| "run_call X S (RevokeAccess_call fn r) = bnd (app_RevokeAccess X S fn r) (\<lambda>_. ret Nothing)"
| "run_call X S ListFiles_call = bnd (app_ListFiles X) (\<lambda>ns. ret (Names ns))"

text \<open>The calls of one process, in order: an error is answered and the process goes on, a panic ends it.\<close>

fun run_calls :: "ext \<Rightarrow> 'b services \<Rightarrow> call list \<Rightarrow> 'b client \<Rightarrow> (go_error, answer) outcome list \<times> 'b client" where
  "run_calls X S [] c = ([], c)"
| "run_calls X S (k # ks) c = (case run_call X S k c of
     (Panic p, c') \<Rightarrow> ([Panic p], c')
   | (r, c') \<Rightarrow> (case run_calls X S ks c' of (rs, c'') \<Rightarrow> (r # rs, c'')))"

definition new_client :: "'b \<Rightarrow> nat \<Rightarrow> 'b client" where
  "new_client b d = \<lparr>draws = d, backend = b, user = None, has_services = False\<rparr>"

end
