(* ===== verification/Wire.thy ===== *)
theory Wire
  imports Json Go_External
begin

unbundle bit_operations_syntax

text \<open>
  The network protocol, both ends: the request writer and the response readers of
  \<open>internal/userlib/userlib.go\<close>, and the response writers of
  \<open>internal/server/handler/handler.go\<close>. Lengths travel as 32-bit big-endian words, so a length
  of \<open>2 ^ 32\<close> or more is cut.
\<close>

section \<open>Big-endian 32-bit words\<close>

definition PutUint32 :: "32 word \<Rightarrow> bytes" where
  "PutUint32 v = [ucast (drop_bit 24 v), ucast (drop_bit 16 v), ucast (drop_bit 8 v), ucast v]"

fun Uint32 :: "bytes \<Rightarrow> 32 word" where
  "Uint32 (b0 # b1 # b2 # b3 # _) =
     ucast b3 OR push_bit 8 (ucast b2) OR push_bit 16 (ucast b1) OR push_bit 24 (ucast b0)"
| "Uint32 _ = 0"

lemma Uint32_PutUint32 [simp]: "Uint32 (PutUint32 v) = v"
  unfolding PutUint32_def Uint32.simps
proof (rule bit_eqI)
  fix n assume "possible_bit TYPE(32 word) n"
  then show "bit (ucast (ucast v :: byte) OR push_bit 8 (ucast (ucast (drop_bit 8 v) :: byte))
      OR push_bit 16 (ucast (ucast (drop_bit 16 v) :: byte))
      OR push_bit 24 (ucast (ucast (drop_bit 24 v) :: byte)) :: 32 word) n = bit v n"
    by (cases "24 \<le> n"; cases "16 \<le> n"; cases "8 \<le> n") (auto simp: bit_simps)
qed

lemma length_PutUint32 [simp, len_simps]: "length (PutUint32 v) = 4"
  by (simp add: PutUint32_def)

section \<open>A byte stream in each direction\<close>

record conn =
  inp :: bytes
  outp :: bytes

text \<open>\<open>io.ReadFull\<close> of \<open>n\<close> bytes; \<open>Write\<close> appends (errors of writing are not modelled).\<close>

definition ReadFull :: "nat \<Rightarrow> ('z conn_scheme, go_error, bytes) comp" where
  "ReadFull n c =
     (if n \<le> length (inp c) then (Ok (take n (inp c)), c\<lparr>inp := drop n (inp c)\<rparr>)
      else (Err (External (if inp c = [] then ''EOF'' else ''unexpected EOF'')), c\<lparr>inp := []\<rparr>))"

definition Write :: "bytes \<Rightarrow> ('z conn_scheme, go_error, unit) comp" where
  "Write b c = (Ok (), c\<lparr>outp := outp c @ b\<rparr>)"

text \<open>\<open>if err != nil { panic(err) }\<close>\<close>

definition or_panic :: "('s, go_error, 'a) comp \<Rightarrow> ('s, go_error, 'a) comp" where
  "or_panic m s = (case m s of (Err e, s') \<Rightarrow> (Panic ''panic(err)'', s') | r \<Rightarrow> r)"

section \<open>The client's end\<close>

definition opGet :: byte where "opGet = 1"
definition opSet :: byte where "opSet = 2"
definition opDelete :: byte where "opDelete = 3"
definition statusOK :: byte where "statusOK = 0"
definition statusNotFound :: byte where "statusNotFound = 1"

definition writeOp :: "byte \<Rightarrow> bytes \<Rightarrow> bytes \<Rightarrow> ('z conn_scheme, go_error, unit) comp" where
  "writeOp op key val =
     bnd (Write [op]) (\<lambda>_.
     bnd (Write (PutUint32 (word_of_nat (length key)))) (\<lambda>_.
     bnd (Write key) (\<lambda>_.
     if op = opSet then
       bnd (Write (PutUint32 (word_of_nat (length val)))) (\<lambda>_. Write val)
     else ret ())))"

definition readStatus :: "('z conn_scheme, go_error, byte) comp" where
  "readStatus = bnd (or_panic (ReadFull 1)) (\<lambda>buf. ret (buf ! 0))"

definition readValue :: "('z conn_scheme, go_error, bytes option) comp" where
  "readValue =
     bnd readStatus (\<lambda>status.
     if status = statusNotFound then ret None else
     bnd (or_panic (ReadFull 4)) (\<lambda>vl.
     bnd (or_panic (ReadFull (unat (Uint32 vl)))) (\<lambda>val.
     ret (Some val))))"

section \<open>The server's writers\<close>

definition StatusOK :: byte where "StatusOK = 0"
definition StatusNotFound :: byte where "StatusNotFound = 1"
definition StatusError :: byte where "StatusError = 2"

definition writeStatus :: "byte \<Rightarrow> ('z conn_scheme, go_error, unit) comp" where
  "writeStatus status = Write [status]"

definition writeValue :: "bytes \<Rightarrow> ('z conn_scheme, go_error, unit) comp" where
  "writeValue val = Write (StatusOK # PutUint32 (word_of_nat (length val)) @ val)"

definition writeError :: "string \<Rightarrow> ('z conn_scheme, go_error, unit) comp" where
  "writeError msg = Write (StatusError # PutUint32 (word_of_nat (length msg)) @ bytes_of_string msg)"

section \<open>What is written and read\<close>

definition request :: "byte \<Rightarrow> bytes \<Rightarrow> bytes \<Rightarrow> bytes" where
  "request op key val = op # PutUint32 (word_of_nat (length key)) @ key
     @ (if op = opSet then PutUint32 (word_of_nat (length val)) @ val else [])"

lemma writeOp_eq [monad_simps]: "writeOp op key val c = (Ok (), c\<lparr>outp := outp c @ request op key val\<rparr>)"
  by (simp add: writeOp_def bnd_def Write_def ret_def request_def)

lemma ReadFull_ok [monad_simps]:
  "inp c = b @ r \<Longrightarrow> length b = n \<Longrightarrow> ReadFull n c = (Ok b, c\<lparr>inp := r\<rparr>)"
  by (simp add: ReadFull_def)

lemma ReadFull_short: "length (inp c) < n \<Longrightarrow>
  ReadFull n c = (Err (External (if inp c = [] then ''EOF'' else ''unexpected EOF'')), c\<lparr>inp := []\<rparr>)"
  by (simp add: ReadFull_def)

lemma or_panic_Ok [monad_simps]: "m s = (Ok x, s') \<Longrightarrow> or_panic m s = (Ok x, s')"
  by (simp add: or_panic_def)

lemma or_panic_Err [monad_simps]: "m s = (Err e, s') \<Longrightarrow> or_panic m s = (Panic ''panic(err)'', s')"
  by (simp add: or_panic_def)

lemma readStatus_ok: "inp c = b # r \<Longrightarrow> readStatus c = (Ok b, c\<lparr>inp := r\<rparr>)"
  by (simp add: readStatus_def monad_simps ReadFull_ok [of c "[b]" r])

lemma unat_length_32: "n < 2 ^ 32 \<Longrightarrow> unat (word_of_nat n :: 32 word) = n"
  by (simp add: unat_of_nat)

text \<open>The client reads a value back exactly when its length fits in 32 bits.\<close>

lemma readValue_value:
  assumes "inp c = st # PutUint32 (word_of_nat (length v)) @ v" "st \<noteq> statusNotFound" "length v < 2 ^ 32"
  shows "readValue c = (Ok (Some v), c\<lparr>inp := []\<rparr>)"
  using assms
  by (simp add: readValue_def monad_simps readStatus_ok ReadFull_ok [of _ "PutUint32 w" for w]
      ReadFull_ok [of _ v "[]"] unat_length_32)

lemma readValue_NotFound: "inp c = statusNotFound # r \<Longrightarrow> readValue c = (Ok None, c\<lparr>inp := r\<rparr>)"
  by (simp add: readValue_def monad_simps readStatus_ok)

end
