(* ===== verification/Server.thy ===== *)
theory Server
  imports Wire
begin

text \<open>
  The storage server: \<open>internal/server/store/store.go\<close> over the database Badger, the request
  handler \<open>internal/server/handler/handler.go\<close>, and the loop over one connection of
  \<open>internal/server/server.go\<close>. Badger is not part of the repository: it is the record \<open>badger\<close>,
  and \<open>badger_ok\<close> states what its documentation promises.
\<close>

section \<open>Badger and the store\<close>

datatype db_error = ErrKeyNotFound | DbError string

fun db_message :: "db_error \<Rightarrow> string" where
  "db_message ErrKeyNotFound = ''Key not found''"
| "db_message (DbError m) = m"

record ('db, 'i) badger =
  bd_Get :: "bytes \<Rightarrow> 'db \<Rightarrow> (db_error, 'i) outcome"
  bd_ValueCopy :: "'i \<Rightarrow> (db_error, bytes) outcome"
  bd_Set :: "bytes \<Rightarrow> bytes \<Rightarrow> 'db \<Rightarrow> db_error option \<times> 'db"
  bd_SetEntry :: "bytes \<Rightarrow> bytes \<Rightarrow> int \<Rightarrow> 'db \<Rightarrow> db_error option \<times> 'db"
  bd_Delete :: "bytes \<Rightarrow> 'db \<Rightarrow> db_error option \<times> 'db"

text \<open>
  \<open>contents\<close> is what a database holds. A read that succeeds or reports \<open>ErrKeyNotFound\<close> tells the
  truth, a committed transaction is in effect and a failed one changed nothing; \<open>fits k v\<close> says
  that Badger accepts the entry (it refuses the empty key, keys of more than 65000 bytes, keys
  that start with its own prefix and transactions that are too big), and then no operation on
  it fails. Transactions that only write do not conflict with each other.
\<close>

definition badger_ok :: "('db, 'i) badger \<Rightarrow> ('db \<Rightarrow> bytes \<rightharpoonup> bytes) \<Rightarrow> (bytes \<Rightarrow> bytes \<Rightarrow> bool) \<Rightarrow> bool" where
  "badger_ok B contents fits \<longleftrightarrow>
     (\<forall>db k. bd_Get B k db = Err ErrKeyNotFound \<longrightarrow> contents db k = None)
   \<and> (\<forall>db k i v. bd_Get B k db = Ok i \<longrightarrow> bd_ValueCopy B i = Ok v \<longrightarrow> contents db k = Some v)
   \<and> (\<forall>db db' k v. bd_Set B k v db = (None, db') \<longrightarrow> contents db' = (contents db)(k \<mapsto> v))
   \<and> (\<forall>db db' k. bd_Delete B k db = (None, db') \<longrightarrow> contents db' = (contents db)(k := None))
   \<and> (\<forall>db db' k v e. bd_Set B k v db = (Some e, db') \<longrightarrow> contents db' = contents db)
   \<and> (\<forall>db db' k e. bd_Delete B k db = (Some e, db') \<longrightarrow> contents db' = contents db)
   \<and> (\<forall>db k v. fits k v \<longrightarrow> fits k [] \<and> fst (bd_Set B k v db) = None)
   \<and> (\<forall>db k. fits k [] \<longrightarrow> fst (bd_Delete B k db) = None)
   \<and> (\<forall>db k. fits k [] \<longrightarrow> bd_Get B k db = Err ErrKeyNotFound
        \<or> (\<exists>i v. bd_Get B k db = Ok i \<and> bd_ValueCopy B i = Ok v))"

text \<open>Badger reports errors, it does not panic.\<close>

definition badger_calm :: "('db, 'i) badger \<Rightarrow> bool" where
  "badger_calm B \<longleftrightarrow> (\<forall>k db p. bd_Get B k db \<noteq> Panic p) \<and> (\<forall>i p. bd_ValueCopy B i \<noteq> Panic p)"

definition Store_Get :: "('db, 'i) badger \<Rightarrow> bytes \<Rightarrow> 'db \<Rightarrow> (db_error, bytes) outcome" where
  "Store_Get B key db = obind (bd_Get B key db) (\<lambda>item. bd_ValueCopy B item)"

definition Store_Set :: "('db, 'i) badger \<Rightarrow> bytes \<Rightarrow> bytes \<Rightarrow> 'db \<Rightarrow> db_error option \<times> 'db" where
  "Store_Set B key val db = bd_Set B key val db"

definition Store_SetWithTTL :: "('db, 'i) badger \<Rightarrow> bytes \<Rightarrow> bytes \<Rightarrow> int \<Rightarrow> 'db \<Rightarrow> db_error option \<times> 'db" where
  "Store_SetWithTTL B key val ttl db = bd_SetEntry B key val ttl db"

definition Store_Delete :: "('db, 'i) badger \<Rightarrow> bytes \<Rightarrow> 'db \<Rightarrow> db_error option \<times> 'db" where
  "Store_Delete B key db = bd_Delete B key db"

definition Store_Exists :: "('db, 'i) badger \<Rightarrow> bytes \<Rightarrow> 'db \<Rightarrow> (db_error, bool) outcome" where
  "Store_Exists B key db = (case bd_Get B key db of
     Err ErrKeyNotFound \<Rightarrow> Ok False
   | Err e \<Rightarrow> Err e
   | Panic p \<Rightarrow> Panic p
   | Ok _ \<Rightarrow> Ok True)"

section \<open>The handler\<close>

text \<open>One connection and the database behind it.\<close>

record 'db serving = conn +
  db :: 'db

definition OpGet :: byte where "OpGet = 1"
definition OpSet :: byte where "OpSet = 2"
definition OpDelete :: byte where "OpDelete = 3"

definition on_db :: "('db \<Rightarrow> 'a \<times> 'db) \<Rightarrow> ('db serving, go_error, 'a) comp" where
  "on_db f c = (case f (db c) of (r, d) \<Rightarrow> (Ok r, c\<lparr>db := d\<rparr>))"

definition handleGet :: "('db, 'i) badger \<Rightarrow> bytes \<Rightarrow> ('db serving, go_error, unit) comp" where
  "handleGet B key = bnd (gets (\<lambda>c. Store_Get B key (db c))) (\<lambda>r. case r of
     Err ErrKeyNotFound \<Rightarrow> writeStatus StatusNotFound
   | Err e \<Rightarrow> writeError (db_message e)
   | Panic p \<Rightarrow> go_panic p
   | Ok val \<Rightarrow> writeValue val)"

definition handleSet :: "('db, 'i) badger \<Rightarrow> bytes \<Rightarrow> ('db serving, go_error, unit) comp" where
  "handleSet B key =
     bnd (ReadFull 4) (\<lambda>valLen.
     bnd (ReadFull (unat (Uint32 valLen))) (\<lambda>val.
     bnd (on_db (Store_Set B key val)) (\<lambda>err. case err of
       Some e \<Rightarrow> writeError (db_message e)
     | None \<Rightarrow> writeStatus StatusOK)))"

definition handleDelete :: "('db, 'i) badger \<Rightarrow> bytes \<Rightarrow> ('db serving, go_error, unit) comp" where
  "handleDelete B key = bnd (on_db (Store_Delete B key)) (\<lambda>err. case err of
     Some e \<Rightarrow> writeError (db_message e)
   | None \<Rightarrow> writeStatus StatusOK)"

definition Handle :: "('db, 'i) badger \<Rightarrow> ('db serving, go_error, unit) comp" where
  "Handle B =
     bnd (ReadFull 1) (\<lambda>op.
     bnd (ReadFull 4) (\<lambda>keyLen.
     bnd (ReadFull (unat (Uint32 keyLen))) (\<lambda>key.
     if op ! 0 = OpGet then handleGet B key
     else if op ! 0 = OpSet then handleSet B key
     else if op ! 0 = OpDelete then handleDelete B key
     else writeError (''unknown op: '' @ show_nat (unat (op ! 0))))))"

section \<open>The loop over a connection\<close>

lemma ReadFull_le: "ReadFull n c = (r, c') \<Longrightarrow> length (inp c') \<le> length (inp c) - n"
  by (auto simp: ReadFull_def split: if_splits)

lemma inp_Write [simp]: "inp (snd (Write b c)) = inp c"
  by (simp add: Write_def)

lemma inp_on_db [simp]: "inp (snd (on_db f c)) = inp c"
  by (simp add: on_db_def split: prod.split)

definition shrinks :: "('z conn_scheme, 'e, 'a) comp \<Rightarrow> bool" where
  "shrinks m \<longleftrightarrow> (\<forall>c. length (inp (snd (m c))) \<le> length (inp c))"

lemma shrinks_bnd: "shrinks m \<Longrightarrow> (\<And>x. shrinks (f x)) \<Longrightarrow> shrinks (bnd m f)"
  unfolding shrinks_def bnd_def
  by (auto split: prod.split outcome.split) (metis order_trans snd_conv)+

lemma shrinks_basic: "shrinks (ReadFull n)" "shrinks (Write b)" "shrinks (gets f)" "shrinks (go_panic p)"
  "shrinks (on_db g)"
  by (auto simp: shrinks_def monad_simps Write_def on_db_def ReadFull_def split: prod.split)

lemma shrinks_handlers: "shrinks (handleGet B key)" "shrinks (handleSet B key)" "shrinks (handleDelete B key)"
  unfolding handleGet_def handleSet_def handleDelete_def writeStatus_def writeValue_def writeError_def
  by (auto intro!: shrinks_bnd shrinks_basic split: option.split outcome.split db_error.split)

text \<open>A request that is answered has consumed its first byte at least.\<close>

lemma Handle_consumes:
  assumes "Handle B c = (Ok (), c')"
  shows "length (inp c') < length (inp c)"
proof -
  define f where "f = (\<lambda>op. bnd (ReadFull 4) (\<lambda>keyLen. bnd (ReadFull (unat (Uint32 keyLen))) (\<lambda>key.
     if op ! 0 = OpGet then handleGet B key
     else if op ! 0 = OpSet then handleSet B key
     else if op ! 0 = OpDelete then handleDelete B key
     else writeError (''unknown op: '' @ show_nat (unat (op ! 0))))))"
  have f: "Handle B = bnd (ReadFull 1) f" by (simp add: f_def Handle_def)
  have small: "shrinks (f op)" for op
    unfolding f_def writeError_def by (auto intro!: shrinks_bnd shrinks_basic shrinks_handlers)
  obtain op c1 where c1: "ReadFull 1 c = (Ok op, c1)" "f op c1 = (Ok (), c')"
    using assms unfolding f bnd_eq_Ok by blast
  have "length (inp c1) < length (inp c)"
    using c1(1) by (auto simp: ReadFull_def split: if_splits)
  moreover have "length (inp (snd (f op c1))) \<le> length (inp c1)"
    using small by (simp add: shrinks_def)
  ultimately show ?thesis using c1(2) by simp
qed

text \<open>
  \<open>handleConn\<close>: requests are handled until one fails; the error it closes with is returned. It
  returns on every input since each handled request consumes some of it.
\<close>

function handleConn :: "('db, 'i) badger \<Rightarrow> 'db serving \<Rightarrow> (go_error, unit) outcome \<times> 'db serving" where
  "handleConn B c = (case Handle B c of
     (Ok (), c') \<Rightarrow> handleConn B c'
   | (Err e, c') \<Rightarrow> (Err e, c')
   | (Panic p, c') \<Rightarrow> (Panic p, c'))"
  by pat_completeness auto
termination
  by (relation "measure (\<lambda>(B, c). length (inp c))") (auto dest: Handle_consumes [OF sym])

declare handleConn.simps [simp del]

end
