(* ===== verification/Userlib_Store.thy ===== *)
theory Userlib_Store
  imports Server Services
begin

text \<open>
  The data store and the key store of \<open>internal/userlib/userlib.go\<close>, which live in the process
  or, after \<open>Connect\<close>, behind a server, and the adapters \<open>UserlibStorage\<close> and
  \<open>UserlibKeyStore\<close> of \<open>internal/client/encryption/memory.go\<close> over them. A remote operation
  dials, writes one request and reads one response; at the other end of the connection runs the
  server of this repository, so the exchange is \<open>writeOp\<close>, \<open>handleConn\<close> and the reader composed.
\<close>

section \<open>State\<close>

text \<open>
  The package variables, per process. The maps are sharded by \<open>CurrentSpecReport().LineNumber()\<close>
  (the line of the running test, 0 outside one), here \<open>spec_line\<close>. \<open>local_keys\<close> is the cache of the one
  \<open>UserlibKeyStore\<close> of the client. \<open>dials\<close> counts the dial attempts, \<open>remote_db\<close> is the database
  of the server at \<open>remoteAddr\<close>.
\<close>

record 'db userlib =
  remoteAddr :: string
  useTLS :: bool
  spec_line :: int
  datastore :: "int \<rightharpoonup> (UUID \<rightharpoonup> bytes)"
  keystore :: "int \<rightharpoonup> (string \<rightharpoonup> PublicKeyType)"
  datastoreBandwidth :: "int \<rightharpoonup> int"
  local_keys :: "string \<rightharpoonup> PublicKeyType"
  dials :: nat
  remote_db :: 'db

text \<open>The network: whether the \<open>i\<close>-th dial fails, and the database of the server dialled.\<close>

record ('db, 'i) network =
  dial_error :: "nat \<Rightarrow> bool \<Rightarrow> string \<Rightarrow> string option"
  served_by :: "('db, 'i) badger"

definition Connect :: "string \<Rightarrow> bool \<Rightarrow> ('db userlib, go_error, unit) comp" where
  "Connect address tlsEnabled = modify (\<lambda>u. u\<lparr>remoteAddr := address, useTLS := tlsEnabled\<rparr>)"

definition Disconnect :: "('db userlib, go_error, unit) comp" where
  "Disconnect = modify (\<lambda>u. u\<lparr>remoteAddr := ''''\<rparr>)"

definition isConnected :: "'db userlib \<Rightarrow> bool" where
  "isConnected u \<longleftrightarrow> remoteAddr u \<noteq> ''''"

definition dial :: "('db, 'i) network \<Rightarrow> ('db userlib, go_error, unit) comp" where
  "dial N u = (case dial_error N (dials u) (useTLS u) (remoteAddr u) of
     None \<Rightarrow> (Ok (), u\<lparr>dials := Suc (dials u)\<rparr>)
   | Some e \<Rightarrow> (Err (External e), u\<lparr>dials := Suc (dials u)\<rparr>))"

section \<open>One request over one connection\<close>

text \<open>
  The client writes its request, the server's goroutine for the connection runs until the client
  is done, and the client reads what it was sent.
\<close>

definition exchange :: "('db, 'i) network \<Rightarrow> byte \<Rightarrow> bytes \<Rightarrow> bytes \<Rightarrow> (conn, go_error, 'a) comp
    \<Rightarrow> ('db userlib, go_error, 'a) comp" where
  "exchange N op key val reader u =
     (let sent = snd (writeOp op key val (\<lparr>inp = [], outp = []\<rparr> :: conn));
          served = snd (handleConn (served_by N) \<lparr>inp = outp sent, outp = [], db = remote_db u\<rparr>)
      in (fst (reader \<lparr>inp = outp served, outp = []\<rparr>), u\<lparr>remote_db := db served\<rparr>))"

section \<open>Shards\<close>

text \<open>\<open>LoadOrStore(pid, make(...))\<close>: a shard that is missing is created.\<close>

definition getKeystoreShard :: "('db userlib, go_error, string \<rightharpoonup> PublicKeyType) comp" where
  "getKeystoreShard u = (case keystore u (spec_line u) of
     Some m \<Rightarrow> (Ok m, u)
   | None \<Rightarrow> (Ok Map.empty, u\<lparr>keystore := (keystore u)(spec_line u \<mapsto> Map.empty)\<rparr>))"

definition getDatastoreShard :: "('db userlib, go_error, UUID \<rightharpoonup> bytes) comp" where
  "getDatastoreShard u = (case datastore u (spec_line u) of
     Some m \<Rightarrow> (Ok m, u)
   | None \<Rightarrow> (Ok Map.empty, u\<lparr>datastore := (datastore u)(spec_line u \<mapsto> Map.empty)\<rparr>))"

definition getDatastoreBandwidthShard :: "('db userlib, go_error, int) comp" where
  "getDatastoreBandwidthShard u = (case datastoreBandwidth u (spec_line u) of
     Some n \<Rightarrow> (Ok n, u)
   | None \<Rightarrow> (Ok 0, u\<lparr>datastoreBandwidth := (datastoreBandwidth u)(spec_line u \<mapsto> 0)\<rparr>))"

text \<open>The shards are references: a write goes to the shard of the map.\<close>

definition set_keystore_shard :: "(string \<rightharpoonup> PublicKeyType) \<Rightarrow> ('db userlib, go_error, unit) comp" where
  "set_keystore_shard m = modify (\<lambda>u. u\<lparr>keystore := (keystore u)(spec_line u \<mapsto> m)\<rparr>)"

definition set_datastore_shard :: "(UUID \<rightharpoonup> bytes) \<Rightarrow> ('db userlib, go_error, unit) comp" where
  "set_datastore_shard m = modify (\<lambda>u. u\<lparr>datastore := (datastore u)(spec_line u \<mapsto> m)\<rparr>)"

definition set_bandwidth :: "int \<Rightarrow> ('db userlib, go_error, unit) comp" where
  "set_bandwidth n = modify (\<lambda>u. u\<lparr>datastoreBandwidth := (datastoreBandwidth u)(spec_line u \<mapsto> n)\<rparr>)"

section \<open>The data store\<close>

definition datastoreSet :: "('db, 'i) network \<Rightarrow> UUID \<Rightarrow> bytes \<Rightarrow> ('db userlib, go_error, unit) comp" where
  "datastoreSet N key value = bnd (gets isConnected) (\<lambda>connected.
     if connected then
       bnd (or_panic (dial N)) (\<lambda>_.
       bnd (exchange N opSet key value readStatus) (\<lambda>_. ret ()))
     else
       bnd getDatastoreBandwidthShard (\<lambda>bandwidth.
       bnd (set_bandwidth (wrap64 (bandwidth + int (length value)))) (\<lambda>_.
       bnd getDatastoreShard (\<lambda>datastoreShard.
       set_datastore_shard (datastoreShard(key \<mapsto> value))))))"

text \<open>The values of a shard are copies made by \<open>datastoreSet\<close>, which are never nil.\<close>

definition datastoreGet :: "('db, 'i) network \<Rightarrow> UUID \<Rightarrow> ('db userlib, go_error, bytes option) comp" where
  "datastoreGet N key = bnd (gets isConnected) (\<lambda>connected.
     if connected then
       bnd (or_panic (dial N)) (\<lambda>_. exchange N opGet key [] readValue)
     else
       bnd getDatastoreShard (\<lambda>datastoreShard.
       case datastoreShard key of
         None \<Rightarrow> ret None
       | Some value \<Rightarrow>
           bnd getDatastoreBandwidthShard (\<lambda>bandwidth.
           bnd (set_bandwidth (wrap64 (bandwidth + int (length value)))) (\<lambda>_.
           ret (Some value)))))"

definition datastoreDelete :: "('db, 'i) network \<Rightarrow> UUID \<Rightarrow> ('db userlib, go_error, unit) comp" where
  "datastoreDelete N key = bnd (gets isConnected) (\<lambda>connected.
     if connected then
       bnd (or_panic (dial N)) (\<lambda>_.
       bnd (exchange N opDelete key [] readStatus) (\<lambda>_. ret ()))
     else
       bnd getDatastoreShard (\<lambda>datastoreShard.
       set_datastore_shard (datastoreShard(key := None))))"

definition datastoreClear :: "('db userlib, go_error, unit) comp" where
  "datastoreClear = bnd (gets isConnected) (\<lambda>connected.
     if connected then ret ()
     else bnd getDatastoreShard (\<lambda>_. set_datastore_shard Map.empty))"

definition DatastoreResetBandwidth :: "('db userlib, go_error, unit) comp" where
  "DatastoreResetBandwidth = bnd getDatastoreBandwidthShard (\<lambda>_. set_bandwidth 0)"

definition DatastoreGetBandwidth :: "('db userlib, go_error, int) comp" where
  "DatastoreGetBandwidth = getDatastoreBandwidthShard"

definition DatastoreGetMap :: "('db userlib, go_error, UUID \<rightharpoonup> bytes) comp" where
  "DatastoreGetMap = getDatastoreShard"

section \<open>The key store\<close>

text \<open>
  \<open>json.Unmarshal(data, &v)\<close> with the error dropped: what \<open>v\<close> is afterwards. Text that is not JSON
  leaves the zero value. A field of the wrong type is skipped, but a bad number for
  \<open>N\<close> (a \<open>*big.Int\<close>, which keeps the digits it read) ends the decoding; the flag says whether it goes on.
\<close>

definition int_prefix :: "string \<Rightarrow> int" where
  "int_prefix s =
     (let neg = (s \<noteq> [] \<and> hd s = CHR ''-''); t = (if neg then tl s else s) in
      (if neg then - 1 else 1) * int (digits_val (takeWhile is_digit t)))"

definition into_big :: "json \<Rightarrow> int \<times> bool" where
  "into_big j = (case j of
     JNull \<Rightarrow> (0, True)
   | JNum s \<Rightarrow> (case parse_int s of Some i \<Rightarrow> (i, True) | None \<Rightarrow> (int_prefix s, False))
   | _ \<Rightarrow> (0, False))"

fun into_rsa_public :: "(string \<times> json) list \<Rightarrow> rsa_public \<Rightarrow> rsa_public \<times> bool" where
  "into_rsa_public [] r = (r, True)"
| "into_rsa_public ((k, v) # m) r =
     (if field_is ''N'' k then
        (case into_big v of (i, go_on) \<Rightarrow>
           if go_on then into_rsa_public m (r\<lparr>rsa_N := i\<rparr>) else (r\<lparr>rsa_N := i\<rparr>, False))
      else if field_is ''E'' k then
        into_rsa_public m (case dec_int64 v (rsa_E r) of Some i \<Rightarrow> r\<lparr>rsa_E := i\<rparr> | None \<Rightarrow> r)
      else into_rsa_public m r)"

fun into_public :: "(string \<times> json) list \<Rightarrow> PublicKeyType \<Rightarrow> PublicKeyType" where
  "into_public [] p = p"
| "into_public ((k, v) # m) p =
     (if field_is ''KeyType'' k then
        into_public m (case dec_string v (pub_KeyType p) of Some s \<Rightarrow> p\<lparr>pub_KeyType := s\<rparr> | None \<Rightarrow> p)
      else if field_is ''PubKey'' k then
        (case v of
           JObj pub \<Rightarrow> (case into_rsa_public pub (pub_PubKey p) of (r, go_on) \<Rightarrow>
             if go_on then into_public m (p\<lparr>pub_PubKey := r\<rparr>) else p\<lparr>pub_PubKey := r\<rparr>)
         | _ \<Rightarrow> into_public m p)
      else into_public m p)"

definition zero_public :: PublicKeyType where
  "zero_public = \<lparr>pub_KeyType = '''', pub_PubKey = \<lparr>rsa_N = 0, rsa_E = 0\<rparr>\<rparr>"

definition unmarshal_public :: "bytes \<Rightarrow> PublicKeyType" where
  "unmarshal_public data = (case json_parse (string_of_bytes data) of
     Some (JObj m) \<Rightarrow> into_public m zero_public
   | _ \<Rightarrow> zero_public)"

definition keystoreClear :: "('db userlib, go_error, unit) comp" where
  "keystoreClear = bnd (gets isConnected) (\<lambda>connected.
     if connected then ret ()
     else bnd getKeystoreShard (\<lambda>_. set_keystore_shard Map.empty))"

definition keystoreSet :: "('db, 'i) network \<Rightarrow> string \<Rightarrow> PublicKeyType \<Rightarrow> ('db userlib, go_error, unit) comp" where
  "keystoreSet N key value = bnd (gets isConnected) (\<lambda>connected.
     if connected then
       bnd (dial N) (\<lambda>_.
       bnd (lift_outcome (marshal (enc_public value))) (\<lambda>data.
       bnd (exchange N opSet (bytes_of_string key) data readStatus) (\<lambda>st.
       if st = statusOK then ret () else raise KeystoreSetFailed)))
     else
       bnd getKeystoreShard (\<lambda>keystoreShard.
       if keystoreShard key \<noteq> None then raise KeystoreTaken
       else set_keystore_shard (keystoreShard(key \<mapsto> value))))"

definition keystoreGet :: "('db, 'i) network \<Rightarrow> string \<Rightarrow> ('db userlib, go_error, PublicKeyType option) comp" where
  "keystoreGet N key = bnd (gets isConnected) (\<lambda>connected.
     if connected then
       bnd (or_panic (dial N)) (\<lambda>_.
       bnd (exchange N opGet (bytes_of_string key) [] readValue) (\<lambda>found. case found of
         None \<Rightarrow> ret None
       | Some data \<Rightarrow> ret (Some (unmarshal_public data))))
     else
       bnd getKeystoreShard (\<lambda>keystoreShard. ret (keystoreShard key)))"

definition KeystoreGetMap :: "('db userlib, go_error, string \<rightharpoonup> PublicKeyType) comp" where
  "KeystoreGetMap = getKeystoreShard"

section \<open>The adapters\<close>

definition UserlibStorage_Get :: "('db, 'i) network \<Rightarrow> UUID \<Rightarrow> ('db userlib, go_error, bytes option) comp" where
  "UserlibStorage_Get N key = datastoreGet N key"

definition UserlibStorage_Set :: "('db, 'i) network \<Rightarrow> UUID \<Rightarrow> bytes \<Rightarrow> ('db userlib, go_error, unit) comp" where
  "UserlibStorage_Set N key value = datastoreSet N key value"

definition UserlibStorage_Delete :: "('db, 'i) network \<Rightarrow> UUID \<Rightarrow> ('db userlib, go_error, unit) comp" where
  "UserlibStorage_Delete N key = datastoreDelete N key"

definition UserlibKeyStore_Get :: "('db, 'i) network \<Rightarrow> string \<Rightarrow> ('db userlib, go_error, iface option) comp" where
  "UserlibKeyStore_Get N key = bnd (gets local_keys) (\<lambda>local. case local key of
     Some v \<Rightarrow> ret (Some (AsPublicKey v))
   | None \<Rightarrow> bnd (keystoreGet N key) (\<lambda>found. ret (map_option AsPublicKey found)))"

text \<open>The error of \<open>KeystoreSet\<close> is dropped; a value of another type is ignored.\<close>

definition UserlibKeyStore_Set :: "('db, 'i) network \<Rightarrow> string \<Rightarrow> iface \<Rightarrow> ('db userlib, go_error, unit) comp" where
  "UserlibKeyStore_Set N key value = (case value of
     AsPublicKey pk \<Rightarrow>
       bnd (modify (\<lambda>u. u\<lparr>local_keys := (local_keys u)(key \<mapsto> pk)\<rparr>)) (\<lambda>_.
       bnd (attempt (keystoreSet N key pk)) (\<lambda>_. ret ()))
   | AsOther t \<Rightarrow> ret ())"

definition userlib_services :: "('db, 'i) network \<Rightarrow> 'db userlib services" where
  "userlib_services N =
     \<lparr>svc_storage = \<lparr>st_Get = UserlibStorage_Get N, st_Set = UserlibStorage_Set N, st_Delete = UserlibStorage_Delete N\<rparr>,
      svc_keyStore = \<lparr>ks_Get = UserlibKeyStore_Get N, ks_Set = UserlibKeyStore_Set N\<rparr>,
      svc_DatastoreSet = datastoreSet N\<rparr>"

section \<open>Map keys\<close>

text \<open>\<open>fmt.Sprintf("%x", sha512.Sum512(data))\<close>\<close>

definition MapKeyFromBytes :: "ext \<Rightarrow> bytes \<Rightarrow> string" where
  "MapKeyFromBytes X data = concat (map (\<lambda>b. [hex_char (unat b div 16), hex_char (unat b mod 16)]) (x_sha512 X data))"

end
