(* ===== verification/Go_Os.thy ===== *)
theory Go_Os
  imports Go_External
begin

text \<open>
  What the command-line client uses of Go's standard library around the operating system: the
  packages \<open>path\<close> and \<open>path/filepath\<close> (on Unix), the environment, and the file system. The file
  system itself is the operating system's: the record \<open>filesys\<close> of its operations is a
  parameter, and \<open>filesys_ok\<close> says what the code relies on.
\<close>

section \<open>Paths\<close>

abbreviation slash :: char where
  "slash \<equiv> CHR 0x2F"

fun split_slash :: "string \<Rightarrow> string list" where
  "split_slash [] = [[]]"
| "split_slash (c # s) =
     (if c = slash then [] # split_slash s
      else (case split_slash s of [] \<Rightarrow> [[c]] | t # ts \<Rightarrow> (c # t) # ts))"

fun join_slash :: "string list \<Rightarrow> string" where
  "join_slash [] = []"
| "join_slash [s] = s"
| "join_slash (s # t # ts) = s @ [slash] @ join_slash (t # ts)"

text \<open>
  The elements of a path once \<open>.\<close>, empty ones and \<open>..\<close> are worked off; \<open>before\<close> holds those done, the
  last one first.
\<close>

fun clean_elems :: "bool \<Rightarrow> string list \<Rightarrow> string list \<Rightarrow> string list" where
  "clean_elems rooted before [] = rev before"
| "clean_elems rooted before (s # ss) =
     (if s = [] \<or> s = ''.'' then clean_elems rooted before ss
      else if s = ''..'' then
        (case before of
           [] \<Rightarrow> clean_elems rooted (if rooted then [] else [''..'']) ss
         | t # ts \<Rightarrow> clean_elems rooted (if t = ''..'' then ''..'' # before else ts) ss)
      else clean_elems rooted (s # before) ss)"

definition path_Clean :: "string \<Rightarrow> string" where
  "path_Clean p =
     (let rooted = (p \<noteq> [] \<and> hd p = slash);
          out = (if rooted then [slash] else []) @ join_slash (clean_elems rooted [] (split_slash p))
      in if out = [] then ''.'' else out)"

definition path_Join :: "string list \<Rightarrow> string" where
  "path_Join elems =
     (let given = filter (\<lambda>e. e \<noteq> []) elems in
      if given = [] then [] else path_Clean (join_slash given))"

text \<open>What \<open>path.Split\<close> gives: up to and with the last slash, and the rest.\<close>

definition path_Split :: "string \<Rightarrow> string \<times> string" where
  "path_Split p =
     (rev (dropWhile (\<lambda>c. c \<noteq> slash) (rev p)), rev (takeWhile (\<lambda>c. c \<noteq> slash) (rev p)))"

definition path_Dir :: "string \<Rightarrow> string" where
  "path_Dir p = path_Clean (fst (path_Split p))"

definition path_Base :: "string \<Rightarrow> string" where
  "path_Base p =
     (if p = [] then ''.''
      else let q = rev (dropWhile (\<lambda>c. c = slash) (rev p)) in
        if q = [] then [slash] else snd (path_Split q))"

lemma path_Base_nonempty: "path_Base p \<noteq> []"
proof (cases "dropWhile (\<lambda>c. c = slash) (rev p)")
  case (Cons c t)
  then have "c \<noteq> slash" using hd_dropWhile [of "\<lambda>c. c = slash" "rev p"] by simp
  with Cons show ?thesis by (simp add: path_Base_def path_Split_def)
qed (simp add: path_Base_def)

lemma path_Base_no_slash: "path_Base p = [slash] \<or> slash \<notin> set (path_Base p)"
  by (auto simp: path_Base_def path_Split_def Let_def dest: set_takeWhileD)

section \<open>The environment\<close>

type_synonym env = "string \<rightharpoonup> string"

definition Getenv :: "env \<Rightarrow> string \<Rightarrow> string" where
  "Getenv E k = (case E k of None \<Rightarrow> [] | Some v \<Rightarrow> v)"

text \<open>On Unix the home directory is \<open>$HOME\<close>, and an error when that is empty.\<close>

definition UserHomeDir :: "env \<Rightarrow> string option" where
  "UserHomeDir E = (if Getenv E ''HOME'' = [] then None else Some (Getenv E ''HOME''))"

section \<open>The file system\<close>

datatype fs_error = NotExist string | FsError string

fun fs_message :: "fs_error \<Rightarrow> string" where
  "fs_message (NotExist s) = s"
| "fs_message (FsError s) = s"

definition fs_err :: "fs_error \<Rightarrow> go_error" where
  "fs_err e = External (fs_message e)"

text \<open>
  \<open>fs_Stat\<close> tells whether \<open>os.Stat\<close> returns no error. \<open>fs_Create\<close> is \<open>os.OpenFile\<close> with
  \<open>O_CREATE|O_WRONLY|O_TRUNC\<close>, \<open>fs_Append\<close> a \<open>Write\<close> to the file so opened.
\<close>

record 'fs filesys =
  fs_Stat :: "string \<Rightarrow> 'fs \<Rightarrow> bool"
  fs_ReadFile :: "string \<Rightarrow> 'fs \<Rightarrow> (fs_error, bytes) outcome"
  fs_WriteFile :: "string \<Rightarrow> bytes \<Rightarrow> nat \<Rightarrow> 'fs \<Rightarrow> fs_error option \<times> 'fs"
  fs_MkdirAll :: "string \<Rightarrow> nat \<Rightarrow> 'fs \<Rightarrow> fs_error option \<times> 'fs"
  fs_Remove :: "string \<Rightarrow> 'fs \<Rightarrow> fs_error option \<times> 'fs"
  fs_Create :: "string \<Rightarrow> nat \<Rightarrow> 'fs \<Rightarrow> fs_error option \<times> 'fs"
  fs_Append :: "string \<Rightarrow> bytes \<Rightarrow> 'fs \<Rightarrow> fs_error option \<times> 'fs"

text \<open>What is written is read back; what is removed is gone; a file that is read exists.\<close>

definition filesys_ok :: "'fs filesys \<Rightarrow> bool" where
  "filesys_ok F \<longleftrightarrow>
     (\<forall>p b m s s'. fs_WriteFile F p b m s = (None, s') \<longrightarrow> fs_ReadFile F p s' = Ok b)
   \<and> (\<forall>p s s'. fs_Remove F p s = (None, s') \<longrightarrow> (\<exists>e. fs_ReadFile F p s' = Err (NotExist e)))
   \<and> (\<forall>p m s s'. fs_Create F p m s = (None, s') \<longrightarrow> fs_ReadFile F p s' = Ok [])
   \<and> (\<forall>p a b s s'. fs_ReadFile F p s = Ok a \<longrightarrow> fs_Append F p b s = (None, s') \<longrightarrow> fs_ReadFile F p s' = Ok (a @ b))
   \<and> (\<forall>p b s. fs_ReadFile F p s = Ok b \<longrightarrow> fs_Stat F p s)"

lemma filesys_okD:
  assumes "filesys_ok F"
  shows "fs_WriteFile F p b m s = (None, s') \<Longrightarrow> fs_ReadFile F p s' = Ok b"
    and "fs_Remove F p s = (None, s') \<Longrightarrow> \<exists>e. fs_ReadFile F p s' = Err (NotExist e)"
    and "fs_Create F p m s = (None, s') \<Longrightarrow> fs_ReadFile F p s' = Ok []"
    and "fs_ReadFile F p s = Ok a \<Longrightarrow> fs_Append F p b s = (None, s') \<Longrightarrow> fs_ReadFile F p s' = Ok (a @ b)"
    and "fs_ReadFile F p s = Ok b \<Longrightarrow> fs_Stat F p s"
  using assms unfolding filesys_ok_def by blast+

text \<open>A call of the file system that may return an error.\<close>

definition fs_call :: "('fs \<Rightarrow> fs_error option \<times> 'fs) \<Rightarrow> ('fs, go_error, unit) comp" where
  "fs_call f s = (case f s of
     (None, s') \<Rightarrow> (Ok (), s')
   | (Some e, s') \<Rightarrow> (Err (fs_err e), s'))"

lemma fs_call_eq_Ok: "fs_call f s = (Ok u, s') \<longleftrightarrow> f s = (None, s')"
  by (simp add: fs_call_def split: prod.split option.split)

section \<open>A concrete file system\<close>

text \<open>Files by name and a list of directories; used to show that the hypotheses can hold.\<close>

record disk =
  disk_files :: "string \<rightharpoonup> bytes"
  disk_dirs :: "string list"

definition disk_fs :: "disk filesys" where
  "disk_fs = \<lparr>
     fs_Stat = (\<lambda>p d. disk_files d p \<noteq> None \<or> p \<in> set (disk_dirs d)),
     fs_ReadFile = (\<lambda>p d. case disk_files d p of Some b \<Rightarrow> Ok b | None \<Rightarrow> Err (NotExist ''no such file or directory'')),
     fs_WriteFile = (\<lambda>p b m d. (None, d\<lparr>disk_files := (disk_files d)(p \<mapsto> b)\<rparr>)),
     fs_MkdirAll = (\<lambda>p m d. (None, d\<lparr>disk_dirs := List.insert p (disk_dirs d)\<rparr>)),
     fs_Remove = (\<lambda>p d. if disk_files d p = None then (Some (NotExist ''no such file or directory''), d)
        else (None, d\<lparr>disk_files := (disk_files d)(p := None)\<rparr>)),
     fs_Create = (\<lambda>p m d. (None, d\<lparr>disk_files := (disk_files d)(p \<mapsto> [])\<rparr>)),
     fs_Append = (\<lambda>p b d. case disk_files d p of
        Some a \<Rightarrow> (None, d\<lparr>disk_files := (disk_files d)(p \<mapsto> a @ b)\<rparr>)
      | None \<Rightarrow> (Some (FsError ''file already closed''), d))\<rparr>"

lemma disk_fs_simps [simp]:
  "fs_ReadFile disk_fs p d = (case disk_files d p of Some b \<Rightarrow> Ok b | None \<Rightarrow> Err (NotExist ''no such file or directory''))"
  "fs_WriteFile disk_fs p b m d = (None, d\<lparr>disk_files := (disk_files d)(p \<mapsto> b)\<rparr>)"
  "fs_MkdirAll disk_fs p m d = (None, d\<lparr>disk_dirs := List.insert p (disk_dirs d)\<rparr>)"
  by (simp_all add: disk_fs_def)

lemma disk_fs_ok: "filesys_ok disk_fs"
  by (auto simp: filesys_ok_def disk_fs_def split: option.splits if_splits)

end
