(* ===== verification/Json_Indent.thy ===== *)
theory Json_Indent
  imports Json
begin

text \<open>
  \<open>json.MarshalIndent(v, "", "  ")\<close>: the printer that breaks lines, and the proof that the parser
  reads back what it prints, for the trees without arrays that the configuration consists of.
\<close>

definition new_line :: "nat \<Rightarrow> string" where
  "new_line d = CHR 0x0A # concat (replicate d ''  '')"

fun json_indent :: "nat \<Rightarrow> json \<Rightarrow> string" where
  "json_indent d (JArr xs) =
     (if xs = [] then ''[]''
      else ''['' @ print_sep (map (\<lambda>v. new_line (Suc d) @ json_indent (Suc d) v) xs) @ new_line d @ '']'')"
| "json_indent d (JObj kvs) =
     (if kvs = [] then ''{}''
      else ''{'' @ print_sep (map (\<lambda>(k, v). new_line (Suc d) @ json_quote k @ '': '' @ json_indent (Suc d) v) kvs)
         @ new_line d @ ''}'')"
| "json_indent d v = json_print v"

fun no_arrays :: "json \<Rightarrow> bool" where
  "no_arrays (JArr xs) = False"
| "no_arrays (JObj kvs) = (\<forall>kv \<in> set kvs. no_arrays (snd kv))"
| "no_arrays v = True"

lemma skip_ws_new_line [simp]: "skip_ws (new_line d @ s) = skip_ws s"
proof -
  have "skip_ws (concat (replicate d ''  '') @ s) = skip_ws s"
    by (induction d) (simp_all add: skip_ws_def is_space_def)
  then show ?thesis by (simp add: new_line_def skip_ws_def is_space_def)
qed

lemma skip_ws_Space [simp]: "skip_ws (CHR '' '' # s) = skip_ws s"
  by (simp add: skip_ws_def is_space_def)

lemma json_indent_first:
  assumes "json_wf v" "no_arrays v"
  shows "json_indent d v \<noteq> []" "\<not> is_space (hd (json_indent d v))"
  using json_print_first [OF assms(1)] assms(2) by (cases v; auto simp: is_space_def)+

lemma skip_ws_indent [simp]: "json_wf v \<Longrightarrow> no_arrays v \<Longrightarrow> skip_ws (json_indent d v @ r) = json_indent d v @ r"
  by (intro skip_ws_id) (simp_all add: json_indent_first)

text \<open>The members after the first, and the closing brace.\<close>

definition rest_members :: "nat \<Rightarrow> (string \<times> json) list \<Rightarrow> string" where
  "rest_members d kvs = concat (map (\<lambda>(k, v). CHR '','' # new_line (Suc d) @ json_quote k @ '': '' @ json_indent (Suc d) v) kvs)
     @ new_line d @ ''}''"

lemma indent_members:
  "print_sep (map (\<lambda>(k, v). new_line (Suc d) @ json_quote k @ '': '' @ json_indent (Suc d) v) ((k, v) # kvs)) @ new_line d @ ''}''
   = new_line (Suc d) @ json_quote k @ '': '' @ json_indent (Suc d) v @ rest_members d kvs"
proof (induction kvs arbitrary: k v)
  case (Cons kv kvs)
  obtain k' v' where kv: "kv = (k', v')" by (cases kv)
  show ?case using Cons.IH [of k' v'] by (simp add: kv rest_members_def)
qed (simp add: rest_members_def)

lemma number_end_rest: "number_end (rest_members d kvs @ r)"
  by (cases kvs) (auto simp: rest_members_def number_end_def new_line_def split: prod.split)

lemma parse_members_indent:
  assumes "\<And>v n r. v \<in> snd ` set kvs \<Longrightarrow> number_end r \<Longrightarrow> length (json_indent (Suc d) v) < n \<Longrightarrow>
      parse_value n (json_indent (Suc d) v @ r) = Some (v, r)"
    and "\<forall>kv \<in> set kvs. utf8_valid (fst kv) \<and> json_wf (snd kv) \<and> no_arrays (snd kv)" and "kvs = (k, v) # kvs'"
    and "Suc (length (json_indent (Suc d) v @ rest_members d kvs')) < n"
  shows "parse_members n (json_quote k @ '': '' @ json_indent (Suc d) v @ rest_members d kvs' @ r) = Some (kvs, r)"
  using assms
proof (induction kvs' arbitrary: n k v kvs)
  case Nil
  obtain m where n: "n = Suc m" using Nil.prems(4) by (cases n) auto
  have "number_end (rest_members d [] @ r)" by (rule number_end_rest)
  then have first: "parse_value m (json_indent (Suc d) v @ new_line d @ ''}'' @ r) = Some (v, new_line d @ ''}'' @ r)"
    using Nil.prems by (simp add: n rest_members_def)
  have key: "parse_str (json_escape k @ ch_quote # u) = Some (k, u)" for u
    using Nil.prems(2,3) by (simp add: parse_json_escape)
  show ?case
    using first Nil.prems(2,3)
    by (simp add: n parse_members.simps json_quote_def key skip_ws_char is_space_def rest_members_def)
next
  case (Cons kv kvs')
  obtain m where n: "n = Suc m" using Cons.prems(4) by (cases n) auto
  obtain k' v' where kv: "kv = (k', v')" by (cases kv)
  have rest: "rest_members d ((k', v') # kvs') = CHR '','' # new_line (Suc d) @ json_quote k' @ '': '' @ json_indent (Suc d) v' @ rest_members d kvs'"
    by (simp add: rest_members_def)
  have "number_end (rest_members d (kv # kvs') @ r)" by (rule number_end_rest)
  then have first: "parse_value m (json_indent (Suc d) v @ rest_members d (kv # kvs') @ r)
      = Some (v, rest_members d (kv # kvs') @ r)"
    using Cons.prems by (simp add: n)
  have "parse_members m (json_quote k' @ '': '' @ json_indent (Suc d) v' @ rest_members d kvs' @ r) = Some ((k', v') # kvs', r)"
    using Cons.prems by (intro Cons.IH) (auto simp: n kv rest)
  then have next_members: "parse_members m (ch_quote # json_escape k' @ ch_quote # CHR '':'' # CHR '' '' # json_indent (Suc d) v' @ rest_members d kvs' @ r)
      = Some ((k', v') # kvs', r)"
    by (simp add: json_quote_def)
  have key: "parse_str (json_escape k @ ch_quote # u) = Some (k, u)" for u
    using Cons.prems(2,3) by (simp add: parse_json_escape)
  have q: "\<not> is_space ch_quote" by (simp add: ch_quote_def is_space_def)
  show ?case
    using first Cons.prems(2,3) next_members
    by (simp add: n kv rest parse_members.simps json_quote_def key skip_ws_char is_space_def q [unfolded is_space_def])
qed

lemma parse_value_indent:
  "json_wf v \<Longrightarrow> no_arrays v \<Longrightarrow> number_end r \<Longrightarrow> length (json_indent d v) < n \<Longrightarrow>
   parse_value n (json_indent d v @ r) = Some (v, r)"
proof (induction v arbitrary: n r d)
  case (JObj kvs)
  obtain m where n: "n = Suc m" using JObj.prems by (cases n) auto
  show ?case
  proof (cases kvs)
    case Nil
    then show ?thesis by (simp add: n parse_value.simps skip_ws_char is_space_def)
  next
    case (Cons kv kvs')
    obtain k v where kv: "kv = (k, v)" by (cases kv)
    have shape: "json_indent d (JObj kvs) = CHR ''{'' # new_line (Suc d) @ json_quote k @ '': '' @ json_indent (Suc d) v @ rest_members d kvs'"
      using indent_members [of d k v kvs'] by (simp add: Cons kv)
    have "parse_members m (json_quote k @ '': '' @ json_indent (Suc d) v @ rest_members d kvs' @ r) = Some (kvs, r)"
    proof (rule parse_members_indent)
      show "parse_value n (json_indent (Suc d) v @ r) = Some (v, r)"
        if "v \<in> snd ` set kvs" "number_end r" "length (json_indent (Suc d) v) < n" for v n r
        using that JObj.prems(1,2) by (auto intro!: JObj.IH)
      show "\<forall>kv \<in> set kvs. utf8_valid (fst kv) \<and> json_wf (snd kv) \<and> no_arrays (snd kv)"
        using JObj.prems(1,2) by auto
      show "kvs = (k, v) # kvs'" by (simp add: Cons kv)
      show "Suc (length (json_indent (Suc d) v @ rest_members d kvs')) < m"
        using JObj.prems(4) unfolding shape by (simp add: n)
    qed
    then have members: "parse_members m (ch_quote # json_escape k @ ch_quote # CHR '':'' # CHR '' '' # json_indent (Suc d) v @ rest_members d kvs' @ r) = Some (kvs, r)"
      by (simp add: json_quote_def)
    have q: "\<not> is_space ch_quote" "ch_quote \<noteq> CHR ''}''" by (simp_all add: ch_quote_def is_space_def)
    show ?thesis
      unfolding shape
      by (simp add: members q n parse_value.simps Let_def json_quote_def skip_ws_char is_space_def [of "CHR ''{''"])
  qed
next
  case (JArr xs)
  then show ?case by simp
next
  case (JNum s)
  then show ?case using parse_value_print [of "JNum s"] by simp
next
  case (JStr s)
  then show ?case using parse_value_print [of "JStr s"] by simp
next
  case JNull
  then show ?case using parse_value_print [of JNull] by simp
next
  case (JBool b)
  then show ?case using parse_value_print [of "JBool b"] by simp
qed

lemma json_indent_roundtrip [simp]: "json_wf v \<Longrightarrow> no_arrays v \<Longrightarrow> json_parse (json_indent d v) = Some v"
  using parse_value_indent [of v "[]" d "Suc (length (json_indent d v))"] skip_ws_indent [of v d "[]"]
  by (simp add: json_parse_def number_end_def skip_ws_def)

end
