(* ===== verification/Config.thy ===== *)
theory Config
  imports Client_Types Go_Os Json_Indent
begin

text \<open>
  The configuration and the session of the command-line client,
  \<open>internal/client/config/config.go\<close>: where the two files lie, how they are read and written, and
  the operations on the table of hosts. The functions work on the file system alone; \<open>F\<close> is its
  interface and \<open>E\<close> the environment.
\<close>

record HostEntry =
  Addr :: string
  TLS :: bool

text \<open>\<open>Load\<close> never leaves the map of hosts nil.\<close>

record Config =
  Hosts :: "(string, HostEntry) gomap"
  config_file :: string

record Session =
  ss_Username :: string
  ss_Password :: string

section \<open>JSON\<close>

definition enc_host :: "HostEntry \<Rightarrow> json" where
  "enc_host h = JObj [(''Addr'', JStr (Addr h)), (''TLS'', JBool (TLS h))]"

definition enc_hosts :: "(string, HostEntry) gomap \<Rightarrow> json" where
  "enc_hosts hosts = JObj [(''hosts'', enc_map enc_host (Some hosts))]"

definition dec_bool :: "json \<Rightarrow> bool \<Rightarrow> bool option" where
  "dec_bool j old = (case j of JNull \<Rightarrow> Some old | JBool b \<Rightarrow> Some b | _ \<Rightarrow> None)"

definition dec_host :: "json \<Rightarrow> HostEntry option" where
  "dec_host j = dec_struct (\<lambda>k v r.
     if field_is ''Addr'' k then map_option (\<lambda>s. r\<lparr>Addr := s\<rparr>) (dec_string v (Addr r))
     else if field_is ''TLS'' k then map_option (\<lambda>b. r\<lparr>TLS := b\<rparr>) (dec_bool v (TLS r))
     else Some r) j \<lparr>Addr = [], TLS = False\<rparr>"

text \<open>The anonymous struct of \<open>Load\<close> has the map as its only field.\<close>

definition dec_hosts :: "json \<Rightarrow> (string, HostEntry) gomap option option" where
  "dec_hosts j = dec_struct (\<lambda>k v m. if field_is ''hosts'' k then dec_map dec_host v m else Some m) j None"

definition enc_session :: "Session \<Rightarrow> json" where
  "enc_session s = JObj [(''username'', JStr (ss_Username s)), (''password'', JStr (ss_Password s))]"

definition dec_session :: "json \<Rightarrow> Session option" where
  "dec_session j = dec_struct (\<lambda>k v r.
     if field_is ''username'' k then map_option (\<lambda>s. r\<lparr>ss_Username := s\<rparr>) (dec_string v (ss_Username r))
     else if field_is ''password'' k then map_option (\<lambda>s. r\<lparr>ss_Password := s\<rparr>) (dec_string v (ss_Password r))
     else Some r) j \<lparr>ss_Username = [], ss_Password = []\<rparr>"

section \<open>The table of hosts\<close>

text \<open>The permission bits given in octal.\<close>

abbreviation mode_0755 :: nat where "mode_0755 \<equiv> 7 * 64 + 5 * 8 + 5"
abbreviation mode_0700 :: nat where "mode_0700 \<equiv> 7 * 64"
abbreviation mode_0644 :: nat where "mode_0644 \<equiv> 6 * 64 + 4 * 8 + 4"
abbreviation mode_0600 :: nat where "mode_0600 \<equiv> 6 * 64"

definition configPath :: "'fs filesys \<Rightarrow> env \<Rightarrow> 'fs \<Rightarrow> string" where
  "configPath F E s =
     (if Getenv E ''SHARELOCK_CONFIG_DIR'' \<noteq> [] then path_Join [Getenv E ''SHARELOCK_CONFIG_DIR'', ''.hosts'']
      else case UserHomeDir E of
        None \<Rightarrow> ''.hosts''
      | Some home \<Rightarrow>
          let primary = path_Join [home, ''.config'', ''sharelock'', ''.hosts''] in
          if fs_Stat F primary s then primary else path_Join [home, ''.hosts''])"

definition Load :: "'fs filesys \<Rightarrow> env \<Rightarrow> ('fs, go_error, Config) comp" where
  "Load F E = bnd (gets (configPath F E)) (\<lambda>p.
     let cfg = \<lparr>Hosts = [], config_file = p\<rparr> in
     bnd (gets (fs_ReadFile F p)) (\<lambda>read. case read of
       Err (NotExist e) \<Rightarrow> ret cfg
     | Err e \<Rightarrow> raise (fs_err e)
     | Panic e \<Rightarrow> go_panic e
     | Ok data \<Rightarrow>
         bnd (lift_outcome (unmarshal dec_hosts data)) (\<lambda>raw. case raw of
           Some hosts \<Rightarrow> ret (cfg\<lparr>Hosts := hosts\<rparr>)
         | None \<Rightarrow> ret cfg)))"

definition Save :: "'fs filesys \<Rightarrow> Config \<Rightarrow> ('fs, go_error, unit) comp" where
  "Save F c =
     bnd (fs_call (fs_MkdirAll F (path_Dir (config_file c)) mode_0755)) (\<lambda>_.
     let data = bytes_of_string (json_indent 0 (enc_hosts (Hosts c))) in
     fs_call (fs_WriteFile F (config_file c) data mode_0644))"

definition Get :: "Config \<Rightarrow> string \<Rightarrow> HostEntry option" where
  "Get c name = map_of (Hosts c) name"

definition Default :: "Config \<Rightarrow> string \<times> bool" where
  "Default c = (case map_of (Hosts c) ''default'' of Some h \<Rightarrow> (Addr h, TLS h) | None \<Rightarrow> ([], False))"

definition Set :: "string \<Rightarrow> string \<Rightarrow> bool \<Rightarrow> Config \<Rightarrow> Config" where
  "Set name addr tls c = c\<lparr>Hosts := gm_set name \<lparr>Addr = addr, TLS = tls\<rparr> (Hosts c)\<rparr>"

definition Remove :: "string \<Rightarrow> Config \<Rightarrow> Config" where
  "Remove name c = c\<lparr>Hosts := gm_del name (Hosts c)\<rparr>"

definition List_hosts :: "Config \<Rightarrow> (string, HostEntry) gomap" where
  "List_hosts c = Hosts c"

section \<open>The session\<close>

definition sessionPath :: "'fs filesys \<Rightarrow> env \<Rightarrow> 'fs \<Rightarrow> string" where
  "sessionPath F E s =
     (if Getenv E ''SHARELOCK_CONFIG_DIR'' \<noteq> [] then path_Join [Getenv E ''SHARELOCK_CONFIG_DIR'', ''.session'']
      else case UserHomeDir E of
        None \<Rightarrow> ''.session''
      | Some home \<Rightarrow>
          let primary = path_Join [home, ''.config'', ''sharelock'', ''.session''] in
          if fs_Stat F (path_Dir primary) s then primary else path_Join [home, ''.session''])"

definition SaveSession :: "'fs filesys \<Rightarrow> env \<Rightarrow> string \<Rightarrow> string \<Rightarrow> ('fs, go_error, unit) comp" where
  "SaveSession F E username password =
     (let s = \<lparr>ss_Username = b64_encode (bytes_of_string username), ss_Password = b64_encode (bytes_of_string password)\<rparr> in
      bnd (lift_outcome (marshal (enc_session s))) (\<lambda>data.
      bnd (gets (sessionPath F E)) (\<lambda>p.
      bnd (fs_call (fs_MkdirAll F (path_Dir p) mode_0700)) (\<lambda>_.
      fs_call (fs_WriteFile F p data mode_0600)))))"

text \<open>The three results are given by an option: \<open>ok\<close> is false when it is \<open>None\<close>.\<close>

definition LoadSession :: "'fs filesys \<Rightarrow> env \<Rightarrow> 'fs \<Rightarrow> (string \<times> string) option" where
  "LoadSession F E s = (case fs_ReadFile F (sessionPath F E s) s of
     Ok data \<Rightarrow> (case unmarshal dec_session data of
         Ok session \<Rightarrow> (case (b64_decode (ss_Username session), b64_decode (ss_Password session)) of
             (Some u, Some pw) \<Rightarrow> Some (string_of_bytes u, string_of_bytes pw)
           | _ \<Rightarrow> None)
       | _ \<Rightarrow> None)
   | _ \<Rightarrow> None)"

definition ClearSession :: "'fs filesys \<Rightarrow> env \<Rightarrow> ('fs, go_error, unit) comp" where
  "ClearSession F E = bnd (gets (sessionPath F E)) (\<lambda>p. fs_call (fs_Remove F p))"

section \<open>Round trips\<close>

definition host_ok :: "string \<times> HostEntry \<Rightarrow> bool" where
  "host_ok nh \<longleftrightarrow> utf8_valid (fst nh) \<and> utf8_valid (Addr (snd nh))"

text \<open>The host names and addresses are text, and the map is one.\<close>

definition config_ok :: "Config \<Rightarrow> bool" where
  "config_ok c \<longleftrightarrow> gm_wf (Hosts c) \<and> (\<forall>nh \<in> set (Hosts c). host_ok nh)"

lemma utf8_config_names [codec_simps]:
  "utf8_valid ''hosts''" "utf8_valid ''Addr''" "utf8_valid ''TLS''" "utf8_valid ''username''" "utf8_valid ''password''"
  by (auto intro!: utf8_valid_ascii)

lemma dec_enc_host [codec_simps]: "dec_host (enc_host h) = Some h"
  by (cases h) (simp add: dec_host_def enc_host_def dec_struct_def dec_string_def dec_bool_def field_simps_json)

lemma dec_enc_hosts: "gm_wf hosts \<Longrightarrow> dec_hosts (enc_hosts hosts) = Some (Some hosts)"
  by (simp add: dec_hosts_def enc_hosts_def dec_struct_def dec_map_enc [OF _ dec_enc_host])

lemma enc_hosts_tree:
  "\<forall>nh \<in> set hosts. host_ok nh \<Longrightarrow> json_wf (enc_hosts hosts) \<and> no_arrays (enc_hosts hosts)"
  by (fastforce simp: enc_hosts_def enc_map_def enc_host_def host_ok_def utf8_config_names)

lemma Save_writes:
  assumes "filesys_ok F" "Save F c s = (Ok (), s')"
  shows "fs_ReadFile F (config_file c) s' = Ok (bytes_of_string (json_indent 0 (enc_hosts (Hosts c))))"
  using assms(2) filesys_okD(1) [OF assms(1)]
  by (auto simp: Save_def bnd_eq_Ok fs_call_eq_Ok)

lemma Load_text:
  assumes "config_ok c" "configPath F E s = config_file c"
    and "fs_ReadFile F (config_file c) s = Ok (bytes_of_string (json_indent 0 (enc_hosts (Hosts c))))"
  shows "Load F E s = (Ok c, s)"
proof -
  have "unmarshal dec_hosts (bytes_of_string (json_indent 0 (enc_hosts (Hosts c)))) = Ok (Some (Hosts c))"
    using assms(1) enc_hosts_tree [of "Hosts c"] by (simp add: unmarshal_def config_ok_def dec_enc_hosts)
  then show ?thesis using assms(2,3) by (simp add: Load_def monad_simps Let_def)
qed

lemma Load_saved:
  assumes "filesys_ok F" "config_ok c" "Save F c s = (Ok (), s')" "configPath F E s' = config_file c"
  shows "Load F E s' = (Ok c, s')"
  using Load_text [OF assms(2,4) Save_writes [OF assms(1,3)]] .

lemma session_json: "json_wf (enc_session s) \<longleftrightarrow> utf8_valid (ss_Username s) \<and> utf8_valid (ss_Password s)"
  by (auto simp: enc_session_def utf8_config_names)

lemma dec_enc_session: "dec_session (enc_session s) = Some s"
  by (cases s) (simp add: dec_session_def enc_session_def dec_struct_def dec_string_def field_simps_json)

lemma LoadSession_text:
  assumes "fs_ReadFile F (sessionPath F E s) s = Ok (bytes_of_string (json_print (enc_session
      \<lparr>ss_Username = b64_encode (bytes_of_string u), ss_Password = b64_encode (bytes_of_string p)\<rparr>)))"
  shows "LoadSession F E s = Some (u, p)"
proof -
  let ?s = "\<lparr>ss_Username = b64_encode (bytes_of_string u), ss_Password = b64_encode (bytes_of_string p)\<rparr>"
  have "unmarshal dec_session (bytes_of_string (json_print (enc_session ?s))) = Ok ?s"
    by (rule unmarshal_marshal) (simp_all add: session_json dec_enc_session b64_ascii)
  then show ?thesis using assms by (simp add: LoadSession_def)
qed

lemma LoadSession_saved:
  assumes "filesys_ok F" "SaveSession F E u p s = (Ok (), s')" "sessionPath F E s' = sessionPath F E s"
  shows "LoadSession F E s' = Some (u, p)"
proof (rule LoadSession_text)
  show "fs_ReadFile F (sessionPath F E s') s' = Ok (bytes_of_string (json_print (enc_session
      \<lparr>ss_Username = b64_encode (bytes_of_string u), ss_Password = b64_encode (bytes_of_string p)\<rparr>)))"
    unfolding assms(3) using assms(2) filesys_okD(1) [OF assms(1)]
    by (auto simp: SaveSession_def Let_def marshal_def monad_simps bnd_eq_Ok fs_call_eq_Ok)
qed

end
