(* ===== verification/Go_Flag.thy ===== *)
theory Go_Flag
  imports Json_Text Go_External
begin

text \<open>
  The packages \<open>fmt\<close> and \<open>flag\<close> as the commands use them: what is printed, the padding of
  columns, and the parsing of a command's flags with its errors and its help.
\<close>

section \<open>Output\<close>

text \<open>
  A printed text is a list of pieces: characters, an error value formatted with \<open>%v\<close> and a
  string formatted with \<open>%q\<close>, whose texts are left open.
\<close>

datatype piece = Str string | ErrText go_error | Quoted string

definition line_feed :: string where
  "line_feed = [CHR 0x0A]"

abbreviation apos :: string where
  "apos \<equiv> [CHR 0x27]"

function RuneCount :: "string \<Rightarrow> nat" where
  "RuneCount [] = 0"
| "RuneCount (c # cs) = Suc (RuneCount (drop (utf8_len (c # cs) - 1) cs))"
  by pat_completeness auto
termination
  by (relation "measure length") (auto simp: less_Suc_eq_le)

text \<open>\<open>%-<n>s\<close>: padded with blanks on the right, counted in runes.\<close>

definition pad_right :: "nat \<Rightarrow> string \<Rightarrow> string" where
  "pad_right n s = s @ replicate (n - RuneCount s) CHR '' ''"

section \<open>Flags\<close>

datatype flag_value = StringValue string | BoolValue bool

record flag =
  flag_name :: string
  flag_usage :: string
  DefValue :: flag_value

definition String_flag :: "string \<Rightarrow> string \<Rightarrow> string \<Rightarrow> flag" where
  "String_flag name value usage = \<lparr>flag_name = name, flag_usage = usage, DefValue = StringValue value\<rparr>"

definition Bool_flag :: "string \<Rightarrow> bool \<Rightarrow> string \<Rightarrow> flag" where
  "Bool_flag name value usage = \<lparr>flag_name = name, flag_usage = usage, DefValue = BoolValue value\<rparr>"

definition ParseBool :: "string \<Rightarrow> bool option" where
  "ParseBool s =
     (if s \<in> {''1'', ''t'', ''T'', ''TRUE'', ''true'', ''True''} then Some True
      else if s \<in> {''0'', ''f'', ''F'', ''FALSE'', ''false'', ''False''} then Some False
      else None)"

text \<open>
  The flags as parsed, \<open>-h\<close> or \<open>-help\<close> that is no flag of the set, or the message of the first
  error; the last two stop the parsing.
\<close>

datatype parsed = Parsed "string \<rightharpoonup> flag_value" "string list" | HelpWanted | BadFlag "piece list"

definition find_flag :: "flag list \<Rightarrow> string \<Rightarrow> flag option" where
  "find_flag fs name = find (\<lambda>f. flag_name f = name) fs"

text \<open>The name and the value of \<open>name=value\<close>.\<close>

definition cut_value :: "string \<Rightarrow> string \<times> string option" where
  "cut_value s = (takeWhile (\<lambda>c. c \<noteq> CHR ''='') s,
     case dropWhile (\<lambda>c. c \<noteq> CHR ''='') s of [] \<Rightarrow> None | _ # v \<Rightarrow> Some v)"

function parse_flags :: "flag list \<Rightarrow> string list \<Rightarrow> (string \<rightharpoonup> flag_value) \<Rightarrow> parsed" where
  "parse_flags fs [] vals = Parsed vals []"
| "parse_flags fs (s # args) vals =
     (if length s < 2 \<or> hd s \<noteq> CHR ''-'' then Parsed vals (s # args)
      else if s = ''--'' then Parsed vals args
      else let given = (if s ! 1 = CHR ''-'' then drop 2 s else drop 1 s) in
        if given = [] \<or> hd given = CHR ''-'' \<or> hd given = CHR ''=''
        then BadFlag [Str (''bad flag syntax: '' @ s)]
        else let name = fst (cut_value given); value = snd (cut_value given) in
          case find_flag fs name of
            None \<Rightarrow>
              if name = ''help'' \<or> name = ''h'' then HelpWanted
              else BadFlag [Str (''flag provided but not defined: -'' @ name)]
          | Some f \<Rightarrow> (case DefValue f of
              BoolValue _ \<Rightarrow> (case value of
                None \<Rightarrow> parse_flags fs args (vals(name \<mapsto> BoolValue True))
              | Some v \<Rightarrow> (case ParseBool v of
                  Some b \<Rightarrow> parse_flags fs args (vals(name \<mapsto> BoolValue b))
                | None \<Rightarrow> BadFlag [Str ''invalid boolean value '', Quoted v, Str ('' for -'' @ name @ '': parse error'')]))
            | StringValue _ \<Rightarrow> (case value of
                Some v \<Rightarrow> parse_flags fs args (vals(name \<mapsto> StringValue v))
              | None \<Rightarrow> (case args of
                  [] \<Rightarrow> BadFlag [Str (''flag needs an argument: -'' @ name)]
                | v # args' \<Rightarrow> parse_flags fs args' (vals(name \<mapsto> StringValue v))))))"
  by pat_completeness auto
termination
  by (relation "measure (\<lambda>(fs, args, vals). length args)") auto

definition default_values :: "flag list \<Rightarrow> (string \<rightharpoonup> flag_value)" where
  "default_values fs = map_of (map (\<lambda>f. (flag_name f, DefValue f)) fs)"

text \<open>The value of a flag after the parsing, where the code reads it through its pointer.\<close>

definition string_value :: "(string \<rightharpoonup> flag_value) \<Rightarrow> string \<Rightarrow> string" where
  "string_value vals name = (case vals name of Some (StringValue s) \<Rightarrow> s | _ \<Rightarrow> [])"

definition bool_value :: "(string \<rightharpoonup> flag_value) \<Rightarrow> string \<Rightarrow> bool" where
  "bool_value vals name = (case vals name of Some (BoolValue b) \<Rightarrow> b | _ \<Rightarrow> False)"

text \<open>One flag of \<open>PrintDefaults\<close>; the flags are printed in the order of their names.\<close>

definition default_line :: "flag \<Rightarrow> piece list" where
  "default_line f =
     (let head = ''  -'' @ flag_name f @ (case DefValue f of StringValue _ \<Rightarrow> '' string'' | BoolValue _ \<Rightarrow> []);
          usage = head @ (if length head \<le> 4 then [CHR 0x09] else line_feed @ ''    '' @ [CHR 0x09]) @ flag_usage f
      in case DefValue f of
           StringValue d \<Rightarrow> if d = [] then [Str (usage @ line_feed)]
             else [Str (usage @ '' (default ''), Quoted d, Str ('')'' @ line_feed)]
         | BoolValue d \<Rightarrow> [Str (usage @ (if d then '' (default true)'' else []) @ line_feed)])"

definition PrintDefaults :: "flag list \<Rightarrow> piece list" where
  "PrintDefaults fs = concat (map default_line (sort_key flag_name fs))"

section \<open>Facts\<close>

text \<open>Arguments of the form \<open>-name value\<close> set the flags one after the other.\<close>

lemma cut_value_plain:
  assumes "CHR ''='' \<notin> set s"
  shows "cut_value s = (s, None)"
proof -
  have "takeWhile (\<lambda>c. c \<noteq> CHR ''='') s = s" "dropWhile (\<lambda>c. c \<noteq> CHR ''='') s = []"
    using assms by (induction s) auto
  then show ?thesis unfolding cut_value_def by (simp only: list.case)
qed

lemma parse_string_flag:
  assumes "find_flag fs n = Some f" "DefValue f = StringValue d"
    and "n \<noteq> []" "hd n \<noteq> CHR ''-''" "CHR ''='' \<notin> set n"
  shows "parse_flags fs ((CHR ''-'' # n) # v # args) vals = parse_flags fs args (vals(n \<mapsto> StringValue v))"
proof -
  obtain c t where n: "n = c # t" using assms(3) by (cases n) auto
  have "c \<noteq> CHR ''-''" "c \<noteq> CHR ''=''" using assms(4,5) by (auto simp: n)
  then show ?thesis
    using assms(1,2) cut_value_plain [OF assms(5)] unfolding n by (simp add: Let_def)
qed

end
