(* ===== verification/Netstream.thy ===== *)
theory Netstream
  imports Wire Go_Os
begin

text \<open>
  Streaming a file over a connection, \<open>internal/client/netstream/netstream.go\<close>, and the two client
  methods of \<open>internal/client/app/app.go\<close> that receive one. What arrives on a connection that was
  dialled is up to the other end: \<open>stream\<close> says what \<open>Dial\<close> answers and, when it connects, the
  bytes that arrive until the other end closes, with the error that reading ends in, if any.
\<close>

datatype stream = DialError string | Stream bytes "string option"

text \<open>\<open>io.Copy(conn, file)\<close> after \<open>os.Open\<close>.\<close>

definition FileSender :: "'fs filesys \<Rightarrow> 'fs \<Rightarrow> string \<Rightarrow> ('z conn_scheme, go_error, unit) comp" where
  "FileSender F s filename = (case fs_ReadFile F filename s of
     Ok content \<Rightarrow> Write content
   | Err e \<Rightarrow> raise (fs_err e)
   | Panic p \<Rightarrow> go_panic p)"

text \<open>\<open>io.Copy(file, conn)\<close> writes what it reads until the end or an error; nothing is no write.\<close>

definition FileReceiver :: "'fs filesys \<Rightarrow> string \<Rightarrow> bytes \<times> string option \<Rightarrow> ('fs, go_error, unit) comp" where
  "FileReceiver F filename = (\<lambda>(arriving, err).
     let safename = path_Base filename in
     bnd (fs_call (fs_Create F safename (6 * 64 + 4 * 8 + 4))) (\<lambda>_.
     bnd (if arriving = [] then ret () else fs_call (fs_Append F safename arriving)) (\<lambda>_.
     case err of None \<Rightarrow> ret () | Some e \<Rightarrow> raise (External e))))"

definition ReadFileTLS :: "(bool \<Rightarrow> string \<Rightarrow> stream) \<Rightarrow> 'fs filesys \<Rightarrow> string \<Rightarrow> string \<Rightarrow> bool \<Rightarrow> ('fs, go_error, unit) comp" where
  "ReadFileTLS streams F filename address tlsEnabled = (case streams tlsEnabled address of
     DialError e \<Rightarrow> raise (External e)
   | Stream arriving err \<Rightarrow> FileReceiver F filename (arriving, err))"

definition app_ReadFile :: "(bool \<Rightarrow> string \<Rightarrow> stream) \<Rightarrow> 'fs filesys \<Rightarrow> string \<Rightarrow> string \<Rightarrow> ('fs, go_error, unit) comp" where
  "app_ReadFile streams F filename address = ReadFileTLS streams F filename address True"

lemma FileReceiver_saves:
  assumes "filesys_ok F" "FileReceiver F filename (b, None) s = (Ok (), s')"
  shows "fs_ReadFile F (path_Base filename) s' = Ok b"
proof -
  obtain s1 where "fs_Create F (path_Base filename) (6 * 64 + 4 * 8 + 4) s = (None, s1)"
    "if b = [] then s' = s1 else fs_Append F (path_Base filename) b s1 = (None, s')"
    using assms(2) by (auto simp: FileReceiver_def Let_def bnd_eq_Ok fs_call_eq_Ok ret_def split: if_splits)
  then show ?thesis
    using filesys_okD(3,4) [OF assms(1)] by (fastforce split: if_splits)
qed

end
