(* ===== verification/Cli.thy ===== *)
theory Cli
  imports App Userlib_Store Config Go_Flag Netstream
begin

text \<open>
  The command \<open>sharelock\<close>, \<open>cmd/client/main.go\<close>: one run of the process, from \<open>os.Args\<close> and the
  environment to what it prints, its exit code and what it leaves on the disk and at the server.
  A step of the process either goes on, ends the process (\<open>os.Exit\<close>, here the error outcome with the
  exit code) or panics.
\<close>

section \<open>The process\<close>

record ('db, 'fs) process =
  cli :: "'db userlib client"
  disk :: 'fs
  out :: "piece list"
  err :: "piece list"

text \<open>What the process is started on: the external code, the network, the disk and the environment.\<close>

record ('db, 'i, 'fs) machine =
  m_ext :: ext
  m_net :: "('db, 'i) network"
  m_fs :: "'fs filesys"
  m_env :: env
  m_streams :: "bool \<Rightarrow> string \<Rightarrow> stream"

abbreviation services_of :: "('db, 'i, 'fs) machine \<Rightarrow> 'db userlib services" where
  "services_of M \<equiv> userlib_services (m_net M)"

definition os_Exit :: "nat \<Rightarrow> (('db, 'fs) process, nat, 'a) comp" where
  "os_Exit n = raise n"

definition print_out :: "piece list \<Rightarrow> (('db, 'fs) process, nat, unit) comp" where
  "print_out ps = modify (\<lambda>p. p\<lparr>out := out p @ ps\<rparr>)"

definition print_err :: "piece list \<Rightarrow> (('db, 'fs) process, nat, unit) comp" where
  "print_err ps = modify (\<lambda>p. p\<lparr>err := err p @ ps\<rparr>)"

definition Println :: "string \<Rightarrow> (('db, 'fs) process, nat, unit) comp" where
  "Println s = print_out [Str (s @ line_feed)]"

definition Eprintln :: "string \<Rightarrow> (('db, 'fs) process, nat, unit) comp" where
  "Eprintln s = print_err [Str (s @ line_feed)]"

text \<open>Calls of the client and of the configuration, with the error as a value.\<close>

definition on_cli :: "('db userlib client, go_error, 'a) comp \<Rightarrow> (('db, 'fs) process, nat, go_error + 'a) comp" where
  "on_cli m p = (case m (cli p) of
     (Ok x, c) \<Rightarrow> (Ok (Inr x), p\<lparr>cli := c\<rparr>)
   | (Err e, c) \<Rightarrow> (Ok (Inl e), p\<lparr>cli := c\<rparr>)
   | (Panic q, c) \<Rightarrow> (Panic q, p\<lparr>cli := c\<rparr>))"

definition on_disk :: "('fs, go_error, 'a) comp \<Rightarrow> (('db, 'fs) process, nat, go_error + 'a) comp" where
  "on_disk m p = (case m (disk p) of
     (Ok x, d) \<Rightarrow> (Ok (Inr x), p\<lparr>disk := d\<rparr>)
   | (Err e, d) \<Rightarrow> (Ok (Inl e), p\<lparr>disk := d\<rparr>)
   | (Panic q, d) \<Rightarrow> (Panic q, p\<lparr>disk := d\<rparr>))"

text \<open>\<open>if err != nil { fmt.Fprintf(os.Stderr, "<context>%v\n", err); os.Exit(1) }\<close>\<close>

definition or_exit :: "string \<Rightarrow> (('db, 'fs) process, nat, go_error + 'a) comp \<Rightarrow> (('db, 'fs) process, nat, 'a) comp" where
  "or_exit context m = bnd m (\<lambda>r. case r of
     Inr x \<Rightarrow> ret x
   | Inl e \<Rightarrow> bnd (print_err [Str context, ErrText e, Str line_feed]) (\<lambda>_. os_Exit 1))"

text \<open>\<open>fs.Usage\<close> and \<open>fs.Parse(args)\<close> of a flag set with \<open>flag.ExitOnError\<close>.\<close>

definition fs_Usage :: "string \<Rightarrow> string \<Rightarrow> flag list \<Rightarrow> (('db, 'fs) process, nat, unit) comp" where
  "fs_Usage usage description fs =
     bnd (Eprintln usage) (\<lambda>_.
     bnd (Eprintln (line_feed @ description)) (\<lambda>_.
     bnd (Eprintln (line_feed @ ''Flags:'')) (\<lambda>_.
     print_err (PrintDefaults fs))))"

definition fs_Parse :: "flag list \<Rightarrow> (('db, 'fs) process, nat, unit) comp \<Rightarrow> string list
    \<Rightarrow> (('db, 'fs) process, nat, string \<rightharpoonup> flag_value) comp" where
  "fs_Parse fs Usage args = (case parse_flags fs args (default_values fs) of
     Parsed vals rest \<Rightarrow> ret vals
   | HelpWanted \<Rightarrow> bnd Usage (\<lambda>_. os_Exit 0)
   | BadFlag msg \<Rightarrow> bnd (print_err (msg @ [Str line_feed])) (\<lambda>_. bnd Usage (\<lambda>_. os_Exit 2)))"

text \<open>A required flag is missing: the message, the usage and exit code 1.\<close>

definition missing :: "string \<Rightarrow> (('db, 'fs) process, nat, unit) comp \<Rightarrow> (('db, 'fs) process, nat, 'a) comp" where
  "missing message Usage = bnd (Eprintln message) (\<lambda>_. bnd Usage (\<lambda>_. os_Exit 1))"

section \<open>The commands\<close>

definition cmdInit :: "('db, 'i, 'fs) machine \<Rightarrow> string list \<Rightarrow> (('db, 'fs) process, nat, unit) comp" where
  "cmdInit M args =
     (let fs = [String_flag ''u'' [] ''username'',
        String_flag ''p'' [] ''password''];
          Usage = fs_Usage ''Usage: sharelock init -u <username> -p <password>''
            ''Create a new user account.'' fs in
      bnd (fs_Parse fs Usage args) (\<lambda>vals.
      let username = string_value vals ''u''; password = string_value vals ''p'' in
      if username = [] \<or> password = [] then missing ''Error: username and password are required'' Usage
      else
        bnd (or_exit ''Error: '' (on_cli (app_InitUser (m_ext M) (services_of M) username password))) (\<lambda>_.
        bnd (on_disk (SaveSession (m_fs M) (m_env M) username password)) (\<lambda>_.
        Println ''ok''))))"

definition cmdLogin :: "('db, 'i, 'fs) machine \<Rightarrow> string list \<Rightarrow> (('db, 'fs) process, nat, unit) comp" where
  "cmdLogin M args =
     (let fs = [String_flag ''u'' [] ''username'',
        String_flag ''p'' [] ''password''];
          Usage = fs_Usage ''Usage: sharelock login -u <username> -p <password>''
            ''Login as an existing user.'' fs in
      bnd (fs_Parse fs Usage args) (\<lambda>vals.
      let username = string_value vals ''u''; password = string_value vals ''p'' in
      if username = [] \<or> password = [] then missing ''Error: username and password are required'' Usage
      else
        bnd (or_exit ''Error: '' (on_cli (app_GetUser (m_ext M) (services_of M) username password))) (\<lambda>_.
        bnd (on_disk (SaveSession (m_fs M) (m_env M) username password)) (\<lambda>_.
        Println ''ok''))))"

definition cmdLogout :: "('db, 'i, 'fs) machine \<Rightarrow> (('db, 'fs) process, nat, unit) comp" where
  "cmdLogout M = bnd (on_disk (ClearSession (m_fs M) (m_env M))) (\<lambda>_. Println ''ok'')"

definition cmdStore :: "('db, 'i, 'fs) machine \<Rightarrow> string list \<Rightarrow> (('db, 'fs) process, nat, unit) comp" where
  "cmdStore M args =
     (let fs = [String_flag ''f'' [] ''local file path''];
          Usage = fs_Usage ''Usage: sharelock store -f <filepath>''
            ''Store a file by reading its content from disk (overwrites if exists).'' fs in
      bnd (fs_Parse fs Usage args) (\<lambda>vals.
      let filepathFlag = string_value vals ''f'' in
      if filepathFlag = [] then missing ''Error: file path is required'' Usage
      else
        bnd (gets (\<lambda>p. fs_ReadFile (m_fs M) filepathFlag (disk p))) (\<lambda>read. case read of
          Err e \<Rightarrow> bnd (print_err [Str (''Error: cannot read file '' @ apos @ filepathFlag @ apos @ '': ''),
              ErrText (fs_err e), Str line_feed]) (\<lambda>_. os_Exit 1)
        | Panic q \<Rightarrow> go_panic q
        | Ok content \<Rightarrow>
            let filename = path_Base filepathFlag in
            bnd (or_exit ''Error: '' (on_cli (app_StoreFile (m_ext M) (services_of M) filename content))) (\<lambda>_.
            Println ''ok''))))"

definition cmdLoad :: "('db, 'i, 'fs) machine \<Rightarrow> string list \<Rightarrow> (('db, 'fs) process, nat, unit) comp" where
  "cmdLoad M args =
     (let fs = [String_flag ''f'' [] ''filename''];
          Usage = fs_Usage ''Usage: sharelock load -f <filename>''
            ''Load and print file contents.'' fs in
      bnd (fs_Parse fs Usage args) (\<lambda>vals.
      let filename = string_value vals ''f'' in
      if filename = [] then missing ''Error: filename is required'' Usage
      else
        bnd (or_exit ''Error: '' (on_cli (app_LoadFile (m_ext M) (services_of M) filename))) (\<lambda>data.
        print_out [Str (string_of_bytes data)])))"

definition cmdAppend :: "('db, 'i, 'fs) machine \<Rightarrow> string list \<Rightarrow> (('db, 'fs) process, nat, unit) comp" where
  "cmdAppend M args =
     (let fs = [String_flag ''f'' [] ''filename'',
        String_flag ''c'' [] ''content''];
          Usage = fs_Usage ''Usage: sharelock append -f <filename> -c <content>''
            ''Append content to an existing file.'' fs in
      bnd (fs_Parse fs Usage args) (\<lambda>vals.
      let filename = string_value vals ''f''; content = string_value vals ''c'' in
      if filename = [] then missing ''Error: filename is required'' Usage
      else
        bnd (or_exit ''Error: '' (on_cli (app_AppendToFile (m_ext M) (services_of M) filename
              (Some (bytes_of_string content))))) (\<lambda>_.
        Println ''ok'')))"

definition cmdShare :: "('db, 'i, 'fs) machine \<Rightarrow> string list \<Rightarrow> (('db, 'fs) process, nat, unit) comp" where
  "cmdShare M args =
     (let fs = [String_flag ''f'' [] ''filename'',
        String_flag ''r'' [] ''recipient username''];
          Usage = fs_Usage ''Usage: sharelock share -f <filename> -r <username>''
            ''Share a file with another user. Prints invitation UUID.'' fs in
      bnd (fs_Parse fs Usage args) (\<lambda>vals.
      let filename = string_value vals ''f''; recipient = string_value vals ''r'' in
      if filename = [] \<or> recipient = [] then missing ''Error: filename and recipient are required'' Usage
      else
        bnd (or_exit ''Error: '' (on_cli (app_CreateInvitation (m_ext M) (services_of M) filename recipient))) (\<lambda>invite.
        Println (x_uuid_string (m_ext M) invite))))"

definition cmdAccept :: "('db, 'i, 'fs) machine \<Rightarrow> string list \<Rightarrow> (('db, 'fs) process, nat, unit) comp" where
  "cmdAccept M args =
     (let fs = [String_flag ''s'' [] ''sender username'',
        String_flag ''i'' [] ''invitation UUID'',
        String_flag ''f'' [] ''filename to save as''];
          Usage = fs_Usage ''Usage: sharelock accept -s <sender> -i <uuid> -f <filename>''
            ''Accept a file sharing invitation.'' fs in
      bnd (fs_Parse fs Usage args) (\<lambda>vals.
      let sender = string_value vals ''s''; invitation = string_value vals ''i''; filename = string_value vals ''f'' in
      if sender = [] \<or> invitation = [] \<or> filename = []
      then missing ''Error: sender, invitation UUID, and filename are required'' Usage
      else case x_uuid_parse (m_ext M) invitation of
          None \<Rightarrow> bnd (print_err [Str ''Error: invalid invitation UUID: '', ErrText (External ''invalid UUID''), Str line_feed])
            (\<lambda>_. os_Exit 1)
        | Some invUUID \<Rightarrow>
            bnd (or_exit ''Error: '' (on_cli (app_AcceptInvitation (m_ext M) (services_of M) sender invUUID filename))) (\<lambda>_.
            Println ''ok'')))"

definition cmdRevoke :: "('db, 'i, 'fs) machine \<Rightarrow> string list \<Rightarrow> (('db, 'fs) process, nat, unit) comp" where
  "cmdRevoke M args =
     (let fs = [String_flag ''f'' [] ''filename'',
        String_flag ''r'' [] ''recipient username''];
          Usage = fs_Usage ''Usage: sharelock revoke -f <filename> -r <username>''
            ''Revoke a user's access to a file.'' fs in
      bnd (fs_Parse fs Usage args) (\<lambda>vals.
      let filename = string_value vals ''f''; recipient = string_value vals ''r'' in
      if filename = [] \<or> recipient = [] then missing ''Error: filename and recipient are required'' Usage
      else
        bnd (or_exit ''Error: '' (on_cli (app_RevokeAccess (m_ext M) (services_of M) filename recipient))) (\<lambda>_.
        Println ''ok'')))"

definition cmdList :: "('db, 'i, 'fs) machine \<Rightarrow> (('db, 'fs) process, nat, unit) comp" where
  "cmdList M =
     bnd (or_exit [] (on_cli (app_ListFiles (m_ext M)))) (\<lambda>files.
     if files = [] then Println ''No files stored.'' else for_each Println files)"

definition cmdRead :: "('db, 'i, 'fs) machine \<Rightarrow> string list \<Rightarrow> (('db, 'fs) process, nat, unit) comp" where
  "cmdRead M args =
     (let fs = [String_flag ''f'' [] ''filename'',
        String_flag ''a'' ''localhost:8080'' ''server address'',
        Bool_flag ''tls'' True ''use TLS encryption''];
          Usage = fs_Usage ''Usage: sharelock read -f <filename> [-a <host:port>] [-tls=true]''
            ''Read a file via TLS-encrypted streaming.'' fs in
      bnd (fs_Parse fs Usage args) (\<lambda>vals.
      let filename = string_value vals ''f''; address = string_value vals ''a''; tlsEnabled = bool_value vals ''tls'' in
      if filename = [] then missing ''Error: filename is required'' Usage
      else
        bnd (or_exit ''Error: '' (on_disk (ReadFileTLS (m_streams M) (m_fs M) filename address tlsEnabled))) (\<lambda>_.
        Println ''ok'')))"

definition legacyAlias :: "string \<Rightarrow> string" where
  "legacyAlias cmd =
     (if cmd = ''inituser'' then ''init'' else
      if cmd = ''getuser'' then ''login'' else
      if cmd = ''storefile'' then ''store'' else
      if cmd = ''loadfile'' then ''load'' else
      if cmd = ''appendtofile'' then ''append'' else
      if cmd = ''createinvitation'' then ''share'' else
      if cmd = ''acceptinvitation'' then ''accept'' else
      if cmd = ''revokeaccess'' then ''revoke'' else cmd)"

text \<open>The command names that \<open>main\<close> hands to \<open>runLegacy\<close>.\<close>

definition legacy_commands :: "string list" where
  "legacy_commands = [''inituser'', ''getuser'', ''storefile'', ''loadfile'', ''appendtofile'', ''createinvitation'', ''acceptinvitation'', ''revokeaccess'']"

definition runLegacy :: "('db, 'i, 'fs) machine \<Rightarrow> string \<Rightarrow> string list \<Rightarrow> (('db, 'fs) process, nat, unit) comp" where
  "runLegacy M cmd args =
     bnd (print_err [Str (''Warning: '' @ apos @ cmd @ apos @ '' is deprecated. Use '' @ apos @ ''sharelock '' @ legacyAlias cmd @ apos
           @ '' instead.'' @ line_feed @ line_feed)]) (\<lambda>_.
     if cmd = ''inituser'' then cmdInit M args else
     if cmd = ''getuser'' then cmdLogin M args else
     if cmd = ''storefile'' then cmdStore M args else
     if cmd = ''loadfile'' then cmdLoad M args else
     if cmd = ''appendtofile'' then cmdAppend M args else
     if cmd = ''createinvitation'' then cmdShare M args else
     if cmd = ''acceptinvitation'' then cmdAccept M args else
     if cmd = ''revokeaccess'' then cmdRevoke M args else ret ())"

section \<open>Hosts\<close>

definition hostUsage :: "(('db, 'fs) process, nat, unit) comp" where
  "hostUsage = for_each Eprintln
     [''Usage: sharelock host <command> [args]'',
      [],
      ''Commands:'',
      ''  list, ls                  List all configured hosts'',
      ''  add <name> <addr>         Add a host (use --tls=false for plain TCP)'',
      ''  rm <name>                 Remove a host'',
      ''  use <name>                Set a host as default'',
      [],
      ''Examples:'',
      ''  sharelock host add dev localhost:8080 --tls=false'',
      ''  sharelock host use dev'',
      ''  sharelock host list'']"

definition host_line :: "string \<Rightarrow> HostEntry \<Rightarrow> string" where
  "host_line n h =
     (let tlsStr = (if TLS h then ''tls'' else ''plain''); mark = (if n = ''default'' then ''*'' else '' '') in
      mark @ '' '' @ pad_right 12 n @ '' '' @ Addr h @ '' ('' @ tlsStr @ '')'')"

definition save_hosts :: "('db, 'i, 'fs) machine \<Rightarrow> Config \<Rightarrow> (('db, 'fs) process, nat, unit) comp" where
  "save_hosts M cfg =
     bnd (or_exit ''Error: save failed: '' (on_disk (Save (m_fs M) cfg))) (\<lambda>_. Println ''ok'')"

definition hostCmd :: "('db, 'i, 'fs) machine \<Rightarrow> Config \<Rightarrow> string list \<Rightarrow> (('db, 'fs) process, nat, unit) comp" where
  "hostCmd M cfg args =
     (if args = [] \<or> args ! 0 = ''--help'' \<or> args ! 0 = ''-h'' then hostUsage
      else if args ! 0 = ''list'' \<or> args ! 0 = ''ls'' then
        let hosts = List_hosts cfg; names = sort (gm_keys hosts) in
        for_each (\<lambda>n. case map_of hosts n of Some h \<Rightarrow> Println (host_line n h) | None \<Rightarrow> ret ()) names
      else if args ! 0 = ''add'' then
        if length args < 3 then
          bnd (Eprintln ''Usage: sharelock host add <name> <addr> [--tls=false]'') (\<lambda>_. os_Exit 1)
        else
          let tls = (\<forall>a \<in> set (drop 3 args). a \<noteq> ''--tls=false'' \<and> a \<noteq> ''--no-tls'') in
          save_hosts M (Set (args ! 1) (args ! 2) tls cfg)
      else if args ! 0 = ''rm'' \<or> args ! 0 = ''remove'' then
        if length args < 2 then bnd (Eprintln ''Usage: sharelock host rm <name>'') (\<lambda>_. os_Exit 1)
        else save_hosts M (Remove (args ! 1) cfg)
      else if args ! 0 = ''default'' \<or> args ! 0 = ''use'' then
        if length args < 2 then bnd (Eprintln ''Usage: sharelock host use <name>'') (\<lambda>_. os_Exit 1)
        else (case Get cfg (args ! 1) of
          None \<Rightarrow> bnd (Eprintln (''Error: host '' @ apos @ (args ! 1) @ apos @ '' not found'')) (\<lambda>_. os_Exit 1)
        | Some entry \<Rightarrow> save_hosts M (Remove (args ! 1) (Set ''default'' (Addr entry) (TLS entry) cfg)))
      else
        bnd (print_err [Str (''Error: unknown host command '' @ apos @ (args ! 0) @ apos @ line_feed @ line_feed)]) (\<lambda>_.
        hostUsage))"

section \<open>Usage\<close>

definition align :: "string \<times> string \<Rightarrow> string" where
  "align = (\<lambda>(name, desc). ''  '' @ pad_right 16 name @ '' '' @ desc)"

definition usage_commands :: "(string \<times> string) list" where
  "usage_commands =
     [(''init'', ''Create a new user account''),
      (''login'', ''Login as existing user''),
      (''logout'', ''Logout and clear session''),
      (''store'', ''Store a file from disk (overwrites if exists)''),
      (''load'', ''Load and print file contents''),
      (''append'', ''Append content to a file''),
      (''share'', ''Share a file with another user''),
      (''accept'', ''Accept a file sharing invitation''),
      (''revoke'', ''Revoke a user's access''),
      (''list'', ''List all stored files''),
      (''read'', ''Read file via TLS streaming''),
      (''host'', ''Manage server connections''),
      (''version'', ''Show version''),
      (''help'', ''Show this help'')]"

definition usage_rest :: "string list" where
  "usage_rest =
     [[],
      ''Flags:'',
      ''  -u    Username'',
      ''  -p    Password'',
      ''  -f    Filename'',
      ''  -c    Content'',
      ''  -r    Recipient'',
      ''  -s    Sender'',
      ''  -i    Invitation UUID'',
      ''  -a    Server address'',
      [],
      ''Quick Examples:'',
      ''  # Create account'',
      ''  sharelock init -u alice -p secret'',
      [],
      ''  # Store a file from disk'',
      ''  sharelock store -f ./hello.txt'',
      [],
      ''  # Load a file'',
      ''  sharelock load -f hello.txt'',
      [],
      ''  # Share with someone'',
      ''  sharelock share -f hello.txt -r bob'',
      [],
      ''  # Accept invitation'',
      ''  sharelock accept -s alice -i <uuid> -f hello.txt'',
      [],
      ''  # Revoke access'',
      ''  sharelock revoke -f hello.txt -r bob'',
      [],
      ''Environment:'',
      ''  SHARELOCK_HOST    Select host from config (default: '' @ [CHR 0x22] @ ''default'' @ [CHR 0x22] @ '')'',
      [],
      ''Config:'',
      ''  ~/.config/sharelock/.hosts  (fallback: ~/.hosts)'']"

definition printUsage :: "string list \<Rightarrow> (('db, 'fs) process, nat, unit) comp" where
  "printUsage args = (case args of
     [] \<Rightarrow> go_panic ''index out of range''
   | cmd # _ \<Rightarrow> print_err [Str (concat (map (\<lambda>l. l @ line_feed)
       ([''ShareLock - End-to-end encrypted file sharing'', [], ''Usage:'', ''  '' @ cmd @ '' <command> [flags]'', [], ''Commands:'']
        @ map align usage_commands @ usage_rest)))])"

section \<open>main\<close>

definition version :: string where
  "version = ''dev''"

definition userCommands :: "string list" where
  "userCommands = [''store'', ''load'', ''append'', ''share'', ''accept'', ''revoke'', ''list'']"

text \<open>Connects to the configured host; the result tells whether \<open>Disconnect\<close> was deferred.\<close>

definition connect_host :: "('db, 'i, 'fs) machine \<Rightarrow> Config \<Rightarrow> string \<Rightarrow> (('db, 'fs) process, nat, bool) comp" where
  "connect_host M cfg cmd =
     (if cmd = ''read'' then ret False
      else
        let hostName = (if Getenv (m_env M) ''SHARELOCK_HOST'' \<noteq> [] then Getenv (m_env M) ''SHARELOCK_HOST'' else ''default'') in
        case Get cfg hostName of
          None \<Rightarrow> ret False
        | Some entry \<Rightarrow>
            if Addr entry = [] then ret False
            else bnd (on_cli (on_backend (Connect (Addr entry) (TLS entry)))) (\<lambda>_. ret True))"

definition require_login :: "('db, 'i, 'fs) machine \<Rightarrow> (('db, 'fs) process, nat, unit) comp" where
  "require_login M = bnd (gets (\<lambda>p. LoadSession (m_fs M) (m_env M) (disk p))) (\<lambda>session. case session of
     Some (u, p) \<Rightarrow> or_exit ''Error: session expired, please login again: '' (on_cli (app_GetUser (m_ext M) (services_of M) u p))
   | None \<Rightarrow> bnd (Eprintln (''Error: not logged in. Run '' @ apos @ ''sharelock login -u <user> -p <pass>'' @ apos @ '' first.'')) (\<lambda>_.
       os_Exit 1))"

definition run_command :: "('db, 'i, 'fs) machine \<Rightarrow> string list \<Rightarrow> (('db, 'fs) process, nat, unit) comp" where
  "run_command M osArgs =
     (let cmd = osArgs ! 1; args = drop 2 osArgs in
      if cmd = ''init'' then cmdInit M args
      else if cmd = ''login'' then cmdLogin M args
      else if cmd = ''logout'' then cmdLogout M
      else if cmd = ''store'' then cmdStore M args
      else if cmd = ''load'' then cmdLoad M args
      else if cmd = ''append'' then cmdAppend M args
      else if cmd = ''share'' then cmdShare M args
      else if cmd = ''accept'' then cmdAccept M args
      else if cmd = ''revoke'' then cmdRevoke M args
      else if cmd = ''list'' then cmdList M
      else if cmd = ''read'' then cmdRead M args
      else if cmd \<in> set legacy_commands then runLegacy M cmd args
      else if cmd = ''help'' then printUsage osArgs
      else
        bnd (print_err [Str (''Error: unknown command '' @ apos @ cmd @ apos @ line_feed @ line_feed)]) (\<lambda>_.
        bnd (Eprintln (''Run '' @ apos @ ''sharelock help'' @ apos @ '' to see available commands.'')) (\<lambda>_.
        os_Exit 1)))"

text \<open>\<open>defer app.Disconnect()\<close> runs when \<open>main\<close> returns or panics, and not on \<open>os.Exit\<close>.\<close>

definition with_Disconnect :: "bool \<Rightarrow> (('db, 'fs) process, nat, unit) comp \<Rightarrow> (('db, 'fs) process, nat, unit) comp" where
  "with_Disconnect deferred m p = (case m p of
     (Err n, p') \<Rightarrow> (Err n, p')
   | (r, p') \<Rightarrow> (r, if deferred then snd (on_cli (on_backend Disconnect) p') else p'))"

definition main :: "('db, 'i, 'fs) machine \<Rightarrow> string list \<Rightarrow> (('db, 'fs) process, nat, unit) comp" where
  "main M osArgs =
     (if length osArgs < 2 then bnd (printUsage osArgs) (\<lambda>_. os_Exit 1)
      else let cmd = osArgs ! 1; args = drop 2 osArgs in
      if cmd = ''--help'' \<or> cmd = ''-h'' then bnd (printUsage osArgs) (\<lambda>_. os_Exit 0)
      else if cmd = ''version'' \<or> cmd = ''--version'' then bnd (Println (''sharelock '' @ version)) (\<lambda>_. os_Exit 0)
      else
        bnd (or_exit ''Error: config load failed: '' (on_disk (Load (m_fs M) (m_env M)))) (\<lambda>cfg.
        if cmd = ''host'' \<or> cmd = ''hosts'' then hostCmd M cfg args
        else
          bnd (connect_host M cfg cmd) (\<lambda>deferred.
          with_Disconnect deferred
            (bnd (if cmd \<in> set userCommands then require_login M else ret ()) (\<lambda>_.
             run_command M osArgs)))))"

text \<open>
  A process starts with empty stores of its own and nobody logged in; the disk and the database of
  the server are what earlier runs left.
\<close>

definition new_userlib :: "'db \<Rightarrow> 'db userlib" where
  "new_userlib contents = \<lparr>remoteAddr = [], useTLS = False, spec_line = 0, datastore = Map.empty, keystore = Map.empty,
     datastoreBandwidth = Map.empty, local_keys = Map.empty, dials = 0, remote_db = contents\<rparr>"

definition new_process :: "'db \<Rightarrow> nat \<Rightarrow> 'fs \<Rightarrow> ('db, 'fs) process" where
  "new_process contents drawn files = \<lparr>cli = new_client (new_userlib contents) drawn, disk = files, out = [], err = []\<rparr>"

end
