(* ===== verification/Server_Correct.thy ===== *)
theory Server_Correct
  imports Server
begin

text \<open>
  The server against a reference: a connection's bytes are cut into requests by a parser that
  does nothing else, the requests run one after another on the database, and their replies are
  printed. \<open>handleConn\<close>, which interleaves reading, running and writing, is shown to be that;
  the database of the requests is shown to be a map.
\<close>

section \<open>Requests and replies\<close>

datatype req = ReqGet bytes | ReqSet bytes bytes | ReqDelete bytes | ReqOther byte bytes

datatype reply = Done | Value bytes | Missing | Failed string

fun enc_req :: "req \<Rightarrow> bytes" where
  "enc_req (ReqGet k) = request OpGet k []"
| "enc_req (ReqSet k v) = request OpSet k v"
| "enc_req (ReqDelete k) = request OpDelete k []"
| "enc_req (ReqOther op k) = request op k []"

fun enc_reply :: "reply \<Rightarrow> bytes" where
  "enc_reply Done = [StatusOK]"
| "enc_reply (Value v) = StatusOK # PutUint32 (word_of_nat (length v)) @ v"
| "enc_reply Missing = [StatusNotFound]"
| "enc_reply (Failed m) = StatusError # PutUint32 (word_of_nat (length m)) @ bytes_of_string m"

text \<open>A length and as many bytes.\<close>

definition next_chunk :: "bytes \<Rightarrow> (bytes \<times> bytes) option" where
  "next_chunk b =
     (let n = unat (Uint32 (take 4 b)) in
      if length b < 4 + n then None else Some (take n (drop 4 b), drop (4 + n) b))"

fun next_req :: "bytes \<Rightarrow> (req \<times> bytes) option" where
  "next_req [] = None"
| "next_req (op # b) = (case next_chunk b of
     None \<Rightarrow> None
   | Some (key, b1) \<Rightarrow>
       if op = OpGet then Some (ReqGet key, b1)
       else if op = OpSet then
         (case next_chunk b1 of None \<Rightarrow> None | Some (val, b2) \<Rightarrow> Some (ReqSet key val, b2))
       else if op = OpDelete then Some (ReqDelete key, b1)
       else Some (ReqOther op key, b1))"

lemma next_chunk_shorter: "next_chunk b = Some (x, b') \<Longrightarrow> length b' < length b"
  by (auto simp: next_chunk_def Let_def split: if_splits)

lemma next_req_shorter: "next_req b = Some (r, b') \<Longrightarrow> length b' < length b"
  by (induction b rule: next_req.induct)
    (auto split: option.splits prod.splits if_splits dest!: next_chunk_shorter)

function split_reqs :: "bytes \<Rightarrow> req list" where
  "split_reqs b = (case next_req b of None \<Rightarrow> [] | Some (r, b') \<Rightarrow> r # split_reqs b')"
  by pat_completeness auto
termination
  by (relation "measure length") (auto dest: next_req_shorter)

declare split_reqs.simps [simp del]

lemma split_reqs_Some: "next_req b = Some (r, b') \<Longrightarrow> split_reqs b = r # split_reqs b'"
  by (simp add: split_reqs.simps [of b])

lemma split_reqs_None: "next_req b = None \<Longrightarrow> split_reqs b = []"
  by (simp add: split_reqs.simps [of b])

text \<open>What one request does to the database, and what it answers.\<close>

fun run_req :: "('db, 'i) badger \<Rightarrow> req \<Rightarrow> 'db \<Rightarrow> reply \<times> 'db" where
  "run_req B (ReqGet k) d = ((case Store_Get B k d of
     Ok v \<Rightarrow> Value v
   | Err ErrKeyNotFound \<Rightarrow> Missing
   | Err e \<Rightarrow> Failed (db_message e)
   | Panic p \<Rightarrow> Failed p), d)"
| "run_req B (ReqSet k v) d = (case Store_Set B k v d of
     (None, d') \<Rightarrow> (Done, d')
   | (Some e, d') \<Rightarrow> (Failed (db_message e), d'))"
| "run_req B (ReqDelete k) d = (case Store_Delete B k d of
     (None, d') \<Rightarrow> (Done, d')
   | (Some e, d') \<Rightarrow> (Failed (db_message e), d'))"
| "run_req B (ReqOther op k) d = (Failed (''unknown op: '' @ show_nat (unat op)), d)"

fun run_reqs :: "('db, 'i) badger \<Rightarrow> req list \<Rightarrow> 'db \<Rightarrow> reply list \<times> 'db" where
  "run_reqs B [] d = ([], d)"
| "run_reqs B (r # rs) d =
     (let (p, d1) = run_req B r d; (ps, d2) = run_reqs B rs d1 in (p # ps, d2))"

section \<open>The handler is the reference\<close>

lemma ops_distinct [simp]: "OpGet \<noteq> OpSet" "OpGet \<noteq> OpDelete" "OpSet \<noteq> OpDelete"
  "OpSet \<noteq> OpGet" "OpDelete \<noteq> OpGet" "OpDelete \<noteq> OpSet"
  by (simp_all add: OpGet_def OpSet_def OpDelete_def)

text \<open>Reading a length and the bytes it announces, in one step.\<close>

definition ReadChunk :: "('z conn_scheme, go_error, bytes) comp" where
  "ReadChunk = bnd (ReadFull 4) (\<lambda>l. ReadFull (unat (Uint32 l)))"

lemma ReadChunk_ok: "next_chunk (inp c) = Some (x, b) \<Longrightarrow> ReadChunk c = (Ok x, c\<lparr>inp := b\<rparr>)"
  by (auto simp: ReadChunk_def next_chunk_def bnd_def ReadFull_def Let_def add.commute split: if_splits)

lemma ReadChunk_short: "next_chunk (inp c) = None \<Longrightarrow> \<exists>e. ReadChunk c = (Err e, c\<lparr>inp := []\<rparr>)"
  by (auto simp: ReadChunk_def next_chunk_def bnd_def ReadFull_def Let_def split: if_splits)

lemma handleSet_chunk: "handleSet B key =
  bnd ReadChunk (\<lambda>val. bnd (on_db (Store_Set B key val)) (\<lambda>err. case err of
       Some e \<Rightarrow> writeError (db_message e)
     | None \<Rightarrow> writeStatus StatusOK))"
  by (simp add: handleSet_def ReadChunk_def bnd_assoc)

lemma Handle_chunk: "Handle B = bnd (ReadFull 1) (\<lambda>op. bnd ReadChunk (\<lambda>key.
     if op ! 0 = OpGet then handleGet B key
     else if op ! 0 = OpSet then handleSet B key
     else if op ! 0 = OpDelete then handleDelete B key
     else writeError (''unknown op: '' @ show_nat (unat (op ! 0)))))"
  by (simp add: Handle_def ReadChunk_def bnd_assoc)

lemma writes_eq:
  "writeStatus st c = (Ok (), c\<lparr>outp := outp c @ [st]\<rparr>)"
  "writeValue v c = (Ok (), c\<lparr>outp := outp c @ enc_reply (Value v)\<rparr>)"
  "writeError m c = (Ok (), c\<lparr>outp := outp c @ enc_reply (Failed m)\<rparr>)"
  by (simp_all add: writeStatus_def writeValue_def writeError_def Write_def)

lemma Store_Get_calm: "badger_calm B \<Longrightarrow> Store_Get B k d \<noteq> Panic p"
  by (cases "bd_Get B k d") (auto simp: badger_calm_def Store_Get_def)

lemma handleGet_eq:
  assumes "badger_calm B"
  shows "handleGet B key c = (Ok (), c\<lparr>db := snd (run_req B (ReqGet key) (db c)),
     outp := outp c @ enc_reply (fst (run_req B (ReqGet key) (db c)))\<rparr>)"
  using Store_Get_calm [OF assms, of key "db c"]
  by (auto simp: handleGet_def monad_simps writes_eq split: outcome.split db_error.split)

lemma handleDelete_eq: "handleDelete B key c =
  (Ok (), c\<lparr>db := snd (run_req B (ReqDelete key) (db c)),
     outp := outp c @ enc_reply (fst (run_req B (ReqDelete key) (db c)))\<rparr>)"
  by (auto simp: handleDelete_def bnd_def on_db_def writes_eq split: prod.split option.split)

lemma handleSet_eq:
  assumes "next_chunk (inp c) = Some (val, b)"
  shows "handleSet B key c =
  (Ok (), c\<lparr>inp := b, db := snd (run_req B (ReqSet key val) (db c)),
     outp := outp c @ enc_reply (fst (run_req B (ReqSet key val) (db c)))\<rparr>)"
  by (auto simp: handleSet_chunk bnd_def ReadChunk_ok [OF assms] on_db_def writes_eq
      split: prod.split option.split)

lemma ReadFull_1: "inp c = x # b \<Longrightarrow> ReadFull (Suc 0) c = (Ok [x], c\<lparr>inp := b\<rparr>)"
  by (simp add: ReadFull_def)

text \<open>A complete request is consumed, run and answered.\<close>

lemma Handle_request:
  assumes calm: "badger_calm B" and r: "next_req (inp c) = Some (r, b)"
  shows "Handle B c = (Ok (), c\<lparr>inp := b, db := snd (run_req B r (db c)),
     outp := outp c @ enc_reply (fst (run_req B r (db c)))\<rparr>)"
proof -
  obtain op x where inp: "inp c = op # x" using r by (cases "inp c") auto
  obtain key b1 where k: "next_chunk x = Some (key, b1)"
    using r by (auto simp: inp split: option.splits)
  let ?c1 = "c\<lparr>inp := b1\<rparr>"
  have step: "Handle B c = (if op = OpGet then handleGet B key
     else if op = OpSet then handleSet B key
     else if op = OpDelete then handleDelete B key
     else writeError (''unknown op: '' @ show_nat (unat op))) ?c1"
    using inp k by (simp add: Handle_chunk monad_simps ReadFull_1 ReadChunk_ok)
  consider "op = OpGet" | "op = OpSet" | "op = OpDelete" | "op \<notin> {OpGet, OpSet, OpDelete}" by blast
  then show ?thesis
  proof cases
    case 1
    then show ?thesis using r by (simp add: step inp k handleGet_eq [OF calm])
  next
    case 2
    then obtain val where v: "next_chunk b1 = Some (val, b)" "r = ReqSet key val"
      using r by (auto simp: inp k split: option.splits)
    have v': "next_chunk (inp ?c1) = Some (val, b)" using v by simp
    show ?thesis using 2 v handleSet_eq [OF v', of B key] by (simp add: step)
  next
    case 3
    then show ?thesis using r by (simp add: step inp k handleDelete_eq)
  next
    case 4
    then have "r = ReqOther op key" "b = b1" using r by (auto simp: inp k)
    with 4 show ?thesis by (simp add: step writes_eq del: enc_reply.simps)
  qed
qed

text \<open>An incomplete request ends the connection and does nothing else.\<close>

lemma Handle_incomplete:
  assumes r: "next_req (inp c) = None"
  shows "\<exists>e. Handle B c = (Err e, c\<lparr>inp := []\<rparr>)"
proof (cases "inp c")
  case Nil
  then show ?thesis by (simp add: Handle_chunk bnd_def ReadFull_def)
next
  case (Cons op x)
  show ?thesis
  proof (cases "next_chunk x")
    case None
    then obtain e where "ReadChunk (c\<lparr>inp := x\<rparr>) = (Err e, c\<lparr>inp := []\<rparr>)"
      using ReadChunk_short [of "c\<lparr>inp := x\<rparr>"] by auto
    then show ?thesis using Cons by (simp add: Handle_chunk monad_simps ReadFull_1)
  next
    case (Some kb)
    obtain key b1 where k: "next_chunk x = Some (key, b1)" using Some by (cases kb) auto
    then have op: "op = OpSet" "next_chunk b1 = None"
      using r by (auto simp: Cons split: if_splits option.splits)
    then obtain e where "ReadChunk (c\<lparr>inp := b1\<rparr>) = (Err e, c\<lparr>inp := []\<rparr>)"
      using ReadChunk_short [of "c\<lparr>inp := b1\<rparr>"] by auto
    then show ?thesis
      using Cons k op by (simp add: Handle_chunk handleSet_chunk monad_simps ReadFull_1 ReadChunk_ok)
  qed
qed

lemma handleConn_run:
  assumes calm: "badger_calm B"
  shows "\<exists>e. handleConn B c = (Err e, c\<lparr>inp := [],
     db := snd (run_reqs B (split_reqs (inp c)) (db c)),
     outp := outp c @ concat (map enc_reply (fst (run_reqs B (split_reqs (inp c)) (db c))))\<rparr>)"
proof (induction "length (inp c)" arbitrary: c rule: less_induct)
  case less
  show ?case
  proof (cases "next_req (inp c)")
    case None
    then obtain e where e: "Handle B c = (Err e, c\<lparr>inp := []\<rparr>)" using Handle_incomplete by blast
    have "split_reqs (inp c) = []" using None by (rule split_reqs_None)
    then show ?thesis by (simp add: handleConn.simps [of B c] e)
  next
    case (Some rb)
    obtain r b where rb: "next_req (inp c) = Some (r, b)" using Some by (cases rb) auto
    let ?c = "c\<lparr>inp := b, db := snd (run_req B r (db c)),
       outp := outp c @ enc_reply (fst (run_req B r (db c)))\<rparr>"
    have h: "handleConn B c = handleConn B ?c"
      by (subst handleConn.simps) (simp add: Handle_request [OF calm rb] split: unit.split)
    have s: "split_reqs (inp c) = r # split_reqs b"
      using rb by (rule split_reqs_Some)
    have "length (inp ?c) < length (inp c)" using next_req_shorter [OF rb] by simp
    from less [OF this] show ?thesis by (simp add: h s Let_def case_prod_beta)
  qed
qed

section \<open>What the client writes is what the server reads\<close>

fun req_ok :: "req \<Rightarrow> bool" where
  "req_ok (ReqGet k) \<longleftrightarrow> length k < 2 ^ 32"
| "req_ok (ReqSet k v) \<longleftrightarrow> length k < 2 ^ 32 \<and> length v < 2 ^ 32"
| "req_ok (ReqDelete k) \<longleftrightarrow> length k < 2 ^ 32"
| "req_ok (ReqOther op k) \<longleftrightarrow> length k < 2 ^ 32 \<and> op \<notin> {OpGet, OpSet, OpDelete}"

lemma next_chunk_put:
  "length x < 2 ^ 32 \<Longrightarrow> next_chunk (PutUint32 (word_of_nat (length x)) @ x @ b) = Some (x, b)"
  by (simp add: next_chunk_def unat_length_32)

lemma op_ends: "opGet = OpGet" "opSet = OpSet" "opDelete = OpDelete"
  by (simp_all add: opGet_def OpGet_def opSet_def OpSet_def opDelete_def OpDelete_def)

lemma next_req_enc: "req_ok r \<Longrightarrow> next_req (enc_req r @ b) = Some (r, b)"
  by (cases r) (auto simp: request_def op_ends next_chunk_put)

lemma split_reqs_enc: "\<forall>r \<in> set rs. req_ok r \<Longrightarrow> split_reqs (concat (map enc_req rs)) = rs"
proof (induction rs)
  case Nil
  show ?case by (simp add: split_reqs_None)
next
  case (Cons r rs)
  then show ?case by (simp add: split_reqs_Some [OF next_req_enc])
qed

section \<open>The database of the requests is a map\<close>

fun spec_req :: "req \<Rightarrow> (bytes \<rightharpoonup> bytes) \<Rightarrow> reply \<times> (bytes \<rightharpoonup> bytes)" where
  "spec_req (ReqGet k) m = (case m k of None \<Rightarrow> Missing | Some v \<Rightarrow> Value v, m)"
| "spec_req (ReqSet k v) m = (Done, m(k \<mapsto> v))"
| "spec_req (ReqDelete k) m = (Done, m(k := None))"
| "spec_req (ReqOther op k) m = (Failed (''unknown op: '' @ show_nat (unat op)), m)"

fun spec_reqs :: "req list \<Rightarrow> (bytes \<rightharpoonup> bytes) \<Rightarrow> reply list \<times> (bytes \<rightharpoonup> bytes)" where
  "spec_reqs [] m = ([], m)"
| "spec_reqs (r # rs) m =
     (let (p, m1) = spec_req r m; (ps, m2) = spec_reqs rs m1 in (p # ps, m2))"

fun req_fits :: "(bytes \<Rightarrow> bytes \<Rightarrow> bool) \<Rightarrow> req \<Rightarrow> bool" where
  "req_fits fits (ReqGet k) \<longleftrightarrow> fits k []"
| "req_fits fits (ReqSet k v) \<longleftrightarrow> fits k v"
| "req_fits fits (ReqDelete k) \<longleftrightarrow> fits k []"
| "req_fits fits (ReqOther op k) \<longleftrightarrow> True"

lemma badger_okD:
  assumes "badger_ok B contents fits"
  shows "bd_Get B k d = Err ErrKeyNotFound \<Longrightarrow> contents d k = None"
    "bd_Get B k d = Ok i \<Longrightarrow> bd_ValueCopy B i = Ok v \<Longrightarrow> contents d k = Some v"
    "bd_Set B k v d = (None, d') \<Longrightarrow> contents d' = (contents d)(k \<mapsto> v)"
    "bd_Delete B k d = (None, d') \<Longrightarrow> contents d' = (contents d)(k := None)"
    "bd_Set B k v d = (Some e, d') \<Longrightarrow> contents d' = contents d"
    "bd_Delete B k d = (Some e, d') \<Longrightarrow> contents d' = contents d"
    "fits k v \<Longrightarrow> fst (bd_Set B k v d) = None"
    "fits k v \<Longrightarrow> fits k []"
    "fits k [] \<Longrightarrow> fst (bd_Delete B k d) = None"
    "fits k [] \<Longrightarrow> bd_Get B k d = Err ErrKeyNotFound \<or> (\<exists>i v. bd_Get B k d = Ok i \<and> bd_ValueCopy B i = Ok v)"
  using assms unfolding badger_ok_def by simp_all blast+

lemma run_req_spec:
  assumes ok: "badger_ok B contents fits" and r: "req_fits fits r"
  shows "fst (run_req B r d) = fst (spec_req r (contents d))
    \<and> contents (snd (run_req B r d)) = snd (spec_req r (contents d))"
proof (cases r)
  case (ReqGet k)
  then have "bd_Get B k d = Err ErrKeyNotFound \<or> (\<exists>i v. bd_Get B k d = Ok i \<and> bd_ValueCopy B i = Ok v)"
    using r by (intro badger_okD(10) [OF ok]) simp
  then show ?thesis
    using badger_okD(1,2) [OF ok] by (auto simp: ReqGet Store_Get_def)
next
  case (ReqSet k v)
  then have "fst (bd_Set B k v d) = None" using r by (intro badger_okD(7) [OF ok]) simp
  then obtain d' where "bd_Set B k v d = (None, d')" by (cases "bd_Set B k v d") auto
  then show ?thesis using badger_okD(3) [OF ok] by (simp add: ReqSet Store_Set_def)
next
  case (ReqDelete k)
  then have "fst (bd_Delete B k d) = None" using r by (intro badger_okD(9) [OF ok]) simp
  then obtain d' where "bd_Delete B k d = (None, d')" by (cases "bd_Delete B k d") auto
  then show ?thesis using badger_okD(4) [OF ok] by (simp add: ReqDelete Store_Delete_def)
qed simp

lemma run_reqs_spec:
  assumes ok: "badger_ok B contents fits" and "\<forall>r \<in> set rs. req_fits fits r"
  shows "fst (run_reqs B rs d) = fst (spec_reqs rs (contents d))
    \<and> contents (snd (run_reqs B rs d)) = snd (spec_reqs rs (contents d))"
  using assms(2)
proof (induction rs arbitrary: d)
  case (Cons r rs)
  then show ?case using run_req_spec [OF ok, of r d] by (simp add: Let_def case_prod_beta)
qed simp

text \<open>Running requests in two batches.\<close>

lemma run_reqs_append:
  "run_reqs B (rs @ qs) d =
     (fst (run_reqs B rs d) @ fst (run_reqs B qs (snd (run_reqs B rs d))),
      snd (run_reqs B qs (snd (run_reqs B rs d))))"
  by (induction rs arbitrary: d) (simp_all add: Let_def case_prod_beta)

lemma length_run_reqs [simp]: "length (fst (run_reqs B rs d)) = length rs"
  by (induction rs arbitrary: d) (simp_all add: Let_def case_prod_beta)

text \<open>More bytes do not change how the bytes before them are read.\<close>

lemma next_chunk_append:
  "next_chunk b = Some (x, b') \<Longrightarrow> next_chunk (b @ c) = Some (x, b' @ c)"
  by (auto simp: next_chunk_def Let_def split: if_splits)

lemma next_req_append: "next_req b = Some (r, b') \<Longrightarrow> next_req (b @ c) = Some (r, b' @ c)"
  by (cases b) (auto simp: next_chunk_append split: option.splits if_splits)

end
