(* ===== verification/Backend.thy ===== *)
theory Backend
  imports Invitation_Service Memory_Storage
begin

text \<open>
  The interface between the services and what stores their data. A backend is anything that
  promises the laws of \<open>readable_backend\<close> and \<open>storage_backend\<close>; for every such backend each
  operation of the three services does what it does on the in-memory backend. The in-memory
  side is instrumented: \<open>checked\<close> also records whether everything asked of the storage was
  within what the backend promises about.
\<close>

section \<open>The instrumented memory\<close>

record checked = memory +
  fitted :: bool

text \<open>The entries, identifiers and names a backend makes promises about.\<close>

record promises =
  ok_id :: "UUID \<Rightarrow> bool"
  ok_entry :: "UUID \<Rightarrow> bytes \<Rightarrow> bool"
  ok_name :: "string \<Rightarrow> bool"
  ok_key :: "string \<Rightarrow> iface \<Rightarrow> bool"

definition checked_services :: "promises \<Rightarrow> checked services" where
  "checked_services P =
     \<lparr>svc_storage =
        \<lparr>st_Get = (\<lambda>k c. (Ok (mem_store c k), c\<lparr>fitted := fitted c \<and> ok_id P k\<rparr>)),
         st_Set = (\<lambda>k v c. (Ok (), c\<lparr>mem_store := (mem_store c)(k \<mapsto> v), fitted := fitted c \<and> ok_entry P k v\<rparr>)),
         st_Delete = (\<lambda>k c. (Ok (), c\<lparr>mem_store := (mem_store c)(k := None), fitted := fitted c \<and> ok_id P k\<rparr>))\<rparr>,
      svc_keyStore =
        \<lparr>ks_Get = (\<lambda>n c. (Ok (mem_keys c n), c\<lparr>fitted := fitted c \<and> ok_name P n\<rparr>)),
         ks_Set = (\<lambda>n v c. (Ok (), c\<lparr>mem_keys := (mem_keys c)(n \<mapsto> v), fitted := fitted c \<and> ok_key P n v\<rparr>))\<rparr>,
      svc_DatastoreSet = (\<lambda>k v c. (Ok (), c\<lparr>mem_store := (mem_store c)(k \<mapsto> v), fitted := fitted c \<and> ok_entry P k v\<rparr>))\<rparr>"

section \<open>Simulation\<close>

named_theorems sim_intros "simulation of the building blocks of the services"

text \<open>
  Two worlds over different backends that agree on everything but the backend, and whose
  backends are related by \<open>R\<close>. \<open>simulates R f g\<close>: \<open>g\<close> never turns the flag back on, and unless it
  turns it off, \<open>f\<close> has the same outcome and leaves related worlds.
\<close>

definition mirrors :: "('b \<Rightarrow> checked \<Rightarrow> bool) \<Rightarrow> ('b, 'z) world_scheme \<Rightarrow> (checked, 'z) world_scheme \<Rightarrow> bool" where
  "mirrors R w m \<longleftrightarrow> draws w = draws m \<and> world.more w = world.more m \<and> R (backend w) (backend m)"

abbreviation in_bounds :: "(checked, 'z) world_scheme \<Rightarrow> bool" where
  "in_bounds m \<equiv> fitted (backend m)"

definition simulates :: "('b \<Rightarrow> checked \<Rightarrow> bool) \<Rightarrow> (('b, 'z) world_scheme, 'e, 'a) comp
    \<Rightarrow> ((checked, 'z) world_scheme, 'e, 'a) comp \<Rightarrow> bool" where
  "simulates R f g \<longleftrightarrow>
     (\<forall>m. in_bounds (snd (g m)) \<longrightarrow> in_bounds m)
   \<and> (\<forall>w m. mirrors R w m \<longrightarrow> in_bounds (snd (g m)) \<longrightarrow>
        fst (f w) = fst (g m) \<and> mirrors R (snd (f w)) (snd (g m)))"

lemma simulatesI:
  assumes "\<And>m. in_bounds (snd (g m)) \<Longrightarrow> in_bounds m"
    and "\<And>w m. mirrors R w m \<Longrightarrow> in_bounds (snd (g m)) \<Longrightarrow> fst (f w) = fst (g m) \<and> mirrors R (snd (f w)) (snd (g m))"
  shows "simulates R f g"
  using assms by (simp add: simulates_def)

lemma simulatesD:
  assumes "simulates R f g" "mirrors R w m" "in_bounds (snd (g m))"
  shows "fst (f w) = fst (g m)" "mirrors R (snd (f w)) (snd (g m))"
  using assms by (auto simp: simulates_def)

lemma sim_bnd [sim_intros]:
  assumes f: "simulates R f g" and h: "\<And>x. simulates R (h x) (k x)"
  shows "simulates R (bnd f h) (bnd g k)"
proof (rule simulatesI)
  fix m
  assume fin: "in_bounds (snd (bnd g k m))"
  show "in_bounds m"
  proof (cases "g m")
    case (Pair r m1)
    then have "in_bounds m1"
      using fin h by (cases r) (auto simp: bnd_def simulates_def)
    then show ?thesis using f Pair by (auto simp: simulates_def)
  qed
next
  fix w m
  assume w: "mirrors R w m" and fin: "in_bounds (snd (bnd g k m))"
  obtain r m1 where g: "g m = (r, m1)" by (cases "g m")
  have m1: "in_bounds m1" using fin h g by (cases r) (auto simp: bnd_def simulates_def)
  with f g w obtain w1 where f1: "f w = (r, w1)" "mirrors R w1 m1"
    using simulatesD [OF f w] by (cases "f w") auto
  show "fst (bnd f h w) = fst (bnd g k m) \<and> mirrors R (snd (bnd f h w)) (snd (bnd g k m))"
  proof (cases r)
    case (Ok x)
    then show ?thesis using simulatesD [OF h f1(2)] fin g f1(1) by (simp add: bnd_def)
  qed (use g f1 in \<open>simp_all add: bnd_def\<close>)
qed

lemma sim_same [sim_intros]:
  "simulates R (ret x) (ret x)" "simulates R (raise e) (raise e)" "simulates R (go_panic p) (go_panic p)"
  "simulates R (lift_outcome r) (lift_outcome r)"
  by (auto intro!: simulatesI simp: comp_defs)

lemma sim_tick [sim_intros]: "simulates R tick tick"
  by (auto intro!: simulatesI simp: tick_def mirrors_def)

lemma snd_wrapped: "snd (map_err wrap g m) = snd (g m)" "snd (attempt g m) = snd (g m)"
  by (simp_all add: map_err_def attempt_def split: prod.split outcome.split)

lemma sim_map_err [sim_intros]: "simulates R f g \<Longrightarrow> simulates R (map_err wrap f) (map_err wrap g)"
proof (rule simulatesI)
  fix m
  assume f: "simulates R f g" and "in_bounds (snd (map_err wrap g m))"
  then show "in_bounds m" by (simp add: snd_wrapped simulates_def)
next
  fix w m
  assume f: "simulates R f g" "mirrors R w m" "in_bounds (snd (map_err wrap g m))"
  then have "fst (f w) = fst (g m)" "mirrors R (snd (f w)) (snd (g m))"
    by (auto simp: snd_wrapped dest: simulatesD)
  then show "fst (map_err wrap f w) = fst (map_err wrap g m)
      \<and> mirrors R (snd (map_err wrap f w)) (snd (map_err wrap g m))"
    by (cases "f w"; cases "g m") (auto simp: map_err_def split: outcome.split)
qed

lemma sim_attempt [sim_intros]: "simulates R f g \<Longrightarrow> simulates R (attempt f) (attempt g)"
proof (rule simulatesI)
  fix m
  assume f: "simulates R f g" and "in_bounds (snd (attempt g m))"
  then show "in_bounds m" by (simp add: snd_wrapped simulates_def)
next
  fix w m
  assume f: "simulates R f g" "mirrors R w m" "in_bounds (snd (attempt g m))"
  then have "fst (f w) = fst (g m)" "mirrors R (snd (f w)) (snd (g m))"
    by (auto simp: snd_wrapped dest: simulatesD)
  then show "fst (attempt f w) = fst (attempt g m) \<and> mirrors R (snd (attempt f w)) (snd (attempt g m))"
    by (cases "f w"; cases "g m") (auto simp: attempt_def split: outcome.split)
qed

lemma sim_for_each [sim_intros]:
  "(\<And>x. simulates R (f x) (g x)) \<Longrightarrow> simulates R (for_each f xs) (for_each g xs)"
  by (induction xs) (auto intro!: sim_intros)

text \<open>The parts of the code that only use randomness.\<close>

lemma sim_entropy [sim_intros]:
  "simulates R (randomBytes X n) (randomBytes X n)"
  "simulates R (uuid_New X) (uuid_New X)"
  "simulates R (range_keys X mp) (range_keys X mp)"
  "simulates R (pkeKeyGen X) (pkeKeyGen X)"
  "simulates R (dsKeyGen X) (dsKeyGen X)"
  "simulates R (pkeEnc X pk b) (pkeEnc X pk b)"
  "simulates R (encryptAndMAC X b ek mk) (encryptAndMAC X b ek mk)"
  unfolding randomBytes_def uuid_New_def range_keys_def pkeKeyGen_def dsKeyGen_def pkeEnc_def encryptAndMAC_def
  by (auto intro!: sim_intros split: option.split)

lemma sim_invitation_helpers [sim_intros]:
  "simulates R (assert_key v) (assert_key v)"
  "simulates R (set_child n i a) (set_child n i a)"
  "simulates R (children_entries X ch) (children_entries X ch)"
  unfolding assert_key_def set_child_def children_entries_def
  by (auto intro!: sim_intros split: iface.split option.split)

text \<open>The user struct a session carries is not part of the backend.\<close>

lemma mirrors_self: "mirrors R (w :: 'b session) m \<Longrightarrow> self w = self m"
  by (cases w; cases m) (simp add: mirrors_def)

lemma sim_self [sim_intros]: "simulates R (gets self :: ('b session, 'e, User) comp) (gets self)"
  by (rule simulatesI) (auto simp: gets_def mirrors_self)

lemma sim_modify_self: "simulates R (modify (\<lambda>s :: 'b session. s\<lparr>self := f (self s)\<rparr>)) (modify (\<lambda>s. s\<lparr>self := f (self s)\<rparr>))"
proof (rule simulatesI)
  fix w :: "'b session" and m :: "checked session"
  assume "mirrors R w m"
  then show "fst (modify (\<lambda>s. s\<lparr>self := f (self s)\<rparr>) w) = fst (modify (\<lambda>s. s\<lparr>self := f (self s)\<rparr>) m) \<and>
    mirrors R (snd (modify (\<lambda>s. s\<lparr>self := f (self s)\<rparr>) w)) (snd (modify (\<lambda>s. s\<lparr>self := f (self s)\<rparr>) m))"
    by (cases w; cases m) (simp add: modify_def mirrors_def)
qed (simp add: modify_def)

text \<open>A map of files is made or changed: \<open>make_files\<close> and \<open>set_file\<close>.\<close>

lemma make_files_self: "make_files = modify (\<lambda>s. s\<lparr>self := (case u_Files (self s) of
     None \<Rightarrow> (self s)\<lparr>u_Files := Some []\<rparr> | Some m \<Rightarrow> self s)\<rparr>)"
  by (rule ext) (auto simp: make_files_def modify_def split: option.split)

lemma sim_files [sim_intros]:
  "simulates R (make_files :: ('b session, go_error, unit) comp) make_files"
  "simulates R (set_file fn i :: ('b session, go_error, unit) comp) (set_file fn i)"
proof -
  show "simulates R (make_files :: ('b session, go_error, unit) comp) make_files"
    unfolding make_files_self by (rule sim_modify_self)
  have "simulates R (modify (\<lambda>s :: 'b session. s\<lparr>self := u\<rparr>)) (modify (\<lambda>s. s\<lparr>self := u\<rparr>))" for u
    by (rule sim_modify_self)
  then show "simulates R (set_file fn i :: ('b session, go_error, unit) comp) (set_file fn i)"
    unfolding set_file_def by (auto intro!: sim_intros split: option.split)
qed

section \<open>The interface\<close>

text \<open>What the instrumented memory says of a backend's state.\<close>

definition holds :: "promises \<Rightarrow> ('b \<Rightarrow> bool) \<Rightarrow> ('b \<Rightarrow> UUID \<rightharpoonup> bytes) \<Rightarrow> ('b \<Rightarrow> string \<rightharpoonup> iface)
    \<Rightarrow> 'b \<Rightarrow> checked \<Rightarrow> bool" where
  "holds P good stored published b c \<longleftrightarrow> good b
     \<and> (\<forall>k. ok_id P k \<longrightarrow> stored b k = mem_store c k)
     \<and> (\<forall>n. ok_name P n \<longrightarrow> published b n = mem_keys c n)"

text \<open>
  A backend that can be read: looking up an identifier or a name answers what is stored under it
  and changes nothing that can be looked up.
\<close>

locale readable_backend =
  fixes S :: "'b services" and P :: promises
    and good :: "'b \<Rightarrow> bool" and stored :: "'b \<Rightarrow> UUID \<rightharpoonup> bytes" and published :: "'b \<Rightarrow> string \<rightharpoonup> iface"
  assumes Get_law: "good b \<Longrightarrow> ok_id P k \<Longrightarrow> \<exists>b'. st_Get (svc_storage S) k b = (Ok (stored b k), b')
      \<and> good b' \<and> (\<forall>k'. ok_id P k' \<longrightarrow> stored b' k' = stored b k')
      \<and> (\<forall>n. ok_name P n \<longrightarrow> published b' n = published b n)"
    and key_Get_law: "good b \<Longrightarrow> ok_name P n \<Longrightarrow> \<exists>b'. ks_Get (svc_keyStore S) n b = (Ok (published b n), b')
      \<and> good b' \<and> (\<forall>k'. ok_id P k' \<longrightarrow> stored b' k' = stored b k')
      \<and> (\<forall>n'. ok_name P n' \<longrightarrow> published b' n' = published b n')"
begin

lemma sim_Get [sim_intros]:
  "simulates (holds P good stored published) (storage_Get S k) (storage_Get (checked_services P) k)"
proof (rule simulatesI)
  fix w m
  assume w: "mirrors (holds P good stored published) w m"
    and fin: "in_bounds (snd (storage_Get (checked_services P) k m))"
  have k: "ok_id P k" using fin by (simp add: on_backend_def checked_services_def)
  have "good (backend w)" using w by (simp add: mirrors_def holds_def)
  from Get_law [OF this k] obtain b' where "st_Get (svc_storage S) k (backend w) = (Ok (stored (backend w) k), b')"
    "good b'" "\<forall>k'. ok_id P k' \<longrightarrow> stored b' k' = stored (backend w) k'"
    "\<forall>n. ok_name P n \<longrightarrow> published b' n = published (backend w) n" by blast
  then show "fst (storage_Get S k w) = fst (storage_Get (checked_services P) k m)
      \<and> mirrors (holds P good stored published) (snd (storage_Get S k w)) (snd (storage_Get (checked_services P) k m))"
    using w k by (auto simp: mirrors_def holds_def on_backend_def checked_services_def)
qed (simp add: on_backend_def checked_services_def)

lemma sim_key_Get [sim_intros]:
  "simulates (holds P good stored published) (keyStore_Get S n) (keyStore_Get (checked_services P) n)"
proof (rule simulatesI)
  fix w m
  assume w: "mirrors (holds P good stored published) w m"
    and fin: "in_bounds (snd (keyStore_Get (checked_services P) n m))"
  have n: "ok_name P n" using fin by (simp add: on_backend_def checked_services_def)
  have "good (backend w)" using w by (simp add: mirrors_def holds_def)
  from key_Get_law [OF this n] obtain b' where "ks_Get (svc_keyStore S) n (backend w) = (Ok (published (backend w) n), b')"
    "good b'" "\<forall>k'. ok_id P k' \<longrightarrow> stored b' k' = stored (backend w) k'"
    "\<forall>n. ok_name P n \<longrightarrow> published b' n = published (backend w) n" by blast
  then show "fst (keyStore_Get S n w) = fst (keyStore_Get (checked_services P) n m)
      \<and> mirrors (holds P good stored published) (snd (keyStore_Get S n w)) (snd (keyStore_Get (checked_services P) n m))"
    using w n by (auto simp: mirrors_def holds_def on_backend_def checked_services_def)
qed (simp add: on_backend_def checked_services_def)

text \<open>The reading operations of the services, on any readable backend.\<close>

lemma sim_fetch [sim_intros]:
  "simulates (holds P good stored published) (fetch X S i missing keys wd wu dec)
     (fetch X (checked_services P) i missing keys wd wu dec)"
  unfolding fetch_def by (auto intro!: sim_intros split: option.split)

lemma sim_load_blocks [sim_intros]:
  "simulates (holds P good stored published) (load_blocks X S fn ek mk us data)
     (load_blocks X (checked_services P) fn ek mk us data)"
  by (induction us arbitrary: data) (auto intro!: sim_intros split: option.split)

lemma sim_GetUser: "simulates (holds P good stored published) (GetUser X S n p) (GetUser X (checked_services P) n p)"
  unfolding GetUser_def Let_def by (auto intro!: sim_intros split: option.split)

lemma sim_LoadFile: "simulates (holds P good stored published) (LoadFile X S fn) (LoadFile X (checked_services P) fn)"
  unfolding LoadFile_def by (auto intro!: sim_intros)

lemma sim_ListFiles: "simulates (holds P good stored published) (ListFiles X) (ListFiles X)"
  unfolding ListFiles_def by (auto intro!: sim_intros split: option.split)

end

text \<open>
  A backend that can be written: storing an entry and publishing a key are in effect for every
  later lookup and change no other. \<open>DatastoreSet\<close>, which the services never reach, is not constrained.
\<close>

locale storage_backend = readable_backend +
  assumes Set_law: "good b \<Longrightarrow> ok_entry P k v \<Longrightarrow> \<exists>b'. st_Set (svc_storage S) k v b = (Ok (), b')
      \<and> good b' \<and> (\<forall>k'. ok_id P k' \<longrightarrow> stored b' k' = ((stored b)(k \<mapsto> v)) k')
      \<and> (\<forall>n. ok_name P n \<longrightarrow> published b' n = published b n)"
    and key_Set_law: "good b \<Longrightarrow> ok_key P n pk \<Longrightarrow> \<exists>b'. ks_Set (svc_keyStore S) n pk b = (Ok (), b')
      \<and> good b' \<and> (\<forall>k'. ok_id P k' \<longrightarrow> stored b' k' = stored b k')
      \<and> (\<forall>n'. ok_name P n' \<longrightarrow> published b' n' = ((published b)(n \<mapsto> pk)) n')"
    and Delete_law: "good b \<Longrightarrow> ok_id P k \<Longrightarrow> \<exists>b'. st_Delete (svc_storage S) k b = (Ok (), b')
      \<and> good b' \<and> (\<forall>k'. ok_id P k' \<longrightarrow> stored b' k' = ((stored b)(k := None)) k')
      \<and> (\<forall>n. ok_name P n \<longrightarrow> published b' n = published b n)"
begin

lemma sim_Set [sim_intros]:
  "simulates (holds P good stored published) (storage_Set S k v) (storage_Set (checked_services P) k v)"
proof (rule simulatesI)
  fix w m
  assume w: "mirrors (holds P good stored published) w m"
    and fin: "in_bounds (snd (storage_Set (checked_services P) k v m))"
  have k: "ok_entry P k v" using fin by (simp add: on_backend_def checked_services_def)
  have "good (backend w)" using w by (simp add: mirrors_def holds_def)
  from Set_law [OF this k] obtain b' where "st_Set (svc_storage S) k v (backend w) = (Ok (), b')"
    "good b'" "\<forall>k'. ok_id P k' \<longrightarrow> stored b' k' = ((stored (backend w))(k \<mapsto> v)) k'"
    "\<forall>n. ok_name P n \<longrightarrow> published b' n = published (backend w) n" by blast
  then show "fst (storage_Set S k v w) = fst (storage_Set (checked_services P) k v m)
      \<and> mirrors (holds P good stored published) (snd (storage_Set S k v w)) (snd (storage_Set (checked_services P) k v m))"
    using w k by (auto simp: mirrors_def holds_def on_backend_def checked_services_def)
qed (simp add: on_backend_def checked_services_def)

lemma sim_key_Set [sim_intros]:
  "simulates (holds P good stored published) (keyStore_Set S n v) (keyStore_Set (checked_services P) n v)"
proof (rule simulatesI)
  fix w m
  assume w: "mirrors (holds P good stored published) w m"
    and fin: "in_bounds (snd (keyStore_Set (checked_services P) n v m))"
  have n: "ok_key P n v" using fin by (simp add: on_backend_def checked_services_def)
  have "good (backend w)" using w by (simp add: mirrors_def holds_def)
  from key_Set_law [OF this n] obtain b' where "ks_Set (svc_keyStore S) n v (backend w) = (Ok (), b')"
    "good b'" "\<forall>k'. ok_id P k' \<longrightarrow> stored b' k' = stored (backend w) k'"
    "\<forall>n'. ok_name P n' \<longrightarrow> published b' n' = ((published (backend w))(n \<mapsto> v)) n'" by blast
  then show "fst (keyStore_Set S n v w) = fst (keyStore_Set (checked_services P) n v m)
      \<and> mirrors (holds P good stored published) (snd (keyStore_Set S n v w)) (snd (keyStore_Set (checked_services P) n v m))"
    using w n by (auto simp: mirrors_def holds_def on_backend_def checked_services_def)
qed (simp add: on_backend_def checked_services_def)

lemma sim_saveUser [sim_intros]:
  "simulates (holds P good stored published) (saveUser X (Some (svc_storage S)) D u)
     (saveUser X (Some (svc_storage (checked_services P))) D' u)"
  unfolding saveUser_def option.case by (auto intro!: sim_intros)

lemma sim_save_self [sim_intros]:
  "simulates (holds P good stored published) (save_self X S) (save_self X (checked_services P))"
  unfolding save_self_def by (auto intro!: sim_intros)

lemma sim_store_blocks [sim_intros]:
  "simulates (holds P good stored published) (store_blocks X S wrap ek mk fbs acc)
     (store_blocks X (checked_services P) wrap ek mk fbs acc)"
  by (induction fbs arbitrary: acc) (auto intro!: sim_intros)

lemma sim_reencrypt_blocks [sim_intros]:
  "simulates (holds P good stored published) (reencrypt_blocks X S fn old new us)
     (reencrypt_blocks X (checked_services P) fn old new us)"
  by (induction us) (auto intro!: sim_intros split: option.split)

lemma sim_update_child [sim_intros]:
  "simulates (holds P good stored published) (update_child X S r k child)
     (update_child X (checked_services P) r k child)"
  unfolding update_child_def Let_def by (auto intro!: sim_intros split: option.split prod.split)

text \<open>The writing operations of the services, on any storage backend.\<close>

lemma sim_InitUser: "simulates (holds P good stored published) (InitUser X S n p) (InitUser X (checked_services P) n p)"
  unfolding InitUser_def Let_def by (auto intro!: sim_intros split: prod.split)

lemma sim_StoreFile: "simulates (holds P good stored published) (StoreFile X S fn c) (StoreFile X (checked_services P) fn c)"
  unfolding StoreFile_def Let_def by (auto intro!: sim_intros split: prod.split)

lemma sim_AppendToFile: "simulates (holds P good stored published) (AppendToFile X S fn c) (AppendToFile X (checked_services P) fn c)"
  unfolding AppendToFile_def Let_def by (auto intro!: sim_intros split: option.split prod.split)

lemma sim_CreateInvitation: "simulates (holds P good stored published) (CreateInvitation X S fn r)
    (CreateInvitation X (checked_services P) fn r)"
  unfolding CreateInvitation_def Let_def by (auto intro!: sim_intros split: option.split prod.split)

lemma sim_AcceptInvitation: "simulates (holds P good stored published) (AcceptInvitation X S sender ptr fn)
    (AcceptInvitation X (checked_services P) sender ptr fn)"
  unfolding AcceptInvitation_def Let_def by (auto intro!: sim_intros split: option.split prod.split)

lemma sim_RevokeAccess: "simulates (holds P good stored published) (RevokeAccess X S fn r)
    (RevokeAccess X (checked_services P) fn r)"
  unfolding RevokeAccess_def Let_def by (auto intro!: sim_intros split: prod.split)

end

end
