(* ===== verification/Backend_Types.thy ===== *)
theory Backend_Types
  imports Backend Sample_External
begin

text \<open>
  What the services ask of a storage: every identifier they look up or write is a UUID of 16
  bytes, and every value they publish is a public key. \<open>asks m Q\<close> is the triple of a small Hoare
  logic over the instrumented memory: \<open>m\<close> keeps within the promises and its result satisfies \<open>Q\<close>.
\<close>

definition reads_ok :: "promises \<Rightarrow> bool" where
  "reads_ok P \<longleftrightarrow> (\<forall>k. length k = 16 \<longrightarrow> ok_id P k)"

definition writes_ok :: "promises \<Rightarrow> bool" where
  "writes_ok P \<longleftrightarrow> (\<forall>k v. length k = 16 \<longrightarrow> ok_entry P k v) \<and> (\<forall>n. ok_name P n) \<and> (\<forall>n pk. ok_key P n (AsPublicKey pk))"

text \<open>The promises that are exactly the types: identifiers of 16 bytes and public keys.\<close>

definition typed_promises :: promises where
  "typed_promises = \<lparr>ok_id = (\<lambda>k. length k = 16), ok_entry = (\<lambda>k v. length k = 16), ok_name = (\<lambda>n. True),
     ok_key = (\<lambda>n v. \<exists>pk. v = AsPublicKey pk)\<rparr>"

lemma typed_promises_ok: "reads_ok typed_promises" "writes_ok typed_promises"
  by (simp_all add: reads_ok_def writes_ok_def typed_promises_def)

definition asks :: "((checked, 'z) world_scheme, 'e, 'a) comp \<Rightarrow> ('a \<Rightarrow> bool) \<Rightarrow> bool" where
  "asks f Q \<longleftrightarrow> (\<forall>m. in_bounds m \<longrightarrow> in_bounds (snd (f m)) \<and> (\<forall>x. fst (f m) = Ok x \<longrightarrow> Q x))"

lemma asksI: "(\<And>m. in_bounds m \<Longrightarrow> in_bounds (snd (f m)) \<and> (\<forall>x. fst (f m) = Ok x \<longrightarrow> Q x)) \<Longrightarrow> asks f Q"
  by (simp add: asks_def)

named_theorems asks_intros "what the building blocks of the services ask of the storage"

lemma asks_bnd [asks_intros]:
  fixes f :: "((checked, 'z) world_scheme, 'e, 'a) comp"
  assumes f: "asks f (\<lambda>x. asks (h x) R)"
  shows "asks (bnd f h) R"
proof (rule asksI)
  fix m :: "(checked, 'z) world_scheme"
  assume m: "in_bounds m"
  obtain r m1 where f1: "f m = (r, m1)" by (cases "f m")
  have m1: "in_bounds m1" "\<And>x. r = Ok x \<Longrightarrow> asks (h x) R" using f m f1 by (auto simp: asks_def)
  show "in_bounds (snd (bnd f h m)) \<and> (\<forall>x. fst (bnd f h m) = Ok x \<longrightarrow> R x)"
    using m1 f1 by (cases r) (auto simp: bnd_def asks_def)
qed

lemma asks_weaken: "asks f Q \<Longrightarrow> (\<And>x. Q x \<Longrightarrow> R x) \<Longrightarrow> asks f R"
  by (auto simp: asks_def)

lemma asks_basic [asks_intros]:
  "Q x \<Longrightarrow> asks (ret x) Q" "asks (raise e) Q" "asks (go_panic p) Q"
  "(\<And>x. r = Ok x \<Longrightarrow> Q x) \<Longrightarrow> asks (lift_outcome r) Q"
  by (auto simp: asks_def comp_defs)

lemma asks_map_err [asks_intros]: "asks f Q \<Longrightarrow> asks (map_err wrap f) Q"
  unfolding asks_def snd_wrapped by (auto simp: map_err_def split: prod.splits outcome.splits)

lemma asks_attempt [asks_intros]: "asks f (\<lambda>x. Q (Some x)) \<Longrightarrow> Q None \<Longrightarrow> asks (attempt f) Q"
  unfolding asks_def snd_wrapped by (auto simp: attempt_def split: prod.splits outcome.splits)

lemma asks_for_each [asks_intros]:
  "(\<And>x. x \<in> set xs \<Longrightarrow> asks (f x) (\<lambda>_. True)) \<Longrightarrow> Q () \<Longrightarrow> asks (for_each f xs) Q"
proof (induction xs)
  case (Cons x xs)
  have "asks (for_each f xs) Q" by (rule Cons.IH) (use Cons.prems in auto)
  then have "asks (f x) (\<lambda>_. asks (for_each f xs) Q)" using Cons.prems by (intro asks_weaken [OF Cons.prems(1)]) auto
  then show ?case by (simp add: asks_bnd)
qed (simp add: asks_basic)

lemma asks_storage [asks_intros]:
  "reads_ok P \<Longrightarrow> length k = 16 \<Longrightarrow> (\<And>v. Q v) \<Longrightarrow> asks (storage_Get (checked_services P) k) Q"
  "writes_ok P \<Longrightarrow> length k = 16 \<Longrightarrow> R () \<Longrightarrow> asks (storage_Set (checked_services P) k v) R"
  "writes_ok P \<Longrightarrow> (\<And>v. Q' v) \<Longrightarrow> asks (keyStore_Get (checked_services P) n) Q'"
  "writes_ok P \<Longrightarrow> R () \<Longrightarrow> asks (keyStore_Set (checked_services P) n (AsPublicKey pk)) R"
  by (auto simp: asks_def on_backend_def checked_services_def reads_ok_def writes_ok_def)

lemma asks_self [asks_intros]:
  "(\<And>u. Q u) \<Longrightarrow> asks (gets self) Q"
  "R () \<Longrightarrow> asks (make_files :: (checked session, go_error, unit) comp) R"
  "R () \<Longrightarrow> asks (set_file fn i :: (checked session, go_error, unit) comp) R"
  by (auto simp: asks_def comp_defs make_files_def set_file_def split: option.split)

lemma asks_entropy [asks_intros]:
  "(\<And>b. Q b) \<Longrightarrow> asks (randomBytes X n) Q"
  "uuid_typed X \<Longrightarrow> (\<And>u. length u = 16 \<Longrightarrow> Q u) \<Longrightarrow> asks (uuid_New X) Q"
  "(\<And>k. Qk k) \<Longrightarrow> asks (pkeKeyGen X) Qk" "(\<And>k. Qd k) \<Longrightarrow> asks (dsKeyGen X) Qd"
  "(\<And>b. Q b) \<Longrightarrow> asks (pkeEnc X pk b) Q" "(\<And>b. Q b) \<Longrightarrow> asks (encryptAndMAC X p ek mk) Q"
  by (auto simp: asks_def randomBytes_def uuid_New_def pkeKeyGen_def dsKeyGen_def pkeEnc_def
      encryptAndMAC_def bnd_def tick_def comp_defs uuid_typed_def
      split: option.splits prod.splits outcome.splits)

lemma asks_range_keys:
  "order_ok X \<Longrightarrow> (\<And>ks. set ks = set (gm_keys mp) \<Longrightarrow> Q ks) \<Longrightarrow> asks (range_keys X mp) Q"
  by (auto simp: asks_def range_keys_def bnd_def tick_def comp_defs order_ok_def)

section \<open>Decoded identifiers\<close>

lemma dec_members_inv:
  assumes "\<And>k v r r'. P r \<Longrightarrow> f k v r = Some r' \<Longrightarrow> P r'"
  shows "P r \<Longrightarrow> dec_members f m r = Some r' \<Longrightarrow> P r'"
proof (induction m arbitrary: r)
  case (Cons kv m)
  then obtain r1 where "f (fst kv) (snd kv) r = Some r1" "dec_members f m r1 = Some r'"
    by (cases kv) (auto split: option.splits)
  then show ?case using Cons.IH assms Cons.prems(1) by blast
qed simp

lemma dec_struct_inv:
  assumes dec: "dec_struct f j r = Some r'" and P: "P r" and f: "\<And>k v r r'. P r \<Longrightarrow> f k v r = Some r' \<Longrightarrow> P r'"
  shows "P r'"
proof (cases j)
  case (JObj m)
  then have "dec_members f m r = Some r'" using dec by (simp add: dec_struct_def)
  from f P this show ?thesis by (rule dec_members_inv [where P = P and f = f])
qed (use dec P in \<open>simp_all add: dec_struct_def\<close>)

lemma dec_all_inv:
  "dec_all f xs = Some ys \<Longrightarrow> (\<And>j y. f j = Some y \<Longrightarrow> Q y) \<Longrightarrow> \<forall>y \<in> set ys. Q y"
  by (induction xs arbitrary: ys) (auto split: option.splits)

lemma dec_uuid_typed: "uuid_typed X \<Longrightarrow> length old = 16 \<Longrightarrow> dec_uuid X j old = Some u \<Longrightarrow> length u = 16"
  by (auto simp: dec_uuid_def uuid_typed_def split: json.splits)

lemma set_gm_set_subset: "set (gm_set k v m) \<subseteq> insert (k, v) (set m)"
  by (induction k v m rule: gm_set.induct) auto

lemma dec_map_typed:
  assumes "dec_map f j old = Some (Some m)" "\<And>j y. f j = Some y \<Longrightarrow> Q y"
    "\<And>o'. old = Some o' \<Longrightarrow> \<forall>(k, v) \<in> set o'. Q v"
  shows "\<forall>(k, v) \<in> set m. Q v"
proof -
  obtain ms where ms: "dec_members (\<lambda>k v acc. map_option (\<lambda>y. gm_set k y acc) (f v)) ms
      (case old of None \<Rightarrow> [] | Some o' \<Rightarrow> o') = Some m"
    using assms(1) by (auto simp: dec_map_def split: json.splits)
  show ?thesis
  proof (rule dec_members_inv [OF _ _ ms])
    show "\<forall>(k, v) \<in> set (case old of None \<Rightarrow> [] | Some o' \<Rightarrow> o'). Q v"
      using assms(3) by (auto split: option.split)
  next
    fix k v r r'
    assume "\<forall>(k, v) \<in> set r. Q v" "map_option (\<lambda>y. gm_set k y r) (f v) = Some r'"
    then show "\<forall>(k, v) \<in> set r'. Q v"
      using assms(2) set_gm_set_subset by fastforce
  qed
qed

lemma dec_child_typed:
  assumes "uuid_typed X" "dec_child X j = Some c"
  shows "length (ch_MailboxUUID c) = 16"
  using assms(2) unfolding dec_child_def
  by (rule dec_struct_inv [where P = "\<lambda>c. length (ch_MailboxUUID c) = 16"])
    (auto split: if_splits dest: dec_uuid_typed [OF assms(1)])

lemma dec_mailbox_typed:
  assumes "uuid_typed X" "dec_mailbox X j = Some c"
  shows "length (mb_InodeUUID c) = 16"
  using assms(2) unfolding dec_mailbox_def
  by (rule dec_struct_inv [where P = "\<lambda>c. length (mb_InodeUUID c) = 16"])
    (auto split: if_splits dest: dec_uuid_typed [OF assms(1)])

lemma dec_inode_typed:
  assumes "uuid_typed X" "dec_inode X j = Some c"
  shows "\<forall>u \<in> set (in_BlockUUIDs c). length u = 16"
  using assms(2) unfolding dec_inode_def
proof (rule dec_struct_inv [where P = "\<lambda>c. \<forall>u \<in> set (in_BlockUUIDs c). length u = 16"])
  have "dec_list (dec_new_uuid X) v = Some us \<Longrightarrow> \<forall>u \<in> set us. length u = 16" for v us
    using dec_all_inv [of "dec_new_uuid X" _ us "\<lambda>u. length u = 16"] dec_uuid_typed [OF assms(1), of nil_uuid]
    by (auto simp: dec_list_def split: json.splits)
  then show "\<forall>u \<in> set (in_BlockUUIDs r'). length u = 16"
    if "\<forall>u \<in> set (in_BlockUUIDs r). length u = 16"
      "(if field_is ''Size'' k then map_option (\<lambda>i. r\<lparr>in_Size := i\<rparr>) (dec_int64 v (in_Size r))
        else if field_is ''BlockUUIDs'' k then map_option (\<lambda>us. r\<lparr>in_BlockUUIDs := us\<rparr>) (dec_list (dec_new_uuid X) v)
        else Some r) = Some r'" for k v r r'
    using that by (auto split: if_splits)
qed simp

definition access_typed :: "Access \<Rightarrow> bool" where
  "access_typed a \<longleftrightarrow> length (ac_MymailboxUUID a) = 16
     \<and> (\<forall>m. ac_Children a = Some m \<longrightarrow> (\<forall>(n, c) \<in> set m. length (ch_MailboxUUID c) = 16))"

lemma dec_access_typed:
  assumes "uuid_typed X" "dec_access X j = Some a"
  shows "access_typed a"
  using assms(2) unfolding dec_access_def
proof (rule dec_struct_inv [where P = access_typed])
  show "access_typed r'"
    if "access_typed r"
      "(if field_is ''MymailboxUUID'' k then map_option (\<lambda>u. r\<lparr>ac_MymailboxUUID := u\<rparr>) (dec_uuid X v (ac_MymailboxUUID r))
        else if field_is ''MymailboxKey'' k then map_option (\<lambda>b. r\<lparr>ac_MymailboxKey := b\<rparr>) (dec_bytes v)
        else if field_is ''Children'' k then map_option (\<lambda>m. r\<lparr>ac_Children := m\<rparr>) (dec_map (dec_child X) v (ac_Children r))
        else Some r) = Some r'" for k v r r'
    using that dec_map_typed [of "dec_child X" v "ac_Children r" _ "\<lambda>c. length (ch_MailboxUUID c) = 16"]
      dec_child_typed [OF assms(1)]
    by (auto simp: access_typed_def split: if_splits dest: dec_uuid_typed [OF assms(1)]) 
qed (simp add: access_typed_def)

lemma dec_access_mailbox: "uuid_typed X \<Longrightarrow> dec_access X j = Some a \<Longrightarrow> length (ac_MymailboxUUID a) = 16"
  by (blast dest: dec_access_typed [unfolded access_typed_def])

lemma dec_invitation_typed:
  assumes "uuid_typed X" "dec_invitation X j = Some c"
  shows "length (inv_MailboxUUID c) = 16"
  using assms(2) unfolding dec_invitation_def
  by (rule dec_struct_inv [where P = "\<lambda>c. length (inv_MailboxUUID c) = 16"])
    (auto split: if_splits dest: dec_uuid_typed [OF assms(1)])

lemma unmarshal_dec: "unmarshal dec b = Ok x \<Longrightarrow> \<exists>j. dec j = Some x"
  by (auto simp: unmarshal_def split: option.splits)

lemma hashed_UUID_typed: "uuid_typed X \<Longrightarrow> hashed_UUID X s = Ok u \<Longrightarrow> length u = 16"
  by (auto simp: hashed_UUID_def obind_eq_Ok uuid_FromBytes_def uuid_typed_def split: option.splits)

section \<open>The services\<close>

lemma asks_fetch [asks_intros]:
  "reads_ok P \<Longrightarrow> length i = 16 \<Longrightarrow> (\<And>v ks j. dec j = Some v \<Longrightarrow> Q (v, ks)) \<Longrightarrow>
   asks (fetch X (checked_services P) i missing keys wd wu dec) Q"
  unfolding fetch_def
  by (auto intro!: asks_intros split: option.split) (metis unmarshal_dec)

lemma asks_load_blocks [asks_intros]:
  "reads_ok P \<Longrightarrow> \<forall>u \<in> set us. length u = 16 \<Longrightarrow> (\<And>b. Q b) \<Longrightarrow> asks (load_blocks X (checked_services P) fn ek mk us data) Q"
  by (induction us arbitrary: data) (auto intro!: asks_intros split: option.split)

lemma asks_store_blocks [asks_intros]:
  "writes_ok P \<Longrightarrow> uuid_typed X \<Longrightarrow> (\<And>us. Q us) \<Longrightarrow> asks (store_blocks X (checked_services P) wrap ek mk fbs acc) Q"
  by (induction fbs arbitrary: acc) (auto intro!: asks_intros)

lemma asks_reencrypt_blocks [asks_intros]:
  "reads_ok P \<Longrightarrow> writes_ok P \<Longrightarrow> \<forall>u \<in> set us. length u = 16 \<Longrightarrow> Q () \<Longrightarrow> asks (reencrypt_blocks X (checked_services P) fn old new us) Q"
  by (induction us) (auto intro!: asks_intros split: option.split)

lemma asks_update_child [asks_intros]:
  "reads_ok P \<Longrightarrow> writes_ok P \<Longrightarrow> length (ch_MailboxUUID c) = 16 \<Longrightarrow> asks (update_child X (checked_services P) r k (n, c)) (\<lambda>_. True)"
  unfolding update_child_def Let_def by (auto intro!: asks_intros split: option.split prod.split)

lemma asks_children_entries:
  assumes "order_ok X" "\<And>ch. \<forall>(n, c) \<in> set ch. length (ch_MailboxUUID c) = 16 \<Longrightarrow> Q ch"
    "\<forall>m. children = Some m \<longrightarrow> (\<forall>(n, c) \<in> set m. length (ch_MailboxUUID c) = 16)"
  shows "asks (children_entries X children) Q"
proof -
  have "length (ch_MailboxUUID (the (map_of m k))) = 16" if ch: "children = Some m" and mem: "k \<in> set (gm_keys m)" for m k
  proof -
    obtain c where "map_of m k = Some c"
      using mem map_of_eq_None_iff [of m k] by (cases "map_of m k") (auto simp: gm_keys_def)
    then show ?thesis using assms(3) ch map_of_SomeD by fastforce
  qed
  then show ?thesis
    unfolding children_entries_def
    by (auto intro!: asks_intros asks_range_keys [OF assms(1)] assms(2) split: option.split)
qed

lemma dec_access_child: "uuid_typed X \<Longrightarrow> dec_access X j = Some a \<Longrightarrow> ac_Children a = Some m
    \<Longrightarrow> (n, c) \<in> set m \<Longrightarrow> length (ch_MailboxUUID c) = 16"
  using dec_access_typed by (fastforce simp: access_typed_def)

lemmas typed_ids = hashed_UUID_typed dec_access_mailbox dec_mailbox_typed dec_inode_typed [rule_format]
  dec_access_child

lemma asks_save_self [asks_intros]:
  "writes_ok P \<Longrightarrow> uuid_typed X \<Longrightarrow> Q () \<Longrightarrow> asks (save_self X (checked_services P)) Q"
  unfolding save_self_def saveUser_def option.case
  by (auto intro!: asks_intros)
    (rule typed_ids; assumption)+

lemma asks_invitation_helpers [asks_intros]:
  "(\<And>k. Q k) \<Longrightarrow> asks (assert_key v) Q" "(\<And>a. R a) \<Longrightarrow> asks (set_child n i a) R"
  unfolding assert_key_def set_child_def by (auto intro!: asks_intros split: iface.split option.split)

lemma asks_InitUser: "reads_ok P \<Longrightarrow> writes_ok P \<Longrightarrow> uuid_typed X \<Longrightarrow> asks (InitUser X (checked_services P) n p) (\<lambda>_. True)"
  unfolding InitUser_def Let_def
  by (auto intro!: asks_intros)
    (rule typed_ids; assumption)+

lemma asks_GetUser: "reads_ok P \<Longrightarrow> uuid_typed X \<Longrightarrow> asks (GetUser X (checked_services P) n p) (\<lambda>_. True)"
  unfolding GetUser_def Let_def
  by (auto intro!: asks_intros split: option.split)
    (rule typed_ids; assumption)+

lemma asks_LoadFile: "reads_ok P \<Longrightarrow> uuid_typed X \<Longrightarrow> asks (LoadFile X (checked_services P) fn) (\<lambda>_. True)"
  unfolding LoadFile_def
  by (auto intro!: asks_intros)
    (rule typed_ids; assumption)+

lemma asks_StoreFile: "writes_ok P \<Longrightarrow> uuid_typed X \<Longrightarrow> asks (StoreFile X (checked_services P) fn c) (\<lambda>_. True)"
  unfolding StoreFile_def Let_def
  by (auto intro!: asks_intros split: prod.split)
    (rule typed_ids; assumption)+

lemma asks_AppendToFile: "reads_ok P \<Longrightarrow> writes_ok P \<Longrightarrow> uuid_typed X \<Longrightarrow> asks (AppendToFile X (checked_services P) fn c) (\<lambda>_. True)"
  unfolding AppendToFile_def Let_def
  by (auto intro!: asks_intros split: option.split)
    (rule typed_ids; assumption)+

lemma asks_CreateInvitation: "reads_ok P \<Longrightarrow> writes_ok P \<Longrightarrow> uuid_typed X \<Longrightarrow> asks (CreateInvitation X (checked_services P) fn r) (\<lambda>_. True)"
  unfolding CreateInvitation_def Let_def
  by (auto intro!: asks_intros split: option.split prod.split)
    (rule typed_ids; assumption)+

lemma asks_AcceptInvitation: "reads_ok P \<Longrightarrow> writes_ok P \<Longrightarrow> uuid_typed X \<Longrightarrow> length ptr = 16 \<Longrightarrow> asks (AcceptInvitation X (checked_services P) sender ptr fn) (\<lambda>_. True)"
  unfolding AcceptInvitation_def Let_def
  by (auto intro!: asks_intros split: option.split)
    (rule typed_ids; assumption)+

lemma asks_RevokeAccess: "reads_ok P \<Longrightarrow> writes_ok P \<Longrightarrow> uuid_typed X \<Longrightarrow> order_ok X \<Longrightarrow> asks (RevokeAccess X (checked_services P) fn r) (\<lambda>_. True)"
  unfolding RevokeAccess_def Let_def
  by (auto intro!: asks_intros asks_children_entries split: prod.split)
    ((rule typed_ids; assumption) | force)+

end
