(* ===== verification/App_Backend.thy ===== *)
theory App_Backend
  imports App Backend_Types
begin

text \<open>
  The client object over any storage backend: a sequence of calls has the same answers as on the
  instrumented memory. Also the erasure of the instrumentation: \<open>memory_services\<close> is a storage
  backend that makes every promise.
\<close>

section \<open>Calls are simulated\<close>

definition in_session :: "('b, 'z) world_scheme \<Rightarrow> User \<Rightarrow> 'b session" where
  "in_session c u = \<lparr>draws = draws c, backend = backend c, self = u\<rparr>"

lemma mirrors_in_session: "mirrors R c m \<Longrightarrow> mirrors R (in_session c u) (in_session m u)"
  by (simp add: mirrors_def in_session_def)

lemma mirrors_client: "mirrors R (c :: 'b client) m \<Longrightarrow> user c = user m \<and> has_services c = has_services m"
  by (cases c; cases m) (simp add: mirrors_def)

lemma with_user_Some: "user c = Some u \<Longrightarrow> with_user f c =
  (fst (f (in_session c u)), c\<lparr>draws := draws (snd (f (in_session c u))),
     backend := backend (snd (f (in_session c u))), user := Some (self (snd (f (in_session c u))))\<rparr>)"
  by (simp add: with_user_def in_session_def case_prod_beta)

lemma with_user_None: "user c = None \<Longrightarrow> with_user f c = (Panic ''nil pointer dereference'', c)"
  by (simp add: with_user_def)

lemma sim_with_user [sim_intros]:
  fixes f :: "('b session, go_error, 'a) comp"
  assumes "simulates R f g"
  shows "simulates R (with_user f :: ('b client, go_error, 'a) comp) (with_user g)"
proof (rule simulatesI)
  fix m :: "checked client"
  assume fin: "in_bounds (snd (with_user g m))"
  show "in_bounds m"
  proof (cases "user m")
    case None
    then show ?thesis using fin by (simp add: with_user_None)
  next
    case (Some u)
    then have "in_bounds (snd (g (in_session m u)))" using fin by (simp add: with_user_Some)
    then have "in_bounds (in_session m u)" using assms by (auto simp: simulates_def)
    then show ?thesis by (simp add: in_session_def)
  qed
next
  fix c :: "'b client" and m :: "checked client"
  assume c: "mirrors R c m" and fin: "in_bounds (snd (with_user g m))"
  show "fst (with_user f c) = fst (with_user g m) \<and> mirrors R (snd (with_user f c)) (snd (with_user g m))"
  proof (cases "user m")
    case None
    then show ?thesis using c mirrors_client [OF c] by (simp add: with_user_None)
  next
    case (Some u)
    have "in_bounds (snd (g (in_session m u)))" using fin Some by (simp add: with_user_Some)
    note s = simulatesD [OF assms mirrors_in_session [OF c] this]
    have "user c = Some u" using Some mirrors_client [OF c] by simp
    then show ?thesis
      using s mirrors_self [OF s(2)] Some c
      by (cases c; cases m) (simp add: with_user_Some mirrors_def)
  qed
qed

lemma sim_client_state [sim_intros]:
  "simulates R (ensureServices :: ('b client, go_error, unit) comp) ensureServices"
  "simulates R (set_user u :: ('b client, go_error, unit) comp) (set_user u)"
  "simulates R (gets user :: ('b client, go_error, User option) comp) (gets user)"
  "simulates R (gets has_services :: ('b client, go_error, bool) comp) (gets has_services)"
proof -
  have "simulates R (modify (\<lambda>c :: 'b client. c\<lparr>has_services := True\<rparr>)) (modify (\<lambda>c. c\<lparr>has_services := True\<rparr>))"
  proof (rule simulatesI)
    fix c :: "'b client" and m :: "checked client"
    assume "mirrors R c m"
    then show "fst (modify (\<lambda>c. c\<lparr>has_services := True\<rparr>) c) = fst (modify (\<lambda>c. c\<lparr>has_services := True\<rparr>) m)
        \<and> mirrors R (snd (modify (\<lambda>c. c\<lparr>has_services := True\<rparr>) c)) (snd (modify (\<lambda>c. c\<lparr>has_services := True\<rparr>) m))"
      by (cases c; cases m) (simp add: modify_def mirrors_def)
  qed (simp add: modify_def)
  then show "simulates R (ensureServices :: ('b client, go_error, unit) comp) ensureServices"
    by (simp add: ensureServices_def)
  have "simulates R (modify (\<lambda>c :: 'b client. c\<lparr>user := Some u\<rparr>)) (modify (\<lambda>c. c\<lparr>user := Some u\<rparr>))"
  proof (rule simulatesI)
    fix c :: "'b client" and m :: "checked client"
    assume "mirrors R c m"
    then show "fst (modify (\<lambda>c. c\<lparr>user := Some u\<rparr>) c) = fst (modify (\<lambda>c. c\<lparr>user := Some u\<rparr>) m)
        \<and> mirrors R (snd (modify (\<lambda>c. c\<lparr>user := Some u\<rparr>) c)) (snd (modify (\<lambda>c. c\<lparr>user := Some u\<rparr>) m))"
      by (cases c; cases m) (simp add: modify_def mirrors_def)
  qed (simp add: modify_def)
  then show "simulates R (set_user u :: ('b client, go_error, unit) comp) (set_user u)"
    by (simp add: set_user_def)
  show "simulates R (gets user :: ('b client, go_error, User option) comp) (gets user)"
    "simulates R (gets has_services :: ('b client, go_error, bool) comp) (gets has_services)"
    by (rule simulatesI; auto simp: gets_def dest: mirrors_client)+
qed

context storage_backend
begin

lemma sim_run_call: "simulates (holds P good stored published) (run_call X S k) (run_call X (checked_services P) k)"
  by (cases k)
    (auto intro!: sim_intros sim_InitUser sim_GetUser sim_StoreFile sim_LoadFile sim_AppendToFile sim_CreateInvitation
      sim_AcceptInvitation sim_RevokeAccess sim_ListFiles
      simp: app_InitUser_def app_GetUser_def app_StoreFile_def app_LoadFile_def app_AppendToFile_def
        app_CreateInvitation_def app_AcceptInvitation_def app_RevokeAccess_def app_ListFiles_def
        accept_without_user_def Let_def split: option.split)

text \<open>A whole session of a client, call by call.\<close>

lemma run_calls_keeps: "in_bounds (snd (run_calls X (checked_services P) ks m)) \<Longrightarrow> in_bounds m"
proof (induction ks arbitrary: m)
  case (Cons k ks)
  obtain r m1 where k: "run_call X (checked_services P) k m = (r, m1)"
    by (cases "run_call X (checked_services P) k m")
  have "in_bounds m1" using Cons by (cases r) (auto simp: k split: prod.splits)
  then show ?case using sim_run_call [of X k] k by (auto simp: simulates_def)
qed simp

lemma sim_run_calls:
  assumes "mirrors (holds P good stored published) c m" "in_bounds (snd (run_calls X (checked_services P) ks m))"
  shows "fst (run_calls X S ks c) = fst (run_calls X (checked_services P) ks m)
    \<and> mirrors (holds P good stored published) (snd (run_calls X S ks c)) (snd (run_calls X (checked_services P) ks m))"
  using assms
proof (induction ks arbitrary: c m)
  case (Cons k ks)
  obtain r m1 where k: "run_call X (checked_services P) k m = (r, m1)"
    by (cases "run_call X (checked_services P) k m")
  have in_bounds: "in_bounds m1"
    using Cons.prems(2) run_calls_keeps by (cases r) (auto simp: k split: prod.splits, metis snd_conv, metis snd_conv)
  then obtain c1 where c1: "run_call X S k c = (r, c1)" "mirrors (holds P good stored published) c1 m1"
    using simulatesD [OF sim_run_call Cons.prems(1), of X k] k by (cases "run_call X S k c") auto
  show ?case
  proof (cases r)
    case (Panic p)
    then show ?thesis using k c1 by simp
  next
    case (Ok x)
    then show ?thesis using Cons.IH [OF c1(2)] Cons.prems(2) k c1 by (auto simp: case_prod_beta)
  next
    case (Err e)
    then show ?thesis using Cons.IH [OF c1(2)] Cons.prems(2) k c1 by (auto simp: case_prod_beta)
  qed
qed simp

end

section \<open>The in-memory backend\<close>

interpretation memory_backend: storage_backend memory_services P "\<lambda>_. True" mem_store mem_keys for P
  by unfold_locales (auto simp: memory_services_def MemoryStorage_Get_def MemoryStorage_Set_def MemoryStorage_Delete_def
    MemoryKeyStore_Get_def MemoryKeyStore_Set_def)

end
