(* ===== verification/Userlib_Correct.thy ===== *)
theory Userlib_Correct
  imports Userlib_Store Server_Correct App_Backend
begin

text \<open>
  The userlib stores as backends: within one process, and over the network with the server of
  this repository at the other end.
\<close>

section \<open>In the process\<close>

definition local_good :: "'db userlib \<Rightarrow> bool" where
  "local_good u \<longleftrightarrow> \<not> isConnected u"

definition local_stored :: "'db userlib \<Rightarrow> UUID \<rightharpoonup> bytes" where
  "local_stored u = (case datastore u (spec_line u) of None \<Rightarrow> Map.empty | Some m \<Rightarrow> m)"

definition local_shard :: "'db userlib \<Rightarrow> string \<rightharpoonup> PublicKeyType" where
  "local_shard u = (case keystore u (spec_line u) of None \<Rightarrow> Map.empty | Some m \<Rightarrow> m)"

definition local_published :: "'db userlib \<Rightarrow> string \<rightharpoonup> iface" where
  "local_published u n = map_option AsPublicKey ((local_shard u ++ local_keys u) n)"

definition local_promises :: promises where
  "local_promises = \<lparr>ok_id = (\<lambda>_. True), ok_entry = (\<lambda>_ _. True), ok_name = (\<lambda>_. True),
     ok_key = (\<lambda>n v. \<exists>pk. v = AsPublicKey pk)\<rparr>"

lemmas shard_defs = getDatastoreShard_def getKeystoreShard_def getDatastoreBandwidthShard_def
  set_datastore_shard_def set_keystore_shard_def set_bandwidth_def

lemma local_Get:
  assumes "\<not> isConnected u"
  shows "\<exists>u'. datastoreGet N k u = (Ok (local_stored u k), u') \<and> \<not> isConnected u'
    \<and> local_stored u' = local_stored u \<and> local_published u' = local_published u"
  using assms
  by (auto simp: datastoreGet_def shard_defs bnd_def comp_defs local_stored_def local_published_def local_shard_def
      isConnected_def fun_eq_iff split: option.splits)

lemma local_Set:
  assumes "\<not> isConnected u"
  shows "\<exists>u'. datastoreSet N k v u = (Ok (), u') \<and> \<not> isConnected u'
    \<and> local_stored u' = (local_stored u)(k \<mapsto> v) \<and> local_published u' = local_published u"
  using assms
  by (auto simp: datastoreSet_def shard_defs bnd_def comp_defs local_stored_def local_published_def local_shard_def
      isConnected_def fun_eq_iff split: option.splits)

lemma local_Delete:
  assumes "\<not> isConnected u"
  shows "\<exists>u'. datastoreDelete N k u = (Ok (), u') \<and> \<not> isConnected u'
    \<and> local_stored u' = (local_stored u)(k := None) \<and> local_published u' = local_published u"
  using assms
  by (auto simp: datastoreDelete_def shard_defs bnd_def comp_defs local_stored_def local_published_def local_shard_def
      isConnected_def fun_eq_iff split: option.splits)

lemma local_key_Get:
  assumes "\<not> isConnected u"
  shows "\<exists>u'. UserlibKeyStore_Get N n u = (Ok (local_published u n), u') \<and> \<not> isConnected u'
    \<and> local_stored u' = local_stored u \<and> local_published u' = local_published u"
  using assms
  by (auto simp: UserlibKeyStore_Get_def keystoreGet_def shard_defs bnd_def comp_defs local_stored_def local_published_def
      local_shard_def isConnected_def fun_eq_iff map_add_def split: option.splits)

lemma local_key_Set:
  assumes "\<not> isConnected u"
  shows "\<exists>u'. UserlibKeyStore_Set N n (AsPublicKey pk) u = (Ok (), u') \<and> \<not> isConnected u'
    \<and> local_stored u' = local_stored u \<and> local_published u' = (local_published u)(n \<mapsto> AsPublicKey pk)"
  using assms
  by (auto simp: UserlibKeyStore_Set_def keystoreSet_def shard_defs bnd_def comp_defs local_stored_def local_published_def
      local_shard_def isConnected_def fun_eq_iff map_add_def split: option.splits)

interpretation local_backend: storage_backend "userlib_services N" local_promises local_good local_stored local_published
  for N :: "('db, 'i) network"
proof unfold_locales
  fix u :: "'db userlib" and k v n pk
  assume good: "local_good u"
  show "\<exists>u'. st_Get (svc_storage (userlib_services N)) k u = (Ok (local_stored u k), u') \<and> local_good u'
      \<and> (\<forall>k'. ok_id local_promises k' \<longrightarrow> local_stored u' k' = local_stored u k')
      \<and> (\<forall>n. ok_name local_promises n \<longrightarrow> local_published u' n = local_published u n)"
    using local_Get [of u N k] good by (auto simp: userlib_services_def local_good_def UserlibStorage_Get_def)
  show "\<exists>u'. ks_Get (svc_keyStore (userlib_services N)) n u = (Ok (local_published u n), u') \<and> local_good u'
      \<and> (\<forall>k'. ok_id local_promises k' \<longrightarrow> local_stored u' k' = local_stored u k')
      \<and> (\<forall>n'. ok_name local_promises n' \<longrightarrow> local_published u' n' = local_published u n')"
    using local_key_Get [of u N n] good by (auto simp: userlib_services_def local_good_def)
  show "\<exists>u'. st_Set (svc_storage (userlib_services N)) k v u = (Ok (), u') \<and> local_good u'
      \<and> (\<forall>k'. ok_id local_promises k' \<longrightarrow> local_stored u' k' = ((local_stored u)(k \<mapsto> v)) k')
      \<and> (\<forall>n. ok_name local_promises n \<longrightarrow> local_published u' n = local_published u n)"
    using local_Set [of u N k v] good by (auto simp: userlib_services_def local_good_def UserlibStorage_Set_def)
  show "\<exists>u'. st_Delete (svc_storage (userlib_services N)) k u = (Ok (), u') \<and> local_good u'
      \<and> (\<forall>k'. ok_id local_promises k' \<longrightarrow> local_stored u' k' = ((local_stored u)(k := None)) k')
      \<and> (\<forall>n. ok_name local_promises n \<longrightarrow> local_published u' n = local_published u n)"
    using local_Delete [of u N k] good by (auto simp: userlib_services_def local_good_def UserlibStorage_Delete_def)
  assume "ok_key local_promises n pk"
  then obtain p where "pk = AsPublicKey p" by (auto simp: local_promises_def)
  then show "\<exists>u'. ks_Set (svc_keyStore (userlib_services N)) n pk u = (Ok (), u') \<and> local_good u'
      \<and> (\<forall>k'. ok_id local_promises k' \<longrightarrow> local_stored u' k' = local_stored u k')
      \<and> (\<forall>n'. ok_name local_promises n' \<longrightarrow> local_published u' n' = ((local_published u)(n \<mapsto> pk)) n')"
    using local_key_Set [of u N n p] good by (auto simp: userlib_services_def local_good_def)
qed

section \<open>Over the network\<close>

lemma exchange_eq:
  assumes "badger_calm (served_by N)" "request op key val = enc_req r" "req_ok r"
  shows "exchange N op key val reader u =
    (fst (reader \<lparr>inp = enc_reply (fst (run_req (served_by N) r (remote_db u))), outp = []\<rparr>),
     u\<lparr>remote_db := snd (run_req (served_by N) r (remote_db u))\<rparr>)"
proof -
  have split: "split_reqs (enc_req r) = [r]" using split_reqs_enc [of "[r]"] assms(3) by simp
  obtain e where "handleConn (served_by N) \<lparr>inp = enc_req r, outp = [], db = remote_db u\<rparr> = (Err e,
      \<lparr>inp = [], outp = enc_reply (fst (run_req (served_by N) r (remote_db u))), db = snd (run_req (served_by N) r (remote_db u))\<rparr>)"
    using handleConn_run [OF assms(1), of "\<lparr>inp = enc_req r, outp = [], db = remote_db u\<rparr>"] split
    by (auto simp: Let_def case_prod_beta)
  then show ?thesis by (simp add: exchange_def writeOp_eq assms(2) Let_def)
qed

lemma requests:
  "request opGet k [] = enc_req (ReqGet k)" "request opSet k v = enc_req (ReqSet k v)"
  "request opDelete k [] = enc_req (ReqDelete k)"
  by (simp_all add: op_ends)

lemma readStatus_reply: "\<exists>c. readStatus \<lparr>inp = enc_reply p, outp = []\<rparr> = (Ok (hd (enc_reply p)), c)"
  by (cases p) (auto simp: readStatus_ok)

lemma status_ends: "statusOK = StatusOK" "statusNotFound = StatusNotFound" "StatusOK \<noteq> StatusNotFound" "StatusError \<noteq> StatusNotFound"
  by (simp_all add: statusOK_def StatusOK_def statusNotFound_def StatusNotFound_def StatusError_def)

text \<open>A value and an error message look the same to the client.\<close>

lemma readValue_reply:
  "length v < 2 ^ 32 \<Longrightarrow> fst (readValue \<lparr>inp = enc_reply (Value v), outp = []\<rparr>) = Ok (Some v)"
  "fst (readValue \<lparr>inp = enc_reply Missing, outp = []\<rparr>) = Ok None"
  "length m < 2 ^ 32 \<Longrightarrow> fst (readValue \<lparr>inp = enc_reply (Failed m), outp = []\<rparr>) = Ok (Some (bytes_of_string m))"
  using readValue_value [of "\<lparr>inp = enc_reply (Value v), outp = []\<rparr>" StatusOK v]
    readValue_value [of "\<lparr>inp = enc_reply (Failed m), outp = []\<rparr>" StatusError "bytes_of_string m"]
  by (auto simp: status_ends readValue_NotFound)

lemma remote_dial:
  "dial_error N (dials u) (useTLS u) (remoteAddr u) = None \<Longrightarrow> dial N u = (Ok (), u\<lparr>dials := Suc (dials u)\<rparr>)"
  by (simp add: dial_def)

lemma remote_Set:
  assumes "badger_calm (served_by N)" "isConnected u" "dial_error N (dials u) (useTLS u) (remoteAddr u) = None"
    "length k < 2 ^ 32" "length v < 2 ^ 32"
  shows "datastoreSet N k v u = (Ok (), u\<lparr>dials := Suc (dials u),
     remote_db := snd (run_req (served_by N) (ReqSet k v) (remote_db u))\<rparr>)"
proof -
  obtain c where "readStatus \<lparr>inp = enc_reply (fst (run_req (served_by N) (ReqSet k v) (remote_db u))), outp = []\<rparr>
      = (Ok (hd (enc_reply (fst (run_req (served_by N) (ReqSet k v) (remote_db u))))), c)"
    using readStatus_reply by blast
  then show ?thesis
    using assms by (simp add: datastoreSet_def monad_simps or_panic_def remote_dial
        exchange_eq [OF assms(1) requests(2)] del: run_req.simps enc_reply.simps)
qed

lemma remote_Delete:
  assumes "badger_calm (served_by N)" "isConnected u" "dial_error N (dials u) (useTLS u) (remoteAddr u) = None"
    "length k < 2 ^ 32"
  shows "datastoreDelete N k u = (Ok (), u\<lparr>dials := Suc (dials u),
     remote_db := snd (run_req (served_by N) (ReqDelete k) (remote_db u))\<rparr>)"
proof -
  obtain c where "readStatus \<lparr>inp = enc_reply (fst (run_req (served_by N) (ReqDelete k) (remote_db u))), outp = []\<rparr>
      = (Ok (hd (enc_reply (fst (run_req (served_by N) (ReqDelete k) (remote_db u))))), c)"
    using readStatus_reply by blast
  then show ?thesis
    using assms by (simp add: datastoreDelete_def monad_simps or_panic_def remote_dial
        exchange_eq [OF assms(1) requests(3)] del: run_req.simps enc_reply.simps)
qed

lemma remote_Get:
  assumes "badger_calm (served_by N)" "isConnected u" "dial_error N (dials u) (useTLS u) (remoteAddr u) = None"
    "length k < 2 ^ 32"
  shows "datastoreGet N k u =
    (fst (readValue \<lparr>inp = enc_reply (fst (run_req (served_by N) (ReqGet k) (remote_db u))), outp = []\<rparr>),
     u\<lparr>dials := Suc (dials u)\<rparr>)"
  using assms by (simp add: datastoreGet_def monad_simps or_panic_def remote_dial
        exchange_eq [OF assms(1) requests(1)] del: enc_reply.simps) 

lemma remote_key_Get:
  assumes "badger_calm (served_by N)" "isConnected u" "dial_error N (dials u) (useTLS u) (remoteAddr u) = None"
    "length n < 2 ^ 32" "local_keys u n = None"
    "fst (readValue \<lparr>inp = enc_reply (fst (run_req (served_by N) (ReqGet (bytes_of_string n)) (remote_db u))), outp = []\<rparr>) = Ok d"
  shows "UserlibKeyStore_Get N n u = (Ok (map_option (\<lambda>b. AsPublicKey (unmarshal_public b)) d), u\<lparr>dials := Suc (dials u)\<rparr>)"
  using assms
  by (cases d) (simp_all add: UserlibKeyStore_Get_def keystoreGet_def monad_simps or_panic_def remote_dial
        exchange_eq [OF assms(1) requests(1)] del: enc_reply.simps)

lemma remote_keystoreSet:
  assumes "badger_calm (served_by N)" "isConnected u" "dial_error N (dials u) (useTLS u) (remoteAddr u) = None"
    "length n < 2 ^ 32" "length (json_print (enc_public pk)) < 2 ^ 32"
  shows "keystoreSet N n pk u =
    ((if hd (enc_reply (fst (run_req (served_by N) (ReqSet (bytes_of_string n) (bytes_of_string (json_print (enc_public pk)))) (remote_db u)))) = statusOK
      then Ok () else Err KeystoreSetFailed),
     u\<lparr>dials := Suc (dials u),
       remote_db := snd (run_req (served_by N) (ReqSet (bytes_of_string n) (bytes_of_string (json_print (enc_public pk)))) (remote_db u))\<rparr>)"
proof -
  let ?r = "ReqSet (bytes_of_string n) (bytes_of_string (json_print (enc_public pk)))"
  obtain c where "readStatus \<lparr>inp = enc_reply (fst (run_req (served_by N) ?r (remote_db u))), outp = []\<rparr>
      = (Ok (hd (enc_reply (fst (run_req (served_by N) ?r (remote_db u))))), c)"
    using readStatus_reply by blast
  then show ?thesis
    using assms by (simp add: keystoreSet_def monad_simps remote_dial marshal_def
        exchange_eq [OF assms(1) requests(2)] del: run_req.simps enc_reply.simps)
qed

lemma remote_key_Set:
  assumes "badger_calm (served_by N)" "isConnected u" "dial_error N (dials u) (useTLS u) (remoteAddr u) = None"
    "length n < 2 ^ 32" "length (json_print (enc_public pk)) < 2 ^ 32"
  shows "UserlibKeyStore_Set N n (AsPublicKey pk) u = (Ok (), u\<lparr>local_keys := (local_keys u)(n \<mapsto> pk),
     dials := Suc (dials u),
     remote_db := snd (run_req (served_by N) (ReqSet (bytes_of_string n) (bytes_of_string (json_print (enc_public pk)))) (remote_db u))\<rparr>)"
proof -
  let ?u = "u\<lparr>local_keys := (local_keys u)(n \<mapsto> pk)\<rparr>"
  have conn: "isConnected ?u" "dial_error N (dials ?u) (useTLS ?u) (remoteAddr ?u) = None"
    using assms by (simp_all add: isConnected_def)
  show ?thesis
    using remote_keystoreSet [OF assms(1) conn assms(4,5)]
    by (simp add: UserlibKeyStore_Set_def monad_simps bnd_def attempt_def del: run_req.simps enc_reply.simps)
qed

text \<open>What the network keeps its promises about, and in which states.\<close>

definition remote_promises :: "(bytes \<Rightarrow> bytes \<Rightarrow> bool) \<Rightarrow> promises" where
  "remote_promises fits =
     \<lparr>ok_id = (\<lambda>k. length k = 16 \<and> fits k []),
      ok_entry = (\<lambda>k v. length k = 16 \<and> length v < 2 ^ 32 \<and> fits k v),
      ok_name = (\<lambda>n. length n \<noteq> 16 \<and> length n < 2 ^ 32 \<and> fits (bytes_of_string n) []),
      ok_key = (\<lambda>n v. \<exists>pk. v = AsPublicKey pk \<and> length n \<noteq> 16 \<and> length n < 2 ^ 32
        \<and> length (json_print (enc_public pk)) < 2 ^ 32
        \<and> fits (bytes_of_string n) (bytes_of_string (json_print (enc_public pk))))\<rparr>"

definition remote_good :: "('db, 'i) network \<Rightarrow> ('db \<Rightarrow> bytes \<rightharpoonup> bytes) \<Rightarrow> 'db userlib \<Rightarrow> bool" where
  "remote_good N contents u \<longleftrightarrow> isConnected u
     \<and> (\<forall>i. dial_error N i (useTLS u) (remoteAddr u) = None)
     \<and> (\<forall>k v. contents (remote_db u) k = Some v \<longrightarrow> length v < 2 ^ 32)"

definition remote_published :: "('db \<Rightarrow> bytes \<rightharpoonup> bytes) \<Rightarrow> 'db userlib \<Rightarrow> string \<rightharpoonup> iface" where
  "remote_published contents u n = (case local_keys u n of
     Some pk \<Rightarrow> Some (AsPublicKey pk)
   | None \<Rightarrow> map_option (\<lambda>b. AsPublicKey (unmarshal_public b)) (contents (remote_db u) (bytes_of_string n)))"

lemma read_stored:
  assumes "badger_ok (served_by N) contents fits" "fits k []" "remote_good N contents u"
  shows "fst (readValue \<lparr>inp = enc_reply (fst (run_req (served_by N) (ReqGet k) (remote_db u))), outp = []\<rparr>)
    = Ok (contents (remote_db u) k)"
proof -
  have rep: "fst (run_req (served_by N) (ReqGet k) (remote_db u))
      = (case contents (remote_db u) k of None \<Rightarrow> Missing | Some v \<Rightarrow> Value v)"
    using run_req_spec [OF assms(1), of "ReqGet k"] assms(2) by simp
  show ?thesis
  proof (cases "contents (remote_db u) k")
    case None
    then show ?thesis using rep by (simp add: readValue_reply del: run_req.simps enc_reply.simps)
  next
    case (Some v)
    then have "length v < 2 ^ 32" using assms(3) by (auto simp: remote_good_def)
    then show ?thesis using rep Some by (simp add: readValue_reply del: run_req.simps enc_reply.simps)
  qed
qed

lemma remote_backend:
  assumes ok: "badger_ok (served_by N) contents fits" and calm: "badger_calm (served_by N)"
  shows "storage_backend (userlib_services N) (remote_promises fits) (remote_good N contents)
    (\<lambda>u. contents (remote_db u)) (remote_published contents)"
proof unfold_locales
  fix u k v n pk
  assume good: "remote_good N contents u"
  then have conn: "isConnected u" and dials: "dial_error N (dials u) (useTLS u) (remoteAddr u) = None"
    by (simp_all add: remote_good_def)
  let ?P = "remote_promises fits" and ?st = "\<lambda>u. contents (remote_db u)" and ?pu = "remote_published contents"
  let ?S = "userlib_services N"
  have redial: "remote_good N contents (u\<lparr>dials := Suc (dials u)\<rparr>)" "?pu (u\<lparr>dials := Suc (dials u)\<rparr>) = ?pu u"
    using good by (auto simp: remote_good_def isConnected_def remote_published_def fun_eq_iff split: option.split)
  {
    assume "ok_id ?P k"
    then have k: "length k = 16" "fits k []" by (simp_all add: remote_promises_def)
    then show "\<exists>u'. st_Get (svc_storage ?S) k u = (Ok (?st u k), u') \<and> remote_good N contents u'
        \<and> (\<forall>k'. ok_id ?P k' \<longrightarrow> ?st u' k' = ?st u k') \<and> (\<forall>n. ok_name ?P n \<longrightarrow> ?pu u' n = ?pu u n)"
      using remote_Get [OF calm conn dials, of k] read_stored [OF ok k(2) good] redial
      by (simp add: userlib_services_def UserlibStorage_Get_def del: run_req.simps enc_reply.simps)
  next
    assume "ok_name ?P n"
    then have n: "length n < 2 ^ 32" "fits (bytes_of_string n) []" by (simp_all add: remote_promises_def)
    show "\<exists>u'. ks_Get (svc_keyStore ?S) n u = (Ok (?pu u n), u') \<and> remote_good N contents u'
        \<and> (\<forall>k'. ok_id ?P k' \<longrightarrow> ?st u' k' = ?st u k') \<and> (\<forall>n'. ok_name ?P n' \<longrightarrow> ?pu u' n' = ?pu u n')"
    proof (cases "local_keys u n")
      case None
      have "?pu u n = map_option (\<lambda>b. AsPublicKey (unmarshal_public b)) (?st u (bytes_of_string n))"
        using None by (simp add: remote_published_def)
      then show ?thesis
        using remote_key_Get [OF calm conn dials n(1) None read_stored [OF ok n(2) good]] redial
        by (simp add: userlib_services_def)
    next
      case (Some pk)
      then show ?thesis using good
        by (simp add: userlib_services_def UserlibKeyStore_Get_def monad_simps remote_published_def)
    qed
  next
    assume "ok_entry ?P k v"
    then have k: "length k = 16" "length v < 2 ^ 32" "fits k v" by (simp_all add: remote_promises_def)
    have db: "contents (snd (run_req (served_by N) (ReqSet k v) (remote_db u))) = (?st u)(k \<mapsto> v)"
      using run_req_spec [OF ok, of "ReqSet k v"] k(3) by simp
    have "bytes_of_string n \<noteq> k" if "length n \<noteq> 16" for n using that k(1) by auto
    then show "\<exists>u'. st_Set (svc_storage ?S) k v u = (Ok (), u') \<and> remote_good N contents u'
        \<and> (\<forall>k'. ok_id ?P k' \<longrightarrow> ?st u' k' = ((?st u)(k \<mapsto> v)) k') \<and> (\<forall>n. ok_name ?P n \<longrightarrow> ?pu u' n = ?pu u n)"
      using remote_Set [OF calm conn dials, of k v] k db good
      by (auto simp: userlib_services_def UserlibStorage_Set_def remote_good_def isConnected_def remote_published_def
          remote_promises_def simp del: run_req.simps split: option.splits)
  next
    assume "ok_id ?P k"
    then have k: "length k = 16" "fits k []" by (simp_all add: remote_promises_def)
    have db: "contents (snd (run_req (served_by N) (ReqDelete k) (remote_db u))) = (?st u)(k := None)"
      using run_req_spec [OF ok, of "ReqDelete k"] k(2) by simp
    have "bytes_of_string n \<noteq> k" if "length n \<noteq> 16" for n using that k(1) by auto
    then show "\<exists>u'. st_Delete (svc_storage ?S) k u = (Ok (), u') \<and> remote_good N contents u'
        \<and> (\<forall>k'. ok_id ?P k' \<longrightarrow> ?st u' k' = ((?st u)(k := None)) k') \<and> (\<forall>n. ok_name ?P n \<longrightarrow> ?pu u' n = ?pu u n)"
      using remote_Delete [OF calm conn dials, of k] k db good
      by (auto simp: userlib_services_def UserlibStorage_Delete_def remote_good_def isConnected_def remote_published_def
          remote_promises_def simp del: run_req.simps split: option.splits)
  next
    assume "ok_key ?P n pk"
    then obtain p where n: "pk = AsPublicKey p" "length n \<noteq> 16" "length n < 2 ^ 32"
      "length (json_print (enc_public p)) < 2 ^ 32" "fits (bytes_of_string n) (bytes_of_string (json_print (enc_public p)))"
      by (auto simp: remote_promises_def)
    let ?r = "ReqSet (bytes_of_string n) (bytes_of_string (json_print (enc_public p)))"
    have db: "contents (snd (run_req (served_by N) ?r (remote_db u)))
        = (?st u)(bytes_of_string n \<mapsto> bytes_of_string (json_print (enc_public p)))"
      using run_req_spec [OF ok, of ?r] n(5) by simp
    have "k' \<noteq> bytes_of_string n" if "length k' = 16" for k' using that n(2) by auto
    then show "\<exists>u'. ks_Set (svc_keyStore ?S) n pk u = (Ok (), u') \<and> remote_good N contents u'
        \<and> (\<forall>k'. ok_id ?P k' \<longrightarrow> ?st u' k' = ?st u k') \<and> (\<forall>n'. ok_name ?P n' \<longrightarrow> ?pu u' n' = ((?pu u)(n \<mapsto> pk)) n')"
      using remote_key_Set [OF calm conn dials n(3,4)] n db good
      by (auto simp: userlib_services_def remote_good_def isConnected_def remote_published_def
          remote_promises_def simp del: run_req.simps split: option.splits)
  }
qed

end
