(* ===== verification/Server_Properties.thy ===== *)
theory Server_Properties
  imports Server_Correct
begin

text \<open>
  What the server promises: one connection is served like the reference and always closes, the
  database behaves as a map, and any interleaving of the goroutines that serve many connections
  is equivalent to one global order of the requests.
\<close>

section \<open>Many connections\<close>

text \<open>
  \<open>Run\<close> of \<open>server.go\<close> accepts connections and starts a goroutine per connection; the goroutines
  share the database only, and each request makes one transaction on it, so a request is one
  step of the interleaving. The \<open>i\<close>-th accepted connection is number \<open>i\<close>. Bytes arrive at any
  time; a connection closes when its next request fails to read.
\<close>

record 'db server =
  accepted :: nat
  conns :: "nat \<Rightarrow> conn"
  is_open :: "nat \<Rightarrow> bool"
  sdb :: 'db

datatype event = Accepted | Received nat bytes | Served nat | Closed nat

definition serving_of :: "'db server \<Rightarrow> nat \<Rightarrow> 'db serving" where
  "serving_of s i = \<lparr>inp = inp (conns s i), outp = outp (conns s i), db = sdb s\<rparr>"

definition after_serving :: "'db server \<Rightarrow> nat \<Rightarrow> 'db serving \<Rightarrow> 'db server" where
  "after_serving s i c = s\<lparr>conns := (conns s)(i := \<lparr>inp = inp c, outp = outp c\<rparr>), sdb := db c\<rparr>"

inductive server_step :: "('db, 'i) badger \<Rightarrow> 'db server \<Rightarrow> event \<Rightarrow> 'db server \<Rightarrow> bool" for B where
  step_accepted: "server_step B s Accepted
     (s\<lparr>accepted := Suc (accepted s), conns := (conns s)(accepted s := \<lparr>inp = [], outp = []\<rparr>),
        is_open := (is_open s)(accepted s := True)\<rparr>)"
| step_received: "is_open s i \<Longrightarrow> server_step B s (Received i b)
     (s\<lparr>conns := (conns s)(i := (conns s i)\<lparr>inp := inp (conns s i) @ b\<rparr>)\<rparr>)"
| step_served: "is_open s i \<Longrightarrow> Handle B (serving_of s i) = (Ok (), c) \<Longrightarrow>
     server_step B s (Served i) (after_serving s i c)"
| step_closed: "is_open s i \<Longrightarrow> Handle B (serving_of s i) = (Err e, c) \<Longrightarrow>
     server_step B s (Closed i) ((after_serving s i c)\<lparr>is_open := (is_open s)(i := False)\<rparr>)"

inductive_cases step_acceptedE: "server_step B s Accepted s'"
inductive_cases step_receivedE: "server_step B s (Received i b) s'"
inductive_cases step_servedE: "server_step B s (Served i) s'"
inductive_cases step_closedE: "server_step B s (Closed i) s'"

inductive server_run :: "('db, 'i) badger \<Rightarrow> 'db server \<Rightarrow> event list \<Rightarrow> 'db server \<Rightarrow> bool" for B s where
  run_start: "server_run B s [] s"
| run_step: "server_run B s evs s1 \<Longrightarrow> server_step B s1 e s2 \<Longrightarrow> server_run B s (evs @ [e]) s2"

definition server_start :: "'db \<Rightarrow> 'db server" where
  "server_start d = \<lparr>accepted = 0, conns = (\<lambda>_. \<lparr>inp = [], outp = []\<rparr>), is_open = (\<lambda>_. False), sdb = d\<rparr>"

text \<open>What a connection was sent, and its part of a history of requests and of their replies.\<close>

fun received :: "nat \<Rightarrow> event list \<Rightarrow> bytes" where
  "received i [] = []"
| "received i (Received j b # evs) = (if j = i then b else []) @ received i evs"
| "received i (_ # evs) = received i evs"

definition of_conn :: "nat \<Rightarrow> (nat \<times> 'a) list \<Rightarrow> 'a list" where
  "of_conn i h = map snd (filter (\<lambda>(j, _). j = i) h)"

definition answers :: "('db, 'i) badger \<Rightarrow> 'db \<Rightarrow> (nat \<times> req) list \<Rightarrow> (nat \<times> reply) list" where
  "answers B d h = zip (map fst h) (fst (run_reqs B (map snd h) d))"

text \<open>\<open>reads b rs rest\<close>: the bytes \<open>b\<close> are the requests \<open>rs\<close> followed by \<open>rest\<close>.\<close>

fun reads :: "bytes \<Rightarrow> req list \<Rightarrow> bytes \<Rightarrow> bool" where
  "reads b [] rest \<longleftrightarrow> b = rest"
| "reads b (r # rs) rest \<longleftrightarrow> (case next_req b of None \<Rightarrow> False | Some (r', b') \<Rightarrow> r' = r \<and> reads b' rs rest)"

lemma reads_append: "reads b rs rest \<Longrightarrow> reads (b @ c) rs (rest @ c)"
  by (induction b rs rest rule: reads.induct) (auto simp: next_req_append split: option.splits)

lemma reads_snoc: "reads b rs rest \<Longrightarrow> next_req rest = Some (r, rest') \<Longrightarrow> reads b (rs @ [r]) rest'"
  by (induction b rs rest rule: reads.induct) (auto split: option.splits)

lemma reads_split: "reads b rs rest \<Longrightarrow> split_reqs b = rs @ split_reqs rest"
  by (induction b rs rest rule: reads.induct)
    (auto simp: split_reqs_Some split: option.splits)

lemma received_append: "received i (evs @ evs') = received i evs @ received i evs'"
  by (induction i evs rule: received.induct) auto

lemma of_conn_simps [simp]:
  "of_conn i [] = []" "of_conn i (h @ h') = of_conn i h @ of_conn i h'"
  "of_conn i [(j, x)] = (if j = i then [x] else [])"
  by (auto simp: of_conn_def)

lemma of_conn_absent: "i \<notin> fst ` set h \<Longrightarrow> of_conn i h = []"
  by (force simp: of_conn_def filter_empty_conv)

lemma answers_snoc:
  "answers B d (h @ [(i, r)]) = answers B d h @ [(i, fst (run_req B r (snd (run_reqs B (map snd h) d))))]"
  by (simp add: answers_def run_reqs_append Let_def case_prod_beta)

lemma fst_answers: "fst ` set (answers B d h) = fst ` set h"
proof -
  have "map fst (answers B d h) = map fst h" by (simp add: answers_def)
  then show ?thesis by (metis list.set_map)
qed

text \<open>The invariant: a history explains the state.\<close>

definition explains :: "('db, 'i) badger \<Rightarrow> 'db \<Rightarrow> event list \<Rightarrow> 'db server \<Rightarrow> (nat \<times> req) list \<Rightarrow> bool" where
  "explains B d evs s h \<longleftrightarrow>
     sdb s = snd (run_reqs B (map snd h) d)
   \<and> (\<forall>i. outp (conns s i) = concat (map enc_reply (of_conn i (answers B d h))))
   \<and> (\<forall>i. is_open s i \<longrightarrow> reads (received i evs) (of_conn i h) (inp (conns s i)))"

definition numbered :: "event list \<Rightarrow> 'db server \<Rightarrow> (nat \<times> req) list \<Rightarrow> bool" where
  "numbered evs s h \<longleftrightarrow> (\<forall>j \<in> fst ` set h. j < accepted s)
     \<and> (\<forall>i \<ge> accepted s. \<not> is_open s i \<and> received i evs = [])"

lemma serving_of_sel [simp]: "inp (serving_of s i) = inp (conns s i)" "outp (serving_of s i) = outp (conns s i)"
  "db (serving_of s i) = sdb s"
  by (simp_all add: serving_of_def)

lemma after_serving_sel [simp]: "accepted (after_serving s i c) = accepted s" "is_open (after_serving s i c) = is_open s"
  "sdb (after_serving s i c) = db c"
  "conns (after_serving s i c) = (conns s)(i := \<lparr>inp = inp c, outp = outp c\<rparr>)"
  by (simp_all add: after_serving_def)

lemma explains_served:
  assumes calm: "badger_calm B" and ex: "explains B d evs s h" "numbered evs s h"
    and op: "is_open s i" and h: "Handle B (serving_of s i) = (Ok (), c)"
  shows "\<exists>r. explains B d (evs @ [Served i]) (after_serving s i c) (h @ [(i, r)])
    \<and> numbered (evs @ [Served i]) (after_serving s i c) (h @ [(i, r)])"
proof -
  obtain r b where r: "next_req (inp (serving_of s i)) = Some (r, b)"
  proof (cases "next_req (inp (serving_of s i))")
    case None
    then show ?thesis using Handle_incomplete [of "serving_of s i" B] h by auto
  next
    case (Some rb)
    then show ?thesis using that by (cases rb) auto
  qed
  have c: "c = (serving_of s i)\<lparr>inp := b, db := snd (run_req B r (sdb s)),
     outp := outp (conns s i) @ enc_reply (fst (run_req B r (sdb s)))\<rparr>"
    using Handle_request [OF calm r] h by simp
  have sdb: "sdb s = snd (run_reqs B (map snd h) d)" using ex(1) by (simp add: explains_def)
  have "i < accepted s"
    using op ex(2) by (auto simp: numbered_def not_less [symmetric])
  then have "numbered (evs @ [Served i]) (after_serving s i c) (h @ [(i, r)])"
    using ex(2) by (auto simp: numbered_def received_append)
  moreover have "explains B d (evs @ [Served i]) (after_serving s i c) (h @ [(i, r)])"
    using ex(1) op r reads_snoc
    by (auto simp: explains_def c sdb answers_snoc received_append run_reqs_append Let_def case_prod_beta)
  ultimately show ?thesis by blast
qed

lemma explains_step:
  assumes calm: "badger_calm B" and ex: "explains B d evs s h" "numbered evs s h"
    and st: "server_step B s e s'"
  shows "\<exists>h'. explains B d (evs @ [e]) s' h' \<and> numbered (evs @ [e]) s' h'"
proof (cases e)
  case Accepted
  have s': "s' = s\<lparr>accepted := Suc (accepted s), conns := (conns s)(accepted s := \<lparr>inp = [], outp = []\<rparr>),
        is_open := (is_open s)(accepted s := True)\<rparr>"
    using st unfolding Accepted by (rule step_acceptedE)
  have "accepted s \<notin> fst ` set h" using ex(2) by (auto simp: numbered_def)
  then have new: "of_conn (accepted s) h = []" "of_conn (accepted s) (answers B d h) = []"
    by (simp_all only: of_conn_absent fst_answers not_False_eq_True)
  have "received (accepted s) evs = []" using ex(2) by (simp add: numbered_def)
  then have "explains B d (evs @ [e]) s' h" "numbered (evs @ [e]) s' h"
    using ex new by (auto simp: explains_def numbered_def s' Accepted received_append)
  then show ?thesis by blast
next
  case (Received i b)
  have s': "is_open s i" "s' = s\<lparr>conns := (conns s)(i := (conns s i)\<lparr>inp := inp (conns s i) @ b\<rparr>)\<rparr>"
    using st unfolding Received by (auto elim: step_receivedE)
  have "explains B d (evs @ [e]) s' h" "numbered (evs @ [e]) s' h"
    using ex s'(1) reads_append
    by (auto simp: explains_def numbered_def s'(2) Received received_append)
  then show ?thesis by blast
next
  case (Served i)
  obtain c where "is_open s i" "Handle B (serving_of s i) = (Ok (), c)" "s' = after_serving s i c"
    using st unfolding Served by (auto elim: step_servedE)
  then show ?thesis using explains_served [OF calm ex] Served by blast
next
  case (Closed i)
  obtain c err where c: "is_open s i" "Handle B (serving_of s i) = (Err err, c)"
    "s' = (after_serving s i c)\<lparr>is_open := (is_open s)(i := False)\<rparr>"
    using st unfolding Closed by (auto elim: step_closedE)
  have "next_req (inp (serving_of s i)) = None"
    using Handle_request [OF calm, of "serving_of s i"] c(2)
    by (cases "next_req (inp (serving_of s i))") auto
  then obtain e' where "Handle B (serving_of s i) = (Err e', (serving_of s i)\<lparr>inp := []\<rparr>)"
    using Handle_incomplete by blast
  then have "c = (serving_of s i)\<lparr>inp := []\<rparr>" using c(2) by simp
  then have "explains B d (evs @ [e]) s' h" "numbered (evs @ [e]) s' h"
    using ex by (auto simp: explains_def numbered_def c(3) Closed received_append)
  then show ?thesis by blast
qed

lemma explained:
  assumes "badger_calm B" "server_run B (server_start d) evs s"
  shows "\<exists>h. explains B d evs s h \<and> numbered evs s h"
  using assms(2)
proof (induction rule: server_run.induct)
  case run_start
  have "explains B d [] (server_start d) []" "numbered [] (server_start d) []"
    by (simp_all add: explains_def numbered_def server_start_def answers_def)
  then show ?case by blast
next
  case (run_step evs s1 e s2)
  then show ?case using explains_step [OF assms(1)] by blast
qed

text \<open>A step in front of a run, and the run of one connection until its requests are answered.\<close>

lemma server_run_Cons:
  assumes "server_step B s e s1" "server_run B s1 evs s2"
  shows "server_run B s (e # evs) s2"
  using assms(2)
proof (induction rule: server_run.induct)
  case run_start
  show ?case using server_run.run_step [OF server_run.run_start assms(1)] by simp
next
  case (run_step evs s2 e' s3)
  then show ?case using server_run.run_step [of B s "e # evs" s2 e' s3] by simp
qed

lemma drain_connection:
  assumes calm: "badger_calm B" and "is_open s i"
  shows "\<exists>s'. server_run B s (replicate (length (split_reqs (inp (conns s i)))) (Served i)) s'
    \<and> outp (conns s' i) = outp (conns s i)
        @ concat (map enc_reply (fst (run_reqs B (split_reqs (inp (conns s i))) (sdb s))))
    \<and> next_req (inp (conns s' i)) = None
    \<and> (\<forall>j. j \<noteq> i \<longrightarrow> conns s' j = conns s j)"
  using assms(2)
proof (induction "length (inp (conns s i))" arbitrary: s rule: less_induct)
  case less
  show ?case
  proof (cases "next_req (inp (conns s i))")
    case None
    then show ?thesis using server_run.run_start [of B s] by (auto simp: split_reqs_None)
  next
    case (Some rb)
    then obtain r b where rb: "next_req (inp (serving_of s i)) = Some (r, b)" by (cases rb) auto
    let ?s = "after_serving s i ((serving_of s i)\<lparr>inp := b, db := snd (run_req B r (sdb s)),
       outp := outp (conns s i) @ enc_reply (fst (run_req B r (sdb s)))\<rparr>)"
    have step: "server_step B s (Served i) ?s"
      using step_served [OF less.prems] Handle_request [OF calm rb] by simp
    have "length (inp (conns ?s i)) < length (inp (conns s i))" using next_req_shorter [OF rb] by simp
    from less.hyps [OF this] less.prems obtain s' where s':
      "server_run B ?s (replicate (length (split_reqs b)) (Served i)) s'"
      "outp (conns s' i) = outp (conns ?s i) @ concat (map enc_reply (fst (run_reqs B (split_reqs b) (sdb ?s))))"
      "next_req (inp (conns s' i)) = None" "\<forall>j. j \<noteq> i \<longrightarrow> conns s' j = conns s j"
      by auto
    have "split_reqs (inp (conns s i)) = r # split_reqs b" using rb by (simp add: split_reqs_Some)
    then show ?thesis
      using server_run_Cons [OF step s'(1)] s'(2-) by (auto simp: Let_def case_prod_beta)
  qed
qed

section \<open>Badger as a map\<close>

text \<open>A database that satisfies what is documented of Badger, for the witnesses.\<close>

definition map_badger :: "(bytes \<rightharpoonup> bytes, bytes) badger" where
  "map_badger = \<lparr>bd_Get = (\<lambda>k m. case m k of None \<Rightarrow> Err ErrKeyNotFound | Some v \<Rightarrow> Ok v),
     bd_ValueCopy = Ok,
     bd_Set = (\<lambda>k v m. if k = [] then (Some (DbError ''Key cannot be empty''), m) else (None, m(k \<mapsto> v))),
     bd_SetEntry = (\<lambda>k v ttl m. if k = [] then (Some (DbError ''Key cannot be empty''), m) else (None, m(k \<mapsto> v))),
     bd_Delete = (\<lambda>k m. if k = [] then (Some (DbError ''Key cannot be empty''), m) else (None, m(k := None)))\<rparr>"

definition small_entry :: "bytes \<Rightarrow> bytes \<Rightarrow> bool" where
  "small_entry k v \<longleftrightarrow> k \<noteq> [] \<and> length k \<le> 65000 \<and> length v < 2 ^ 20"

lemma map_badger_ok: "badger_ok map_badger id small_entry"
  by (auto simp: badger_ok_def map_badger_def small_entry_def split: option.split if_splits)

lemma map_badger_calm: "badger_calm map_badger"
  by (auto simp: badger_calm_def map_badger_def split: option.split)

section \<open>Properties\<close>

text \<open>
  C12: a connection is served in order, and always closes. Whatever bytes a client sends,
  \<open>handleConn\<close> returns: it answers the complete requests the bytes start with, one after the
  other and each on the database its predecessors left, sends the replies in that order, and
  closes with an error at the first incomplete request, which changes nothing.
\<close>

theorem connection_served_in_order:
  assumes "badger_calm B"
  shows "\<exists>e c'. handleConn B c = (Err e, c') \<and> inp c' = []
    \<and> db c' = snd (run_reqs B (split_reqs (inp c)) (db c))
    \<and> outp c' = outp c @ concat (map enc_reply (fst (run_reqs B (split_reqs (inp c)) (db c))))"
  using handleConn_run [OF assms, of c] by auto

theorem connection_served_in_order_witness:
  "\<exists>e c'. handleConn map_badger \<lparr>inp = [1, 0, 0, 0, 1, 7, 3], outp = [], db = [[7] \<mapsto> [9]]\<rparr> = (Err e, c')
    \<and> outp c' = [0, 0, 0, 0, 1, 9]"
proof -
  have "split_reqs [1, 0, 0, 0, 1, 7, 3] = [ReqGet [7]]"
    by (simp add: split_reqs.simps [of "[1, 0, 0, 0, 1, 7, 3]"] split_reqs.simps [of "[3]"] next_chunk_def OpGet_def)
  then show ?thesis
    using connection_served_in_order [OF map_badger_calm, of "\<lparr>inp = [1, 0, 0, 0, 1, 7, 3], outp = [], db = [[7] \<mapsto> [9]]\<rparr>"]
    by (auto simp: Store_Get_def map_badger_def StatusOK_def PutUint32_def)
qed

text \<open>
  C13: the server is a map. Any sequence of requests the client writes, with keys and values that
  Badger accepts, is answered as a map from keys to values would answer it: a Get returns the
  last value set under that key, or "not found" if there is none or it was deleted, and the
  database afterwards holds that map.
\<close>

theorem server_implements_map:
  assumes "badger_ok B contents fits" "badger_calm B"
    and "\<forall>r \<in> set rs. req_ok r" "\<forall>r \<in> set rs. req_fits fits r"
  shows "\<exists>e c'. handleConn B \<lparr>inp = concat (map enc_req rs), outp = [], db = d\<rparr> = (Err e, c')
    \<and> outp c' = concat (map enc_reply (fst (spec_reqs rs (contents d))))
    \<and> contents (db c') = snd (spec_reqs rs (contents d))"
  using handleConn_run [OF assms(2), of "\<lparr>inp = concat (map enc_req rs), outp = [], db = d\<rparr>"]
    run_reqs_spec [OF assms(1,4), of d]
  by (auto simp: split_reqs_enc [OF assms(3)])

theorem server_implements_map_witness:
  "\<exists>e c'. handleConn map_badger
      \<lparr>inp = concat (map enc_req [ReqSet [1] [5], ReqGet [1], ReqDelete [1], ReqGet [1]]), outp = [], db = Map.empty\<rparr> = (Err e, c')
    \<and> outp c' = [0, 0, 0, 0, 0, 1, 5, 0, 1]"
  using server_implements_map [OF map_badger_ok map_badger_calm, of "[ReqSet [1] [5], ReqGet [1], ReqDelete [1], ReqGet [1]]" Map.empty]
  by (auto simp: small_entry_def StatusOK_def StatusNotFound_def PutUint32_def)

text \<open>
  C8: many connections are served as if one at a time. In every state the server can reach, by any
  interleaving of accepts, arriving bytes, handled requests and closing connections, there is
  one global order of all requests handled so far such that the database is what running them
  one after another leaves, each connection was sent the replies to its own requests in that
  order, and the requests of an open connection are the bytes it sent, up to those waiting.
\<close>

theorem server_linearizable:
  assumes "badger_calm B" "server_run B (server_start d) evs s"
  shows "\<exists>h. sdb s = snd (run_reqs B (map snd h) d)
    \<and> (\<forall>i. outp (conns s i) = concat (map enc_reply (of_conn i (answers B d h))))
    \<and> (\<forall>i. is_open s i \<longrightarrow> split_reqs (received i evs) = of_conn i h @ split_reqs (inp (conns s i)))"
  using explained [OF assms] reads_split unfolding explains_def by blast

text \<open>
  C14: no request waits for ever on the others. In any state, the goroutine of an open connection can
  answer every complete request that has arrived on it, in as many steps of its own as there
  are requests, whatever the other connections do; nothing of theirs changes.
\<close>

theorem pending_requests_answered:
  assumes "badger_calm B" "is_open s i"
  shows "\<exists>s'. server_run B s (replicate (length (split_reqs (inp (conns s i)))) (Served i)) s'
    \<and> outp (conns s' i) = outp (conns s i)
        @ concat (map enc_reply (fst (run_reqs B (split_reqs (inp (conns s i))) (sdb s))))
    \<and> next_req (inp (conns s' i)) = None
    \<and> (\<forall>j. j \<noteq> i \<longrightarrow> conns s' j = conns s j)"
  using assms by (rule drain_connection)

text \<open>A run with two connections, for the witnesses.\<close>

definition two_events :: "event list" where
  "two_events = [Accepted, Accepted, Received 0 [1, 0, 0, 0, 1, 7], Received 1 [3, 0, 0, 0, 1, 7]]"

lemma two_connections:
  obtains s where "server_run map_badger (server_start Map.empty) two_events s"
    "is_open s 0" "inp (conns s 0) = [1, 0, 0, 0, 1, 7]" "outp (conns s 0) = []" "sdb s = Map.empty"
proof -
  let ?s0 = "server_start (Map.empty :: bytes \<rightharpoonup> bytes)"
  let ?s1 = "?s0\<lparr>accepted := 1, conns := (conns ?s0)(0 := \<lparr>inp = [], outp = []\<rparr>), is_open := (is_open ?s0)(0 := True)\<rparr>"
  let ?s2 = "?s1\<lparr>accepted := 2, conns := (conns ?s1)(1 := \<lparr>inp = [], outp = []\<rparr>), is_open := (is_open ?s1)(1 := True)\<rparr>"
  let ?s3 = "?s2\<lparr>conns := (conns ?s2)(0 := (conns ?s2 0)\<lparr>inp := inp (conns ?s2 0) @ [1, 0, 0, 0, 1, 7]\<rparr>)\<rparr>"
  let ?s4 = "?s3\<lparr>conns := (conns ?s3)(1 := (conns ?s3 1)\<lparr>inp := inp (conns ?s3 1) @ [3, 0, 0, 0, 1, 7]\<rparr>)\<rparr>"
  have "server_step map_badger ?s0 Accepted ?s1" "server_step map_badger ?s1 Accepted ?s2"
    using step_accepted [of map_badger ?s0] step_accepted [of map_badger ?s1] by (simp_all add: server_start_def numeral_2_eq_2)
  moreover have "server_step map_badger ?s2 (Received 0 [1, 0, 0, 0, 1, 7]) ?s3"
    "server_step map_badger ?s3 (Received 1 [3, 0, 0, 0, 1, 7]) ?s4"
    by (rule step_received; simp)+
  ultimately have "server_run map_badger ?s0 two_events ?s4"
    unfolding two_events_def by (meson server_run_Cons server_run.run_start)
  then show ?thesis by (rule that) (simp_all add: server_start_def)
qed

lemma server_run_append:
  assumes "server_run B s evs s1" "server_run B s1 evs' s2"
  shows "server_run B s (evs @ evs') s2"
  using assms(2)
proof (induction rule: server_run.induct)
  case run_start
  show ?case using assms(1) by simp
next
  case (run_step evs' s2 e s3)
  then show ?case using server_run.run_step [of B s "evs @ evs'" s2 e s3] by simp
qed

lemma served_keeps_open:
  assumes "server_run B s evs s'" "\<forall>e \<in> set evs. \<exists>i. e = Served i"
  shows "is_open s' = is_open s"
  using assms
proof (induction rule: server_run.induct)
  case (run_step evs s1 e s2)
  then show ?case by (auto elim: step_servedE)
qed simp

theorem server_linearizable_witness:
  "\<exists>s h. server_run map_badger (server_start Map.empty) (two_events @ [Served 0]) s
    \<and> sdb s = snd (run_reqs map_badger (map snd h) Map.empty)
    \<and> outp (conns s 0) = [1] \<and> [1] = concat (map enc_reply (of_conn 0 (answers map_badger Map.empty h)))
    \<and> [ReqGet [7]] = of_conn 0 h @ split_reqs (inp (conns s 0))"
proof -
  obtain s0 where s0: "server_run map_badger (server_start Map.empty) two_events s0"
    "is_open s0 0" "inp (conns s0 0) = [1, 0, 0, 0, 1, 7]" "outp (conns s0 0) = []" "sdb s0 = Map.empty"
    by (rule two_connections)
  have split: "split_reqs [1, 0, 0, 0, 1, 7] = [ReqGet [7]]"
    by (simp add: split_reqs.simps [of "[1, 0, 0, 0, 1, 7]"] split_reqs_None next_chunk_def OpGet_def)
  then obtain s where s: "server_run map_badger s0 [Served 0] s" "outp (conns s 0) = [1]"
    using drain_connection [OF map_badger_calm s0(2)] s0
    by (auto simp: Store_Get_def map_badger_def StatusNotFound_def)
  have run: "server_run map_badger (server_start Map.empty) (two_events @ [Served 0]) s"
    by (rule server_run_append [OF s0(1) s(1)])
  have "is_open s 0" using served_keeps_open [OF s(1)] s0(2) by simp
  moreover have "received 0 (two_events @ [Served 0]) = [1, 0, 0, 0, 1, 7]" by (simp add: two_events_def)
  ultimately show ?thesis
    using server_linearizable [OF map_badger_calm run] run s(2) split by metis
qed

theorem pending_requests_answered_witness:
  "\<exists>s s'. server_run map_badger s [Served 0] s' \<and> outp (conns s' 0) = [1]"
proof -
  obtain s where "server_run map_badger (server_start Map.empty) two_events s"
    and s: "is_open s 0" "inp (conns s 0) = [1, 0, 0, 0, 1, 7]" "outp (conns s 0) = []" "sdb s = Map.empty"
    by (rule two_connections)
  have "split_reqs [1, 0, 0, 0, 1, 7] = [ReqGet [7]]"
    by (simp add: split_reqs.simps [of "[1, 0, 0, 0, 1, 7]"] split_reqs_None next_chunk_def OpGet_def)
  then show ?thesis
    using pending_requests_answered [where B = map_badger and s = s and i = 0, OF map_badger_calm s(1)] s
    by (auto simp: Store_Get_def map_badger_def StatusNotFound_def)
qed

text \<open>The loop of \<open>handleConn\<close> counted: at most \<open>n\<close> rounds, \<open>None\<close> when they were not enough.\<close>

fun handle_rounds :: "('db, 'i) badger \<Rightarrow> nat \<Rightarrow> 'db serving \<Rightarrow> ((go_error, unit) outcome \<times> 'db serving) option" where
  "handle_rounds B 0 c = None"
| "handle_rounds B (Suc n) c = (case Handle B c of (Ok (), c') \<Rightarrow> handle_rounds B n c' | r \<Rightarrow> Some r)"

lemma next_chunk_length: "next_chunk b = Some (x, b') \<Longrightarrow> length b' + 4 + length x = length b"
  by (auto simp: next_chunk_def Let_def split: if_splits)

lemma next_req_length: "next_req b = Some (r, b') \<Longrightarrow> length b' + 5 \<le> length b"
  by (induction b rule: next_req.induct)
    (auto split: option.splits prod.splits if_splits dest!: next_chunk_length)

lemma split_reqs_length: "5 * length (split_reqs b) \<le> length b"
proof (induction b rule: split_reqs.induct)
  case (1 b)
  show ?case
  proof (cases "next_req b")
    case (Some rb)
    obtain r b' where rb: "next_req b = Some (r, b')" using Some by (cases rb) auto
    from 1 [OF rb refl] next_req_length [OF rb] show ?thesis by (simp add: split_reqs_Some [OF rb])
  qed (simp add: split_reqs_None)
qed

text \<open>
  C15: every connection ends. \<open>handleConn\<close> loops without a bound of its own, but a round that does
  not fail consumes a whole request, of at least five bytes: after one round per complete request and one that
  fails the loop is left, with the result of \<open>handleConn\<close>, so a client that sends \<open>n\<close> bytes and
  closes costs at most \<open>n div 5 + 1\<close> rounds.
\<close>

theorem connection_ends:
  assumes "badger_calm B"
  shows "handle_rounds B (Suc (length (split_reqs (inp c)))) c = Some (handleConn B c)
    \<and> length (split_reqs (inp c)) \<le> length (inp c) div 5"
proof
  show "length (split_reqs (inp c)) \<le> length (inp c) div 5"
    using split_reqs_length [of "inp c"] by simp
  show "handle_rounds B (Suc (length (split_reqs (inp c)))) c = Some (handleConn B c)"
  proof (induction "length (inp c)" arbitrary: c rule: less_induct)
    case less
    show ?case
    proof (cases "next_req (inp c)")
      case None
      then obtain e where e: "Handle B c = (Err e, c\<lparr>inp := []\<rparr>)" using Handle_incomplete by blast
      then show ?thesis by (simp add: handleConn.simps [of B c])
    next
      case (Some rb)
      obtain r b where rb: "next_req (inp c) = Some (r, b)" using Some by (cases rb) auto
      let ?c = "c\<lparr>inp := b, db := snd (run_req B r (db c)), outp := outp c @ enc_reply (fst (run_req B r (db c)))\<rparr>"
      have step: "Handle B c = (Ok (), ?c)" by (rule Handle_request [OF assms rb])
      have h: "handleConn B c = handleConn B ?c"
        by (subst handleConn.simps) (simp add: step split: unit.split)
      have "length (inp ?c) < length (inp c)" using next_req_shorter [OF rb] by simp
      from less [OF this] have ih: "handle_rounds B (Suc (length (split_reqs b))) ?c = Some (handleConn B ?c)"
        by (simp del: handle_rounds.simps)
      have "handle_rounds B (Suc (Suc (length (split_reqs b)))) c = handle_rounds B (Suc (length (split_reqs b))) ?c"
        by (subst handle_rounds.simps(2)) (simp add: step split: unit.split del: handle_rounds.simps)
      then show ?thesis by (simp add: h ih split_reqs_Some [OF rb] del: handle_rounds.simps)
    qed
  qed
qed

theorem connection_ends_witness:
  "handle_rounds map_badger 2 \<lparr>inp = [1, 0, 0, 0, 1, 7, 3], outp = [], db = [[7] \<mapsto> [9]]\<rparr>
   = Some (handleConn map_badger \<lparr>inp = [1, 0, 0, 0, 1, 7, 3], outp = [], db = [[7] \<mapsto> [9]]\<rparr>)"
proof -
  have "split_reqs [1, 0, 0, 0, 1, 7, 3] = [ReqGet [7]]"
    by (simp add: split_reqs.simps [of "[1, 0, 0, 0, 1, 7, 3]"] split_reqs.simps [of "[3]"] next_chunk_def OpGet_def)
  then show ?thesis
    using connection_ends [OF map_badger_calm, of "\<lparr>inp = [1, 0, 0, 0, 1, 7, 3], outp = [], db = [[7] \<mapsto> [9]]\<rparr>"]
    by (simp add: numeral_2_eq_2)
qed

end
