(* ===== verification/Backend_Properties.thy ===== *)
theory Backend_Properties
  imports Userlib_Correct Server_Properties File_Properties
begin

text \<open>
  What the client sees of its stores: every session of calls has the same answers in the process,
  over the network, and on a map; what the services ask of a store; and where the network differs
  from what the services assume.
\<close>

section \<open>Sessions on the memory and on another backend\<close>

definition instrument :: "memory client \<Rightarrow> checked client" where
  "instrument w = \<lparr>draws = draws w,
     backend = \<lparr>mem_store = mem_store (backend w), mem_keys = mem_keys (backend w), fitted = True\<rparr>,
     user = user w, has_services = has_services w\<rparr>"

text \<open>A client and a client of the in-memory backend that look the same.\<close>

definition looks_like :: "promises \<Rightarrow> ('b \<Rightarrow> bool) \<Rightarrow> ('b \<Rightarrow> UUID \<rightharpoonup> bytes) \<Rightarrow> ('b \<Rightarrow> string \<rightharpoonup> iface)
    \<Rightarrow> 'b client \<Rightarrow> memory client \<Rightarrow> bool" where
  "looks_like P good stored published c w \<longleftrightarrow>
     draws c = draws w \<and> user c = user w \<and> has_services c = has_services w \<and> good (backend c)
   \<and> (\<forall>k. ok_id P k \<longrightarrow> stored (backend c) k = mem_store (backend w) k)
   \<and> (\<forall>n. ok_name P n \<longrightarrow> published (backend c) n = mem_keys (backend w) n)"

text \<open>The calls \<open>ks\<close> ask the storage only for what it promises.\<close>

definition within :: "ext \<Rightarrow> promises \<Rightarrow> call list \<Rightarrow> memory client \<Rightarrow> bool" where
  "within X P ks w \<longleftrightarrow> in_bounds (snd (run_calls X (checked_services P) ks (instrument w)))"

lemma looks_like_mirrors:
  "looks_like P good stored published c w \<longleftrightarrow> mirrors (holds P good stored published) c (instrument w)"
  by (cases c; cases w) (auto simp: looks_like_def mirrors_def holds_def instrument_def)

lemma memory_run:
  assumes "within X P ks w"
  shows "fst (run_calls X memory_services ks w) = fst (run_calls X (checked_services P) ks (instrument w))
    \<and> mirrors (holds P (\<lambda>_. True) mem_store mem_keys) (snd (run_calls X memory_services ks w))
        (snd (run_calls X (checked_services P) ks (instrument w)))"
proof -
  have "mirrors (holds P (\<lambda>_. True) mem_store mem_keys) w (instrument w)"
    by (cases w) (auto simp: mirrors_def holds_def instrument_def)
  then show ?thesis using assms memory_backend.sim_run_calls by (simp add: within_def)
qed

lemma backend_run:
  assumes "storage_backend S P good stored published" "looks_like P good stored published c w" "within X P ks w"
  shows "fst (run_calls X S ks c) = fst (run_calls X memory_services ks w)
    \<and> looks_like P good stored published (snd (run_calls X S ks c)) (snd (run_calls X memory_services ks w))"
proof -
  let ?m = "snd (run_calls X (checked_services P) ks (instrument w))"
  have s: "fst (run_calls X S ks c) = fst (run_calls X (checked_services P) ks (instrument w))"
    "mirrors (holds P good stored published) (snd (run_calls X S ks c)) ?m"
    using storage_backend.sim_run_calls [OF assms(1), of c "instrument w"] assms(2,3)
    by (auto simp: looks_like_mirrors within_def)
  have "looks_like P good stored published (snd (run_calls X S ks c)) (snd (run_calls X memory_services ks w))"
    using s(2) memory_run [OF assms(3)] mirrors_client [OF s(2)]
      mirrors_client [of _ "snd (run_calls X memory_services ks w)" ?m]
    by (auto simp: looks_like_def mirrors_def holds_def)
  then show ?thesis using s(1) memory_run [OF assms(3)] by simp
qed

section \<open>Which sessions stay within the promises\<close>

lemma asks_with_user [asks_intros]: "asks f Q \<Longrightarrow> asks (with_user f) Q"
proof (rule asksI)
  fix m :: "checked client"
  assume f: "asks f Q" and m: "in_bounds m"
  show "in_bounds (snd (with_user f m)) \<and> (\<forall>x. fst (with_user f m) = Ok x \<longrightarrow> Q x)"
  proof (cases "user m")
    case (Some u)
    have "in_bounds (in_session m u)" using m by (simp add: in_session_def)
    then show ?thesis using f Some by (simp add: with_user_Some asks_def)
  qed (simp add: with_user_None m)
qed

lemma asks_client_state [asks_intros]:
  "Q () \<Longrightarrow> asks (ensureServices :: (checked client, go_error, unit) comp) Q"
  "Q () \<Longrightarrow> asks (set_user u :: (checked client, go_error, unit) comp) Q"
  "(\<And>u. R u) \<Longrightarrow> asks (gets user :: (checked client, go_error, User option) comp) R"
  "(\<And>b. R' b) \<Longrightarrow> asks (gets has_services :: (checked client, go_error, bool) comp) R'"
  by (auto simp: asks_def ensureServices_def set_user_def comp_defs)

fun reading_call :: "call \<Rightarrow> bool" where
  "reading_call (GetUser_call n p) = True"
| "reading_call (LoadFile_call fn) = True"
| "reading_call ListFiles_call = True"
| "reading_call _ = False"

fun call_typed :: "call \<Rightarrow> bool" where
  "call_typed (AcceptInvitation_call s ptr fn) = (length ptr = 16)"
| "call_typed _ = True"

lemma asks_ListFiles: "asks (ListFiles X :: (checked session, go_error, string list) comp) (\<lambda>_. True)"
  by (auto simp: asks_def ListFiles_def range_keys_def tick_def bnd_def comp_defs split: option.split)

lemma asks_reading_call:
  assumes "reads_ok P" "uuid_typed X" "reading_call k"
  shows "asks (run_call X (checked_services P) k) (\<lambda>_. True)"
  using assms(3)
  by (cases k) (auto simp: app_GetUser_def app_LoadFile_def app_ListFiles_def
      intro!: asks_intros asks_weaken [OF asks_GetUser [OF assms(1,2)]] asks_weaken [OF asks_LoadFile [OF assms(1,2)]]
        asks_weaken [OF asks_ListFiles])

lemma asks_call:
  assumes "reads_ok P" "writes_ok P" "uuid_typed X" "order_ok X" "call_typed k"
  shows "asks (run_call X (checked_services P) k) (\<lambda>_. True)"
  using assms(5)
  by (cases k) (auto simp: app_InitUser_def app_GetUser_def app_StoreFile_def app_LoadFile_def app_AppendToFile_def
      app_CreateInvitation_def app_AcceptInvitation_def app_RevokeAccess_def app_ListFiles_def accept_without_user_def
      Let_def assms(1-4)
      intro!: asks_intros asks_weaken [OF asks_InitUser [OF assms(1-3)]] asks_weaken [OF asks_GetUser [OF assms(1,3)]]
        asks_weaken [OF asks_StoreFile [OF assms(2,3)]] asks_weaken [OF asks_LoadFile [OF assms(1,3)]]
        asks_weaken [OF asks_AppendToFile [OF assms(1-3)]] asks_weaken [OF asks_CreateInvitation [OF assms(1-3)]]
        asks_weaken [OF asks_AcceptInvitation [OF assms(1-3)]] asks_weaken [OF asks_RevokeAccess [OF assms(1-4)]]
        asks_weaken [OF asks_ListFiles]
      split: option.split)

lemma asks_run_calls:
  assumes "\<And>k. k \<in> set ks \<Longrightarrow> asks (run_call X (checked_services P) k) (\<lambda>_. True)" "in_bounds m"
  shows "in_bounds (snd (run_calls X (checked_services P) ks m))"
  using assms
proof (induction ks arbitrary: m)
  case (Cons k ks)
  obtain r m1 where k: "run_call X (checked_services P) k m = (r, m1)"
    by (cases "run_call X (checked_services P) k m")
  have "asks (run_call X (checked_services P) k) (\<lambda>_. True)" using Cons.prems(1) by simp
  then have "in_bounds m1" using Cons.prems(2) k unfolding asks_def by (metis snd_conv)
  then show ?case using Cons.IH [of m1] Cons.prems(1) k by (auto split: outcome.split prod.split)
qed simp

lemma instrument_in_bounds: "in_bounds (instrument w)"
  by (simp add: instrument_def)

lemma within_reading:
  "reads_ok P \<Longrightarrow> uuid_typed X \<Longrightarrow> \<forall>k \<in> set ks. reading_call k \<Longrightarrow> within X P ks w"
  unfolding within_def by (intro asks_run_calls asks_reading_call instrument_in_bounds) auto

lemma within_typed:
  "reads_ok P \<Longrightarrow> writes_ok P \<Longrightarrow> uuid_typed X \<Longrightarrow> order_ok X \<Longrightarrow> \<forall>k \<in> set ks. call_typed k \<Longrightarrow> within X P ks w"
  unfolding within_def by (intro asks_run_calls asks_call instrument_in_bounds) auto

section \<open>Public keys on the wire\<close>

lemma unmarshal_public_codec:
  assumes "utf8_valid (pub_KeyType pk)" "int64 (rsa_E (pub_PubKey pk))"
  shows "unmarshal_public (bytes_of_string (json_print (enc_public pk))) = pk"
proof -
  have "json_wf (enc_public pk)" using assms by (simp add: enc_public_def codec_simps)
  then have "json_parse (json_print (enc_public pk)) = Some (enc_public pk)" by simp
  moreover have "into_big (enc_int i) = (i, True)" for i by (simp add: into_big_def enc_int_def)
  ultimately show ?thesis
    using assms by (simp add: unmarshal_public_def enc_public_def zero_public_def dec_string_def codec_simps field_simps_json)
qed

section \<open>Sample stores\<close>

definition sample_network :: "(bytes \<rightharpoonup> bytes, bytes) network" where
  "sample_network = \<lparr>dial_error = (\<lambda>_ _ _. None), served_by = map_badger\<rparr>"

definition connected_to :: "'db \<Rightarrow> 'db userlib" where
  "connected_to d = \<lparr>remoteAddr = ''localhost:8080'', useTLS = True, spec_line = 0, datastore = Map.empty,
     keystore = Map.empty, datastoreBandwidth = Map.empty, local_keys = Map.empty, dials = 0, remote_db = d\<rparr>"

definition sample_db :: "bytes \<rightharpoonup> bytes" where
  "sample_db = [user_uuid sample ''alice'' \<mapsto> replicate 100 7]"

lemma sample_remote_good: "remote_good sample_network id (connected_to sample_db)"
  by (auto simp: remote_good_def connected_to_def isConnected_def sample_network_def sample_db_def split: if_splits)

lemma sample_looks_like:
  "looks_like (remote_promises small_entry) (remote_good sample_network id) (\<lambda>u. id (remote_db u)) (remote_published id)
     (new_client (connected_to sample_db) 0) (new_client \<lparr>mem_store = sample_db, mem_keys = Map.empty\<rparr> 0)"
proof -
  have "length (user_uuid sample ''alice'') = 16" by simp
  then have "bytes_of_string n \<noteq> user_uuid sample ''alice''" if "length n \<noteq> 16" for n
    using that by (metis length_bytes_of_string)
  then show ?thesis using sample_remote_good
    by (auto simp: looks_like_def new_client_def remote_published_def connected_to_def remote_promises_def sample_db_def)
qed

lemma small_entry_reads: "reads_ok (remote_promises small_entry)"
  by (auto simp: reads_ok_def remote_promises_def small_entry_def)

section \<open>Properties\<close>

text \<open>
  C10: the process-local store refines the map. A client that is not connected gives, for every
  sequence of calls, the answers a client of the in-memory backend gives, and ends in a state
  that looks the same: sharding, copies, bandwidth accounting and the key cache are invisible.
\<close>

theorem local_sessions_refine_memory:
  assumes "uuid_typed X" "order_ok X" "\<forall>k \<in> set ks. call_typed k"
    and "looks_like local_promises local_good local_stored local_published c w"
  shows "fst (run_calls X (userlib_services N) ks c) = fst (run_calls X memory_services ks w)
    \<and> looks_like local_promises local_good local_stored local_published
        (snd (run_calls X (userlib_services N) ks c)) (snd (run_calls X memory_services ks w))"
proof -
  have "reads_ok local_promises" "writes_ok local_promises"
    by (simp_all add: reads_ok_def writes_ok_def local_promises_def)
  then have "within X local_promises ks w" using assms(1-3) by (rule within_typed)
  then show ?thesis using backend_run [OF local_backend.storage_backend_axioms assms(4)] by blast
qed

theorem local_sessions_refine_memory_witness:
  "fst (run_calls sample (userlib_services sample_network) [InitUser_call ''alice'' ''pw'', StoreFile_call ''f'' [1]]
      (new_client ((connected_to sample_db)\<lparr>remoteAddr := ''''\<rparr>) 0))
   = fst (run_calls sample memory_services [InitUser_call ''alice'' ''pw'', StoreFile_call ''f'' [1]]
      (new_client empty_memory 0))"
proof -
  have "looks_like local_promises local_good local_stored local_published
      (new_client ((connected_to sample_db)\<lparr>remoteAddr := ''''\<rparr>) 0) (new_client empty_memory 0)"
    by (simp add: looks_like_def new_client_def local_good_def local_stored_def local_published_def local_shard_def
        isConnected_def connected_to_def empty_memory_def)
  then show ?thesis
    using local_sessions_refine_memory [OF sample_uuid_typed sample_order_ok,
        where ks = "[InitUser_call ''alice'' ''pw'', StoreFile_call ''f'' [1]]" and N = sample_network] by simp
qed

text \<open>
  C9: the network refines the map. A connected client whose dials succeed, over the protocol and
  the server of this repository and a database that keeps Badger's promises, gives for every
  sequence of calls the answers a client of the in-memory backend gives, and the database ends
  with the entries of that map - as long as what the calls store fits: keys of 16 bytes and
  values that Badger accepts and whose length the protocol can express.
\<close>

theorem network_sessions_refine_memory:
  assumes "badger_ok (served_by N) contents fits" "badger_calm (served_by N)"
    and "looks_like (remote_promises fits) (remote_good N contents) (\<lambda>u. contents (remote_db u)) (remote_published contents) c w"
    and "within X (remote_promises fits) ks w"
  shows "fst (run_calls X (userlib_services N) ks c) = fst (run_calls X memory_services ks w)
    \<and> looks_like (remote_promises fits) (remote_good N contents) (\<lambda>u. contents (remote_db u)) (remote_published contents)
        (snd (run_calls X (userlib_services N) ks c)) (snd (run_calls X memory_services ks w))"
  using backend_run [OF remote_backend [OF assms(1,2)] assms(3,4)] .

theorem network_sessions_refine_memory_witness:
  "fst (run_calls sample (userlib_services sample_network) [GetUser_call ''alice'' ''pw'', ListFiles_call]
      (new_client (connected_to sample_db) 0))
   = fst (run_calls sample memory_services [GetUser_call ''alice'' ''pw'', ListFiles_call]
      (new_client \<lparr>mem_store = sample_db, mem_keys = Map.empty\<rparr> 0))"
proof -
  have "badger_ok (served_by sample_network) id small_entry" "badger_calm (served_by sample_network)"
    using map_badger_ok map_badger_calm by (simp_all add: sample_network_def)
  moreover have "within sample (remote_promises small_entry) [GetUser_call ''alice'' ''pw'', ListFiles_call]
      (new_client \<lparr>mem_store = sample_db, mem_keys = Map.empty\<rparr> 0)"
    by (rule within_reading [OF small_entry_reads sample_uuid_typed]) simp
  ultimately show ?thesis
    using network_sessions_refine_memory [OF _ _ sample_looks_like] by blast
qed

text \<open>
  C32: a write that the server could not do is reported as done. When Badger refuses an entry or
  a deletion the server answers with an error, but \<open>DatastoreSet\<close> and \<open>DatastoreDelete\<close> ignore the status
  they read; and when a read fails \<open>DatastoreGet\<close> hands the text of the error message to the
  caller as the stored value.
\<close>

theorem network_errors_are_lost:
  assumes "badger_calm (served_by N)" "isConnected u" "dial_error N (dials u) (useTLS u) (remoteAddr u) = None"
    and "length k < 2 ^ 32" "length v < 2 ^ 32" "length msg < 2 ^ 32"
    and "bd_Set (served_by N) k v (remote_db u) = (Some e, d1)" "bd_Delete (served_by N) k (remote_db u) = (Some e', d2)"
    and "bd_Get (served_by N) k (remote_db u) = Err (DbError msg)"
  shows "fst (datastoreSet N k v u) = Ok () \<and> fst (datastoreDelete N k u) = Ok ()
    \<and> fst (datastoreGet N k u) = Ok (Some (bytes_of_string msg))"
  using remote_Set [OF assms(1-5)] remote_Delete [OF assms(1-4)] remote_Get [OF assms(1-4)]
    readValue_reply(3) [OF assms(6)]
  by (simp add: assms(9) Store_Get_def del: enc_reply.simps)

definition broken_badger :: "(bytes \<rightharpoonup> bytes, bytes) badger" where
  "broken_badger = \<lparr>bd_Get = (\<lambda>k m. Err (DbError ''disk'')), bd_ValueCopy = Ok,
     bd_Set = (\<lambda>k v m. (Some (DbError ''disk''), m)), bd_SetEntry = (\<lambda>k v ttl m. (Some (DbError ''disk''), m)),
     bd_Delete = (\<lambda>k m. (Some (DbError ''disk''), m))\<rparr>"

theorem network_errors_are_lost_witness:
  "fst (datastoreSet (sample_network\<lparr>served_by := broken_badger\<rparr>) [1] [2] (connected_to Map.empty)) = Ok ()
   \<and> fst (datastoreGet (sample_network\<lparr>served_by := broken_badger\<rparr>) [1] (connected_to Map.empty)) = Ok (Some (bytes_of_string ''disk''))"
  using network_errors_are_lost [of "sample_network\<lparr>served_by := broken_badger\<rparr>" "connected_to Map.empty" "[1]" "[2]" "''disk''"]
  by (simp add: broken_badger_def badger_calm_def sample_network_def connected_to_def isConnected_def)

text \<open>What a remote \<open>KeystoreSet\<close> leaves for every client of that server.\<close>

lemma remote_key_written:
  assumes "badger_ok (served_by N) contents fits" "badger_calm (served_by N)"
    and "remote_good N contents u" "ok_key (remote_promises fits) n (AsPublicKey pk)"
    and "utf8_valid (pub_KeyType pk)" "int64 (rsa_E (pub_PubKey pk))"
    and "keystoreSet N n pk u = (r, u')"
  shows "r = Ok ()" "remote_good N contents u'"
    "remote_good N contents other \<Longrightarrow> remote_db other = remote_db u' \<Longrightarrow> fst (keystoreGet N n other) = Ok (Some pk)"
proof -
  let ?d = "bytes_of_string (json_print (enc_public pk))"
  have n: "length n \<noteq> 16" "length n < 2 ^ 32" "length (json_print (enc_public pk)) < 2 ^ 32" "fits (bytes_of_string n) ?d"
    using assms(4) by (simp_all add: remote_promises_def)
  have conn: "isConnected w" "\<And>i. dial_error N i (useTLS w) (remoteAddr w) = None" if "remote_good N contents w" for w
    using that by (simp_all add: remote_good_def)
  note run = run_req_spec [OF assms(1), of "ReqSet (bytes_of_string n) ?d" "remote_db u"]
  have set: "keystoreSet N n pk u = (Ok (), u\<lparr>dials := Suc (dials u),
       remote_db := snd (run_req (served_by N) (ReqSet (bytes_of_string n) ?d) (remote_db u))\<rparr>)"
    using remote_keystoreSet [OF assms(2) conn(1) [OF assms(3)] conn(2) [OF assms(3)] n(2,3)] run n(4)
    by (simp add: status_ends del: run_req.simps)
  then have db: "contents (remote_db u') = (contents (remote_db u))(bytes_of_string n \<mapsto> ?d)" "r = Ok ()"
    and u': "isConnected u' = isConnected u" "useTLS u' = useTLS u" "remoteAddr u' = remoteAddr u"
    using assms(7) run n(4) by (auto simp: isConnected_def simp del: run_req.simps)
  show "r = Ok ()" by (rule db(2))
  show "remote_good N contents u'"
    using assms(3) n(3) by (auto simp: remote_good_def db(1) u')
  show "fst (keystoreGet N n other) = Ok (Some pk)" if "remote_good N contents other" "remote_db other = remote_db u'"
  proof -
    have "fits (bytes_of_string n) []" using badger_okD(8) [OF assms(1) n(4)] .
    from read_stored [OF assms(1) this that(1)]
    have "fst (keystoreGet N n other) = Ok (Some (unmarshal_public ?d))"
      using conn [OF that(1)] n(2)
      by (simp add: keystoreGet_def monad_simps or_panic_def remote_dial exchange_eq [OF assms(2) requests(1)] that(2) db(1)
          del: run_req.simps enc_reply.simps)
    then show ?thesis using unmarshal_public_codec [OF assms(5,6)] by simp
  qed
qed

lemma local_keys_of:
  assumes "\<not> isConnected l"
  shows "fst (keystoreGet N n l) = Ok (local_shard l n)"
    "local_shard l n = None \<Longrightarrow> keystoreSet N n k l
      = (Ok (), l\<lparr>keystore := (keystore l)(spec_line l \<mapsto> (local_shard l)(n \<mapsto> k))\<rparr>)"
    "local_shard l n = Some k' \<Longrightarrow> keystoreSet N n k l = (Err KeystoreTaken, l)"
  using assms
  by (cases "keystore l (spec_line l)";
    simp add: keystoreGet_def keystoreSet_def shard_defs bnd_def comp_defs local_shard_def)+

lemma local_keystoreSet:
  assumes "\<not> isConnected l" "fst (keystoreGet N n l) = Ok None"
  shows "\<exists>l'. keystoreSet N n old l = (Ok (), l') \<and> keystoreSet N n pk l' = (Err KeystoreTaken, l')
    \<and> fst (keystoreGet N n l') = Ok (Some old)"
proof -
  let ?l = "l\<lparr>keystore := (keystore l)(spec_line l \<mapsto> (local_shard l)(n \<mapsto> old))\<rparr>"
  have "local_shard l n = None" using local_keys_of(1) [OF assms(1), of N n] assms(2) by simp
  moreover have "\<not> isConnected ?l" using assms(1) by (simp add: isConnected_def)
  moreover have "local_shard ?l n = Some old" by (simp add: local_shard_def)
  ultimately show ?thesis
    using local_keys_of(2) [OF assms(1)] local_keys_of(1,3) [of ?l] by metis
qed

text \<open>
  C33: in the process the first writer of a public key wins, over the network the last one. Let two keys be set one
  after the other under one name. Without a connection the second \<open>KeystoreSet\<close> is refused, changes nothing, and the first
  key is the one that is read. Over the network, whatever clients do it, both succeed: after the first every client reads the
  first key, after the second the second, so whoever reaches the server can replace the keys by which users are recognised.
\<close>

theorem remote_key_is_replaced:
  assumes "badger_ok (served_by N) contents fits" "badger_calm (served_by N)"
    and keys: "\<forall>k \<in> {old, pk}. ok_key (remote_promises fits) n (AsPublicKey k) \<and> utf8_valid (pub_KeyType k) \<and> int64 (rsa_E (pub_PubKey k))"
    and "remote_good N contents a" "keystoreSet N n old a = (r, a')"
    and "remote_good N contents b" "remote_db b = remote_db a'" "keystoreSet N n pk b = (r', b')"
    and "remote_good N contents c" "remote_db c = remote_db b'"
    and "\<not> isConnected l" "fst (keystoreGet N n l) = Ok None" "keystoreSet N n old l = (s, l')"
  shows "r = Ok () \<and> fst (keystoreGet N n b) = Ok (Some old) \<and> r' = Ok () \<and> fst (keystoreGet N n c) = Ok (Some pk)
    \<and> s = Ok () \<and> keystoreSet N n pk l' = (Err KeystoreTaken, l') \<and> fst (keystoreGet N n l') = Ok (Some old)"
proof -
  have old: "ok_key (remote_promises fits) n (AsPublicKey old)" "utf8_valid (pub_KeyType old)" "int64 (rsa_E (pub_PubKey old))"
    and pk: "ok_key (remote_promises fits) n (AsPublicKey pk)" "utf8_valid (pub_KeyType pk)" "int64 (rsa_E (pub_PubKey pk))"
    using keys by simp_all
  note first = remote_key_written [OF assms(1,2,4) old assms(5)]
  note second = remote_key_written [OF assms(1,2,6) pk assms(8)]
  show ?thesis
    using first(1) first(3) [OF assms(6,7)] second(1) second(3) [OF assms(9,10)] local_keystoreSet [OF assms(11,12), of old pk] assms(13)
    by auto
qed

definition small_key :: PublicKeyType where
  "small_key = \<lparr>pub_KeyType = ''DS'', pub_PubKey = \<lparr>rsa_N = 1, rsa_E = 3\<rparr>\<rparr>"

definition other_key :: PublicKeyType where
  "other_key = \<lparr>pub_KeyType = ''DS'', pub_PubKey = \<lparr>rsa_N = 2, rsa_E = 3\<rparr>\<rparr>"

lemma json_escape_ascii: "code c < 128 \<Longrightarrow> json_escape (c # cs) = escape_ascii c @ json_escape cs"
  by (simp add: json_escape.simps)

lemma small_key_text: "length (json_print (enc_public small_key)) < 100" "length (json_print (enc_public other_key)) < 100"
  by (simp_all add: small_key_def other_key_def enc_public_def enc_int_def show_int_def show_nat.simps json_quote_def
      json_escape.simps(1) json_escape_ascii escape_ascii_def ch_quote_def ch_bslash_def)

lemma small_keys_ok:
  "\<forall>k \<in> {small_key, other_key}. ok_key (remote_promises small_entry) ''alice_sig_pub'' (AsPublicKey k)
     \<and> utf8_valid (pub_KeyType k) \<and> int64 (rsa_E (pub_PubKey k))"
proof -
  have "ok_key (remote_promises small_entry) ''alice_sig_pub'' (AsPublicKey k)" if "length (json_print (enc_public k)) < 100" for k
    using that by (simp add: remote_promises_def small_entry_def bytes_of_string_def)
  then show ?thesis
    using small_key_text by (auto simp: small_key_def other_key_def int64_def intro!: utf8_valid_ascii)
qed

theorem remote_key_is_replaced_witness:
  "\<exists>a b l. keystoreSet sample_network ''alice_sig_pub'' small_key (connected_to sample_db) = (Ok (), a)
    \<and> fst (keystoreGet sample_network ''alice_sig_pub'' (connected_to (remote_db a))) = Ok (Some small_key)
    \<and> keystoreSet sample_network ''alice_sig_pub'' other_key (connected_to (remote_db a)) = (Ok (), b)
    \<and> fst (keystoreGet sample_network ''alice_sig_pub'' (connected_to (remote_db b))) = Ok (Some other_key)
    \<and> keystoreSet sample_network ''alice_sig_pub'' small_key ((connected_to sample_db)\<lparr>remoteAddr := ''''\<rparr>) = (Ok (), l)
    \<and> keystoreSet sample_network ''alice_sig_pub'' other_key l = (Err KeystoreTaken, l)"
proof -
  let ?n = "''alice_sig_pub''" and ?l = "(connected_to sample_db)\<lparr>remoteAddr := ''''\<rparr>"
  have net: "badger_ok (served_by sample_network) id small_entry" "badger_calm (served_by sample_network)"
    using map_badger_ok map_badger_calm by (simp_all add: sample_network_def)
  have fresh: "remote_good sample_network id (connected_to (remote_db u))" if "remote_good sample_network id u" for u
    using that by (simp add: remote_good_def connected_to_def isConnected_def sample_network_def)
  have db: "remote_db (connected_to d) = d" for d :: "bytes \<rightharpoonup> bytes" by (simp add: connected_to_def)
  obtain r a where a: "keystoreSet sample_network ?n small_key (connected_to sample_db) = (r, a)" by fastforce
  have "remote_good sample_network id a"
    using remote_key_written(2) [OF net sample_remote_good _ _ _ a] small_keys_ok by simp
  note good = fresh [OF this]
  obtain r' b where b: "keystoreSet sample_network ?n other_key (connected_to (remote_db a)) = (r', b)" by fastforce
  have "remote_good sample_network id b"
    using remote_key_written(2) [OF net good _ _ _ b] small_keys_ok by simp
  note good' = fresh [OF this]
  obtain s l where l: "keystoreSet sample_network ?n small_key ?l = (s, l)" by fastforce
  have "\<not> isConnected ?l" "fst (keystoreGet sample_network ?n ?l) = Ok None"
    by (simp_all add: isConnected_def connected_to_def keystoreGet_def shard_defs bnd_def comp_defs)
  from remote_key_is_replaced [OF net small_keys_ok sample_remote_good a good db b good' db this l] a b l
  show ?thesis by blast
qed

end
