(* ===== verification/Cli_Properties.thy ===== *)
theory Cli_Properties
  imports Cli Backend_Properties
begin

text \<open>
  What holds of a run of \<open>sharelock\<close>: the host table and the session survive on the disk, the
  commands that work on files need a session, and two defects of the command line - the deprecated command names
  crash, and \<open>host use\<close> removes what it selects.
\<close>

section \<open>Steps of the process\<close>

lemma on_disk_simps [monad_simps]:
  "m (disk p) = (Ok x, d) \<Longrightarrow> on_disk m p = (Ok (Inr x), p\<lparr>disk := d\<rparr>)"
  "m (disk p) = (Err e, d) \<Longrightarrow> on_disk m p = (Ok (Inl e), p\<lparr>disk := d\<rparr>)"
  by (simp_all add: on_disk_def)

lemma on_cli_simps [monad_simps]:
  "m (cli p) = (Ok x, c) \<Longrightarrow> on_cli m p = (Ok (Inr x), p\<lparr>cli := c\<rparr>)"
  "m (cli p) = (Err e, c) \<Longrightarrow> on_cli m p = (Ok (Inl e), p\<lparr>cli := c\<rparr>)"
  "m (cli p) = (Panic q, c) \<Longrightarrow> on_cli m p = (Panic q, p\<lparr>cli := c\<rparr>)"
  by (simp_all add: on_cli_def)

lemma or_exit_simps [monad_simps]:
  "m p = (Ok (Inr x), p') \<Longrightarrow> or_exit context m p = (Ok x, p')"
  "m p = (Ok (Inl e), p') \<Longrightarrow> or_exit context m p = (Err 1, p'\<lparr>err := err p' @ [Str context, ErrText e, Str line_feed]\<rparr>)"
  "m p = (Panic q, p') \<Longrightarrow> or_exit context m p = (Panic q, p')"
  by (simp_all add: or_exit_def monad_simps print_err_def os_Exit_def)

text \<open>The client once the process has connected to its host, if it has one.\<close>

definition connected :: "('db, 'i, 'fs) machine \<Rightarrow> Config \<Rightarrow> 'db userlib client \<Rightarrow> 'db userlib client" where
  "connected M cfg c =
     (let hostName = (if Getenv (m_env M) ''SHARELOCK_HOST'' \<noteq> [] then Getenv (m_env M) ''SHARELOCK_HOST'' else ''default'') in
      case Get cfg hostName of
        None \<Rightarrow> c
      | Some h \<Rightarrow> if Addr h = [] then c
          else c\<lparr>backend := (backend c)\<lparr>remoteAddr := Addr h, useTLS := TLS h\<rparr>\<rparr>)"

lemma connected_simps [simp]:
  "user (connected M cfg c) = user c" "has_services (connected M cfg c) = has_services c"
  "draws (connected M cfg c) = draws c" "remote_db (backend (connected M cfg c)) = remote_db (backend c)"
  "dials (backend (connected M cfg c)) = dials (backend c)"
  by (simp_all add: connected_def Let_def split: option.split)

lemma connect_host_run:
  assumes "cmd \<noteq> ''read''"
  obtains deferred where "connect_host M cfg cmd p = (Ok deferred, p\<lparr>cli := connected M cfg (cli p)\<rparr>)"
proof -
  let ?name = "if Getenv (m_env M) ''SHARELOCK_HOST'' \<noteq> [] then Getenv (m_env M) ''SHARELOCK_HOST'' else ''default''"
  have same: "p\<lparr>cli := cli p\<rparr> = p" by simp
  show ?thesis
  proof (cases "\<exists>h. Get cfg ?name = Some h \<and> Addr h \<noteq> []")
    case True
    then obtain h where h: "Get cfg ?name = Some h" "Addr h \<noteq> []" by blast
    have "on_cli (on_backend (Connect (Addr h) (TLS h))) p = (Ok (Inr ()), p\<lparr>cli := connected M cfg (cli p)\<rparr>)"
      using h by (simp add: on_cli_def on_backend_def Connect_def modify_def connected_def Let_def)
    then have "connect_host M cfg cmd p = (Ok True, p\<lparr>cli := connected M cfg (cli p)\<rparr>)"
      using h assms unfolding connect_host_def Let_def by (simp add: bnd_Ok ret_def)
    then show ?thesis by (rule that)
  next
    case False
    then have "connected M cfg (cli p) = cli p" "connect_host M cfg cmd p = (Ok False, p)"
      using assms unfolding connected_def connect_host_def Let_def by (simp_all add: ret_def split: option.split)
    then show ?thesis using that [of False] same by simp
  qed
qed

lemma Load_reads: "Load F E s = (r, s') \<Longrightarrow> s' = s"
  by (auto simp: Load_def Let_def comp_defs split: outcome.splits fs_error.splits option.splits)

text \<open>What \<open>main\<close> does for a command that is neither answered at once nor a host command.\<close>

lemma main_run:
  assumes "Load (m_fs M) (m_env M) (disk p) = (Ok cfg, d)"
    and "cmd \<notin> {''--help'', ''-h'', ''version'', ''--version'', ''host'', ''hosts'', ''read''}"
  obtains deferred where "main M (prog # cmd # args) p =
     with_Disconnect deferred
       (bnd (if cmd \<in> set userCommands then require_login M else ret ()) (\<lambda>_. run_command M (prog # cmd # args)))
       (p\<lparr>cli := connected M cfg (cli p)\<rparr>)"
proof -
  have d: "d = disk p" using Load_reads [OF assms(1)] .
  have p: "p\<lparr>disk := disk p\<rparr> = p" by simp
  obtain deferred where c: "connect_host M cfg cmd p = (Ok deferred, p\<lparr>cli := connected M cfg (cli p)\<rparr>)"
    using assms(2) by (auto intro: connect_host_run [of cmd M cfg p])
  have "main M (prog # cmd # args) p =
     with_Disconnect deferred
       (bnd (if cmd \<in> set userCommands then require_login M else ret ()) (\<lambda>_. run_command M (prog # cmd # args)))
       (p\<lparr>cli := connected M cfg (cli p)\<rparr>)"
    using assms by (simp add: main_def Let_def monad_simps d p c)
  then show ?thesis by (rule that)
qed

lemma main_user_command:
  assumes "Load (m_fs M) (m_env M) (disk p) = (Ok cfg, d)" "cmd \<in> set userCommands"
  obtains deferred where "main M (prog # cmd # args) p =
     with_Disconnect deferred (bnd (require_login M) (\<lambda>_. run_command M (prog # cmd # args)))
       (p\<lparr>cli := connected M cfg (cli p)\<rparr>)"
proof -
  have "cmd \<notin> {''--help'', ''-h'', ''version'', ''--version'', ''host'', ''hosts'', ''read''}"
    using assms(2) by (auto simp: userCommands_def)
  from main_run [OF assms(1) this, of prog args] show ?thesis
    using that assms(2) by (simp only: if_True) blast
qed

lemma main_other_command:
  assumes "Load (m_fs M) (m_env M) (disk p) = (Ok cfg, d)" "cmd \<notin> set userCommands"
    and "cmd \<notin> {''--help'', ''-h'', ''version'', ''--version'', ''host'', ''hosts'', ''read''}"
  obtains deferred where "main M (prog # cmd # args) p =
     with_Disconnect deferred (run_command M (prog # cmd # args)) (p\<lparr>cli := connected M cfg (cli p)\<rparr>)"
  using main_run [OF assms(1,3), of prog args] that assms(2) by (simp only: if_False bnd_ret_left) blast

lemma main_host:
  assumes "Load (m_fs M) (m_env M) (disk p) = (Ok cfg, d)"
  shows "main M (prog # ''host'' # args) p = hostCmd M cfg args p"
  using assms Load_reads [OF assms] by (simp add: main_def Let_def monad_simps)

section \<open>The host table and the session\<close>

lemma or_exit_eq_Ok: "or_exit context m p = (Ok x, p') \<longleftrightarrow> m p = (Ok (Inr x), p')"
proof (cases "m p")
  case (Pair r q)
  then show ?thesis
    by (cases r) (auto simp: or_exit_def bnd_def ret_def os_Exit_def raise_def print_err_def modify_def split: sum.splits)
qed

lemma on_disk_eq_Ok: "on_disk m p = (Ok (Inr x), p') \<longleftrightarrow> (\<exists>d. m (disk p) = (Ok x, d) \<and> p' = p\<lparr>disk := d\<rparr>)"
proof (cases "m (disk p)")
  case (Pair r d)
  then show ?thesis by (cases r) (auto simp: on_disk_def)
qed

lemma save_hosts_Ok:
  assumes "save_hosts M cfg p = (Ok (), p')"
  obtains d where "Save (m_fs M) cfg (disk p) = (Ok (), d)" "p' = p\<lparr>disk := d, out := out p @ [Str (''ok'' @ line_feed)]\<rparr>"
  using assms
  by (auto simp: save_hosts_def bnd_eq_Ok or_exit_eq_Ok on_disk_eq_Ok Println_def print_out_def modify_def)

lemma config_ok_Set: "config_ok c \<Longrightarrow> utf8_valid n \<Longrightarrow> utf8_valid a \<Longrightarrow> config_ok (Set n a t c)"
proof -
  assume c: "config_ok c" and n: "utf8_valid n" "utf8_valid a"
  have "set (gm_set n h m) \<subseteq> insert (n, h) (set m)" for h :: HostEntry and m
    by (induction n h m rule: gm_set.induct) auto
  then show ?thesis using c n by (fastforce simp: config_ok_def Set_def host_ok_def)
qed

lemma config_ok_Remove: "config_ok c \<Longrightarrow> config_ok (Remove n c)"
proof -
  have "set (gm_del n (Hosts c)) \<subseteq> set (Hosts c)" by (auto simp: gm_del_def)
  then show "config_ok c \<Longrightarrow> config_ok (Remove n c)" by (auto simp: config_ok_def Remove_def)
qed

lemma Get_Set: "Get (Set n a t c) m = (if m = n then Some \<lparr>Addr = a, TLS = t\<rparr> else Get c m)"
  by (simp add: Get_def Set_def)

lemma Get_Remove: "Get (Remove n c) m = (if m = n then None else Get c m)"
  by (simp add: Get_def Remove_def map_of_gm_del)

lemma config_file_simps [simp]: "config_file (Set n a t c) = config_file c" "config_file (Remove n c) = config_file c"
  by (simp_all add: Set_def Remove_def)

lemma saved_hosts:
  assumes "filesys_ok (m_fs M)" "config_ok cfg" "save_hosts M cfg p = (Ok (), p')"
    and "configPath (m_fs M) (m_env M) (disk p') = config_file cfg"
  shows "Load (m_fs M) (m_env M) (disk p') = (Ok cfg, disk p')" "out p' = out p @ [Str (''ok'' @ line_feed)]"
proof -
  obtain d where "Save (m_fs M) cfg (disk p) = (Ok (), d)" and p': "p' = p\<lparr>disk := d, out := out p @ [Str (''ok'' @ line_feed)]\<rparr>"
    using save_hosts_Ok [OF assms(3)] .
  then show "Load (m_fs M) (m_env M) (disk p') = (Ok cfg, disk p')" "out p' = out p @ [Str (''ok'' @ line_feed)]"
    using Load_saved [OF assms(1,2)] assms(4) by simp_all
qed

text \<open>A machine with an empty disk, for the witnesses.\<close>

definition sample_machine :: "(bytes \<rightharpoonup> bytes, bytes, disk) machine" where
  "sample_machine = \<lparr>m_ext = sample, m_net = sample_network, m_fs = disk_fs,
     m_env = [''SHARELOCK_CONFIG_DIR'' \<mapsto> ''/c''], m_streams = (\<lambda>_ _. DialError ''refused'')\<rparr>"

definition sample_process :: "(string \<rightharpoonup> bytes) \<Rightarrow> (bytes \<rightharpoonup> bytes, disk) process" where
  "sample_process files = new_process Map.empty 0 \<lparr>disk_files = files, disk_dirs = []\<rparr>"

lemma sample_path [simp]:
  "configPath disk_fs [''SHARELOCK_CONFIG_DIR'' \<mapsto> ''/c''] d = path_Join [''/c'', ''.hosts'']"
  "sessionPath disk_fs [''SHARELOCK_CONFIG_DIR'' \<mapsto> ''/c''] d = path_Join [''/c'', ''.session'']"
  by (simp_all add: configPath_def sessionPath_def Getenv_def)

lemma sample_machine_simps [simp]:
  "m_ext sample_machine = sample" "m_fs sample_machine = disk_fs"
  "m_env sample_machine = [''SHARELOCK_CONFIG_DIR'' \<mapsto> ''/c'']"
  by (simp_all add: sample_machine_def)

lemma sample_process_simps [simp]:
  "disk (sample_process f) = \<lparr>disk_files = f, disk_dirs = []\<rparr>" "user (cli (sample_process f)) = None"
  "\<not> has_services (cli (sample_process f))" "out (sample_process f) = []"
  by (simp_all add: sample_process_def new_process_def new_client_def)

lemma sample_Load_empty:
  assumes "disk_files d (path_Join [''/c'', ''.hosts'']) = None"
  shows "Load disk_fs [''SHARELOCK_CONFIG_DIR'' \<mapsto> ''/c''] d = (Ok \<lparr>Hosts = [], config_file = path_Join [''/c'', ''.hosts'']\<rparr>, d)"
  using assms by (simp add: Load_def monad_simps Let_def)

text \<open>Saving on the sample disk succeeds.\<close>

lemma sample_save_hosts: "\<exists>p'. save_hosts sample_machine cfg p = (Ok (), p')"
  by (simp add: save_hosts_def Save_def monad_simps fs_call_def Let_def Println_def print_out_def)

text \<open>
  C37: the host table survives on the disk. After \<open>sharelock host add\<close> reports ok, a later run that
  looks at the same file reads the table with the new entry under its name, with TLS unless an option turned
  it off, and every other entry as it was.
\<close>

theorem hosts_are_saved:
  assumes "filesys_ok (m_fs M)" "config_ok cfg" "utf8_valid name" "utf8_valid addr"
    and "Load (m_fs M) (m_env M) (disk p) = (Ok cfg, disk p)"
    and "main M (prog # ''host'' # ''add'' # name # addr # options) p = (Ok (), p')"
    and "configPath (m_fs M) (m_env M) (disk p') = config_file cfg"
  shows "\<exists>cfg'. Load (m_fs M) (m_env M) (disk p') = (Ok cfg', disk p') \<and> config_ok cfg'
    \<and> Get cfg' name = Some \<lparr>Addr = addr, TLS = (''--tls=false'' \<notin> set options \<and> ''--no-tls'' \<notin> set options)\<rparr>
    \<and> (\<forall>other. other \<noteq> name \<longrightarrow> Get cfg' other = Get cfg other)"
proof -
  let ?tls = "\<forall>a \<in> set options. a \<noteq> ''--tls=false'' \<and> a \<noteq> ''--no-tls''"
  have tls: "?tls \<longleftrightarrow> ''--tls=false'' \<notin> set options \<and> ''--no-tls'' \<notin> set options" by blast
  have "save_hosts M (Set name addr ?tls cfg) p = (Ok (), p')"
    using assms(6) main_host [OF assms(5)] by (simp add: hostCmd_def)
  from saved_hosts [OF assms(1) config_ok_Set [OF assms(2-4)] this]
  show ?thesis using assms(7) config_ok_Set [OF assms(2-4)] unfolding tls
    by (intro exI [of _ "Set name addr (''--tls=false'' \<notin> set options \<and> ''--no-tls'' \<notin> set options) cfg"]) (simp add: Get_Set)
qed

theorem hosts_are_saved_witness:
  "\<exists>p' cfg'. main sample_machine [''sharelock'', ''host'', ''add'', ''dev'', ''localhost:8080'', ''--tls=false''] (sample_process Map.empty) = (Ok (), p')
    \<and> Load disk_fs [''SHARELOCK_CONFIG_DIR'' \<mapsto> ''/c''] (disk p') = (Ok cfg', disk p')
    \<and> Get cfg' ''dev'' = Some \<lparr>Addr = ''localhost:8080'', TLS = False\<rparr>"
proof -
  let ?p = "sample_process Map.empty" and ?cfg = "\<lparr>Hosts = [], config_file = path_Join [''/c'', ''.hosts'']\<rparr>"
  have load: "Load (m_fs sample_machine) (m_env sample_machine) (disk ?p) = (Ok ?cfg, disk ?p)"
    by (simp add: sample_Load_empty)
  obtain p' where run: "main sample_machine [''sharelock'', ''host'', ''add'', ''dev'', ''localhost:8080'', ''--tls=false''] ?p = (Ok (), p')"
    using sample_save_hosts unfolding main_host [OF load] by (simp add: hostCmd_def) blast
  have "utf8_valid ''dev''" "utf8_valid ''localhost:8080''" "config_ok ?cfg"
    by (auto intro!: utf8_valid_ascii simp: config_ok_def)
  then show ?thesis
    using hosts_are_saved [of sample_machine ?cfg "''dev''" "''localhost:8080''" ?p "''sharelock''" "[''--tls=false'']" p', OF _ _ _ _ load run]
      run disk_fs_ok by auto
qed

text \<open>
  C36: the session survives on the disk, whatever the user name and the password are: after
  \<open>SaveSession\<close> succeeded, \<open>LoadSession\<close> returns both byte by byte, also if they are no text.
\<close>

theorem session_roundtrip:
  assumes "filesys_ok F" "SaveSession F E username password s = (Ok (), s')"
    and "sessionPath F E s' = sessionPath F E s"
  shows "LoadSession F E s' = Some (username, password)"
  using LoadSession_saved [OF assms] .

theorem session_roundtrip_witness:
  "\<exists>s'. SaveSession disk_fs [''SHARELOCK_CONFIG_DIR'' \<mapsto> ''/c''] ''alice'' ''pw'' \<lparr>disk_files = Map.empty, disk_dirs = []\<rparr> = (Ok (), s')
    \<and> LoadSession disk_fs [''SHARELOCK_CONFIG_DIR'' \<mapsto> ''/c''] s' = Some (''alice'', ''pw'')"
proof -
  obtain s' where run: "SaveSession disk_fs [''SHARELOCK_CONFIG_DIR'' \<mapsto> ''/c''] ''alice'' ''pw'' \<lparr>disk_files = Map.empty, disk_dirs = []\<rparr> = (Ok (), s')"
    by (simp add: SaveSession_def monad_simps Let_def marshal_def fs_call_def)
  then show ?thesis using session_roundtrip [OF disk_fs_ok run] by simp
qed

text \<open>
  C40: \<open>sharelock host use\<close> removes the host it selects. It copies the entry to \<open>default\<close> and
  deletes it under its own name, so the name is gone afterwards; and
  \<open>sharelock host use default\<close> reports ok and leaves the table without a default host.
\<close>

theorem use_removes_host:
  assumes "filesys_ok (m_fs M)" "config_ok cfg"
    and "Load (m_fs M) (m_env M) (disk p) = (Ok cfg, disk p)"
    and "main M [prog, ''host'', ''use'', name] p = (Ok (), p')"
    and "configPath (m_fs M) (m_env M) (disk p') = config_file cfg"
  shows "\<exists>cfg'. Load (m_fs M) (m_env M) (disk p') = (Ok cfg', disk p') \<and> Get cfg' name = None
    \<and> (name \<noteq> ''default'' \<longrightarrow> Get cfg' ''default'' = Get cfg name)
    \<and> out p' = out p @ [Str (''ok'' @ line_feed)]"
proof -
  have use: "hostCmd M cfg [''use'', name] p = (Ok (), p')"
    using assms(4) main_host [OF assms(3)] by simp
  obtain h where h: "Get cfg name = Some h"
    using use by (cases "Get cfg name") (simp_all add: hostCmd_def Eprintln_def print_err_def os_Exit_def monad_simps)
  let ?cfg = "Remove name (Set ''default'' (Addr h) (TLS h) cfg)"
  have save: "save_hosts M ?cfg p = (Ok (), p')"
    using use h by (simp add: hostCmd_def)
  have "utf8_valid (Addr h)"
    using h assms(2) by (auto simp: Get_def config_ok_def host_ok_def dest!: map_of_SomeD)
  then have "config_ok ?cfg"
    by (intro config_ok_Remove config_ok_Set) (use assms(2) in \<open>auto intro!: utf8_valid_ascii\<close>)
  from saved_hosts [OF assms(1) this save] assms(5)
  show ?thesis by (intro exI [of _ ?cfg]) (simp add: Get_Set Get_Remove h)
qed

theorem use_removes_host_witness:
  "\<exists>files p' cfg'. main sample_machine [''sharelock'', ''host'', ''use'', ''default''] (sample_process files) = (Ok (), p')
    \<and> out p' = [Str (''ok'' @ line_feed)]
    \<and> Load disk_fs [''SHARELOCK_CONFIG_DIR'' \<mapsto> ''/c''] (disk p') = (Ok cfg', disk p') \<and> Get cfg' ''default'' = None"
proof -
  let ?cfg = "\<lparr>Hosts = [(''default'', \<lparr>Addr = ''a:1'', TLS = True\<rparr>)], config_file = path_Join [''/c'', ''.hosts'']\<rparr>"
  let ?p = "sample_process [path_Join [''/c'', ''.hosts''] \<mapsto> bytes_of_string (json_indent 0 (enc_hosts (Hosts ?cfg)))]"
  have ok: "config_ok ?cfg"
    by (auto intro!: utf8_valid_ascii simp: config_ok_def host_ok_def gm_wf_def)
  then have load: "Load (m_fs sample_machine) (m_env sample_machine) (disk ?p) = (Ok ?cfg, disk ?p)"
    by (intro Load_text) simp_all
  obtain p' where run: "main sample_machine [''sharelock'', ''host'', ''use'', ''default''] ?p = (Ok (), p')"
    using sample_save_hosts unfolding main_host [OF load] by (simp add: hostCmd_def Get_def) blast
  from use_removes_host [OF _ ok load run] run show ?thesis using disk_fs_ok by auto
qed

section \<open>Commands and sessions\<close>

lemma with_Disconnect_simps:
  "m p = (Err n, p') \<Longrightarrow> with_Disconnect deferred m p = (Err n, p')"
  "m p = (Panic q, p') \<Longrightarrow> \<exists>p''. with_Disconnect deferred m p = (Panic q, p'')"
  by (simp_all add: with_Disconnect_def)

text \<open>
  C38: no session, no access. A command that works on files ends with exit code 1 unless the disk holds
  a session whose user can be loaded; it prints no result and leaves the disk alone, and
  without a session it does not even contact the server.
\<close>

theorem user_commands_need_login:
  assumes "cmd \<in> set userCommands" "Load (m_fs M) (m_env M) (disk p) = (Ok cfg, disk p)"
    and "case LoadSession (m_fs M) (m_env M) (disk p) of None \<Rightarrow> True
      | Some (u, pw) \<Rightarrow> \<exists>e c. app_GetUser (m_ext M) (services_of M) u pw (connected M cfg (cli p)) = (Err e, c)"
  shows "\<exists>p'. main M (prog # cmd # args) p = (Err 1, p') \<and> disk p' = disk p \<and> out p' = out p
    \<and> (LoadSession (m_fs M) (m_env M) (disk p) = None \<longrightarrow>
         remote_db (backend (cli p')) = remote_db (backend (cli p)) \<and> dials (backend (cli p')) = dials (backend (cli p)))"
proof -
  let ?p = "p\<lparr>cli := connected M cfg (cli p)\<rparr>"
  obtain deferred where run: "main M (prog # cmd # args) p =
      with_Disconnect deferred (bnd (require_login M) (\<lambda>_. run_command M (prog # cmd # args))) ?p"
    using main_user_command [OF assms(2,1)] .
  have "\<exists>p'. require_login M ?p = (Err 1, p') \<and> disk p' = disk p \<and> out p' = out p
    \<and> (LoadSession (m_fs M) (m_env M) (disk p) = None \<longrightarrow> cli p' = cli ?p)"
  proof (cases "LoadSession (m_fs M) (m_env M) (disk p)")
    case None
    then show ?thesis
      by (simp add: require_login_def monad_simps Eprintln_def print_err_def os_Exit_def)
  next
    case (Some session)
    then obtain u pw e c where "session = (u, pw)"
      "app_GetUser (m_ext M) (services_of M) u pw (connected M cfg (cli p)) = (Err e, c)"
      using assms(3) by (auto split: prod.splits)
    then show ?thesis using Some by (simp add: require_login_def monad_simps)
  qed
  then obtain p' where p': "require_login M ?p = (Err 1, p')" "disk p' = disk p" "out p' = out p"
    "LoadSession (m_fs M) (m_env M) (disk p) = None \<longrightarrow> cli p' = cli ?p" by (elim exE conjE)
  from p' show ?thesis
    unfolding run by (intro exI [of _ p']) (simp add: with_Disconnect_simps(1) bnd_Err)
qed

theorem user_commands_need_login_witness:
  "\<exists>p'. main sample_machine [''sharelock'', ''load'', ''-f'', ''x''] (sample_process Map.empty) = (Err 1, p') \<and> out p' = []"
proof -
  let ?p = "sample_process Map.empty"
  have "Load (m_fs sample_machine) (m_env sample_machine) (disk ?p)
      = (Ok \<lparr>Hosts = [], config_file = path_Join [''/c'', ''.hosts'']\<rparr>, disk ?p)"
    by (simp add: sample_Load_empty)
  moreover have "LoadSession (m_fs sample_machine) (m_env sample_machine) (disk ?p) = None"
    by (simp add: LoadSession_def)
  ultimately show ?thesis
    using user_commands_need_login [of "''load''" sample_machine ?p _ "''sharelock''" "[''-f'', ''x'']"]
    by (auto simp: userCommands_def)
qed

text \<open>What the flag sets of the commands make of the documented arguments.\<close>

lemmas flag_simps = fs_Parse_def parse_string_flag find_flag_def String_flag_def string_value_def default_values_def

lemma legacy_names:
  assumes "cmd \<in> set legacy_commands"
  shows "cmd \<notin> set userCommands"
    and "cmd \<notin> {''--help'', ''-h'', ''version'', ''--version'', ''host'', ''hosts'', ''read''}"
  using assms unfolding legacy_commands_def list.set
  by (elim insertE emptyE; simp add: userCommands_def)+

lemma legacy_run:
  assumes "cmd \<in> set legacy_commands"
  shows "run_command M (prog # cmd # args) = runLegacy M cmd args"
proof -
  have "\<forall>c \<in> set [''init'', ''login'', ''logout'', ''store'', ''load'', ''append'', ''share'', ''accept'', ''revoke'', ''list'', ''read''].
      cmd \<noteq> c"
    using assms unfolding legacy_commands_def list.set by (elim insertE emptyE) simp_all
  then show ?thesis using assms by (simp add: run_command_def)
qed

lemma warned:
  "runLegacy M cmd args p = (if cmd = ''inituser'' then cmdInit M args else
     if cmd = ''getuser'' then cmdLogin M args else
     if cmd = ''storefile'' then cmdStore M args else
     if cmd = ''loadfile'' then cmdLoad M args else
     if cmd = ''appendtofile'' then cmdAppend M args else
     if cmd = ''createinvitation'' then cmdShare M args else
     if cmd = ''acceptinvitation'' then cmdAccept M args else
     if cmd = ''revokeaccess'' then cmdRevoke M args else ret ())
   (p\<lparr>err := err p @ [Str (''Warning: '' @ apos @ cmd @ apos @ '' is deprecated. Use '' @ apos @ ''sharelock '' @ legacyAlias cmd @ apos
           @ '' instead.'' @ line_feed @ line_feed)]\<rparr>)"
  unfolding runLegacy_def print_err_def by (simp only: bnd_def modify_def prod.case outcome.case)

lemma cmdStore_crash:
  assumes "user (cli p) = None" "path \<noteq> []" "fs_ReadFile (m_fs M) path (disk p) = Ok content"
  shows "\<exists>q p'. cmdStore M [''-f'', path] p = (Panic q, p')"
  using assms
  by (simp add: cmdStore_def flag_simps monad_simps app_StoreFile_def with_user_def Let_def del: parse_flags.simps(2))

lemma cmdLoad_crash:
  assumes "user (cli p) = None" "name \<noteq> []"
  shows "\<exists>q p'. cmdLoad M [''-f'', name] p = (Panic q, p')"
  using assms
  by (simp add: cmdLoad_def flag_simps monad_simps app_LoadFile_def with_user_def Let_def del: parse_flags.simps(2))

lemma cmdAppend_crash:
  assumes "user (cli p) = None" "name \<noteq> []"
  shows "\<exists>q p'. cmdAppend M [''-f'', name, ''-c'', added] p = (Panic q, p')"
  using assms
  by (simp add: cmdAppend_def flag_simps monad_simps app_AppendToFile_def with_user_def Let_def del: parse_flags.simps(2))

lemma cmdShare_crash:
  assumes "user (cli p) = None" "name \<noteq> []" "other \<noteq> []"
  shows "\<exists>q p'. cmdShare M [''-f'', name, ''-r'', other] p = (Panic q, p')"
  using assms
  by (simp add: cmdShare_def flag_simps monad_simps app_CreateInvitation_def with_user_def Let_def del: parse_flags.simps(2))

lemma cmdAccept_crash:
  assumes "\<not> has_services (cli p)" "name \<noteq> []" "other \<noteq> []" "ident \<noteq> []" "x_uuid_parse (m_ext M) ident = Some u"
  shows "\<exists>q p'. cmdAccept M [''-s'', other, ''-i'', ident, ''-f'', name] p = (Panic q, p')"
  using assms
  by (simp add: cmdAccept_def flag_simps monad_simps app_AcceptInvitation_def Let_def del: parse_flags.simps(2))

lemma cmdRevoke_crash:
  assumes "user (cli p) = None" "name \<noteq> []" "other \<noteq> []"
  shows "\<exists>q p'. cmdRevoke M [''-f'', name, ''-r'', other] p = (Panic q, p')"
  using assms
  by (simp add: cmdRevoke_def flag_simps monad_simps app_RevokeAccess_def with_user_def Let_def del: parse_flags.simps(2))

text \<open>
  C39: the deprecated command names crash. \<open>main\<close> loads the session only for the new names, so for the
  old names of the file commands there is no user and there are no services: given the arguments they are
  documented with, and whether or not somebody is logged in, they panic on a nil pointer.
\<close>

theorem legacy_commands_crash:
  assumes "Load (m_fs M) (m_env M) (disk p) = (Ok cfg, disk p)" "user (cli p) = None" "\<not> has_services (cli p)"
    and "path \<noteq> []" "fs_ReadFile (m_fs M) path (disk p) = Ok content"
    and "name \<noteq> []" "other \<noteq> []" "ident \<noteq> []" "x_uuid_parse (m_ext M) ident = Some u"
    and "args \<in> {[''storefile'', ''-f'', path], [''loadfile'', ''-f'', name], [''appendtofile'', ''-f'', name, ''-c'', added],
      [''createinvitation'', ''-f'', name, ''-r'', other], [''acceptinvitation'', ''-s'', other, ''-i'', ident, ''-f'', name],
      [''revokeaccess'', ''-f'', name, ''-r'', other]}"
  shows "\<exists>q p'. main M (prog # args) p = (Panic q, p')"
proof -
  let ?p = "p\<lparr>cli := connected M cfg (cli p)\<rparr>"
  obtain cmd rest where args: "args = cmd # rest"
    using assms(10) by (cases args) simp_all
  have cmd: "cmd \<in> set legacy_commands"
    using assms(10) unfolding args insert_iff list.inject by (elim disjE conjE emptyE) (simp_all add: legacy_commands_def)
  obtain deferred where run: "main M (prog # cmd # rest) p = with_Disconnect deferred (run_command M (prog # cmd # rest)) ?p"
    using main_other_command [OF assms(1) legacy_names [OF cmd]] .
  have none: "user (cli ?p) = None" "\<not> has_services (cli ?p)" "disk ?p = disk p" using assms(2,3) by simp_all
  have "\<exists>q p'. runLegacy M cmd rest ?p = (Panic q, p')"
    using assms(10) unfolding args insert_iff list.inject empty_iff
  proof (elim disjE conjE)
    assume "cmd = ''storefile''" "rest = [''-f'', path]"
    then show ?thesis using assms(4-9) none by (simp add: warned cmdStore_crash)
  next
    assume "cmd = ''loadfile''" "rest = [''-f'', name]"
    then show ?thesis using assms(4-9) none by (simp add: warned cmdLoad_crash)
  next
    assume "cmd = ''appendtofile''" "rest = [''-f'', name, ''-c'', added]"
    then show ?thesis using assms(4-9) none by (simp add: warned cmdAppend_crash)
  next
    assume "cmd = ''createinvitation''" "rest = [''-f'', name, ''-r'', other]"
    then show ?thesis using assms(4-9) none by (simp add: warned cmdShare_crash)
  next
    assume "cmd = ''acceptinvitation''" "rest = [''-s'', other, ''-i'', ident, ''-f'', name]"
    then show ?thesis using assms(4-9) none by (simp add: warned cmdAccept_crash)
  next
    assume "cmd = ''revokeaccess''" "rest = [''-f'', name, ''-r'', other]"
    then show ?thesis using assms(4-9) none by (simp add: warned cmdRevoke_crash)
  qed simp
  then have "\<exists>q p'. run_command M (prog # args) ?p = (Panic q, p')" unfolding args legacy_run [OF cmd] .
  then show ?thesis unfolding args run using with_Disconnect_simps(2) by blast
qed

theorem legacy_commands_crash_witness:
  "\<exists>q p'. main sample_machine [''sharelock'', ''loadfile'', ''-f'', ''x''] (sample_process [''/f'' \<mapsto> [1]]) = (Panic q, p')"
proof -
  let ?p = "sample_process [''/f'' \<mapsto> [1]]" and ?id = "x_uuid_string sample nil_uuid"
  have "path_Join [''/c'', ''.hosts''] = ''/c/.hosts''"
    by (simp add: path_Join_def path_Clean_def)
  then have load: "Load (m_fs sample_machine) (m_env sample_machine) (disk ?p)
      = (Ok \<lparr>Hosts = [], config_file = path_Join [''/c'', ''.hosts'']\<rparr>, disk ?p)"
    by (simp add: sample_Load_empty)
  have id: "x_uuid_parse (m_ext sample_machine) ?id = Some nil_uuid" "length ?id = 36"
    using sample_uuid_ok by (simp_all add: uuid_ok_def)
  then have "?id \<noteq> []" by auto
  moreover have "fs_ReadFile (m_fs sample_machine) ''/f'' (disk ?p) = Ok [1]" by simp
  ultimately show ?thesis
    using legacy_commands_crash [of sample_machine ?p _ "''/f''" "[1]" "''x''" "''bob''" ?id, OF load] id(1) by simp
qed

end
