(* ===== verification/Backend_Store.thy ===== *)
theory Backend_Store
  imports Backend_Properties
begin

text \<open>
  \<open>StoreFile\<close> on the instrumented memory: it stays within what a storage promises exactly when the
  entries it writes do. With this the refinement theorems apply to a session that stores a file
  once the sizes of these entries are known.
\<close>

definition cput :: "promises \<Rightarrow> UUID \<Rightarrow> bytes \<Rightarrow> (checked, 'z) world_scheme \<Rightarrow> (checked, 'z) world_scheme" where
  "cput P k v m = m\<lparr>backend := (backend m)\<lparr>mem_store := (mem_store (backend m))(k \<mapsto> v),
     fitted := fitted (backend m) \<and> ok_entry P k v\<rparr>\<rparr>"

fun cput_all :: "promises \<Rightarrow> (UUID \<times> bytes) list \<Rightarrow> (checked, 'z) world_scheme \<Rightarrow> (checked, 'z) world_scheme" where
  "cput_all P [] m = m"
| "cput_all P ((k, v) # kvs) m = cput_all P kvs (cput P k v m)"

lemma checked_Set [monad_simps]:
  "on_backend (st_Set (svc_storage (checked_services P)) k v) m = (Ok (), cput P k v m)"
  by (simp add: checked_services_def on_backend_def cput_def)

lemma cput_sel [simp]: "draws (cput P k v m) = draws m" "self (cput P k v (m' :: checked session)) = self m'"
  by (simp_all add: cput_def)

lemma cput_draws [monad_simps]: "cput P k v (m\<lparr>draws := n\<rparr>) = (cput P k v m)\<lparr>draws := n\<rparr>"
  by (simp add: cput_def)

lemma cput_self [monad_simps]: "cput P k v (m\<lparr>self := u\<rparr>) = (cput P k v m)\<lparr>self := u\<rparr>"
  by (simp add: cput_def)

lemma cput_all_sel [simp]: "draws (cput_all P kvs m) = draws m" "self (cput_all P kvs (m' :: checked session)) = self m'"
  by (induction kvs arbitrary: m m') auto

lemma cput_all_draws [monad_simps]: "cput_all P kvs (m\<lparr>draws := n\<rparr>) = (cput_all P kvs m)\<lparr>draws := n\<rparr>"
  by (induction P kvs m rule: cput_all.induct) (auto simp: cput_draws)

lemma cput_all_self [monad_simps]: "cput_all P kvs (m\<lparr>self := u\<rparr>) = (cput_all P kvs m)\<lparr>self := u\<rparr>"
  by (induction P kvs m rule: cput_all.induct) (auto simp: cput_self)

lemma cput_all_append: "cput_all P (kvs @ kvs') m = cput_all P kvs' (cput_all P kvs m)"
  by (induction P kvs m rule: cput_all.induct) auto

lemma cput_all_bounds: "in_bounds (cput_all P kvs m) \<longleftrightarrow> in_bounds m \<and> (\<forall>(k, v) \<in> set kvs. ok_entry P k v)"
  by (induction P kvs m rule: cput_all.induct) (auto simp: cput_def)

lemma store_blocks_checked:
  assumes "crypto_ok X" "uuid_ok X"
  shows "store_blocks X (checked_services P) wrap ek mk fbs acc m =
    (Ok (acc @ map fst (block_puts X (ek, mk) (draws m) fbs)),
     (cput_all P (block_puts X (ek, mk) (draws m) fbs) m)\<lparr>draws := draws m + 2 * length fbs\<rparr>)"
proof (induction fbs arbitrary: acc m)
  case (Cons fb fbs)
  show ?case
    using assms by (simp add: monad_simps uuid_New_ok encryptAndMAC_ok Cons)
qed (simp add: monad_simps)

lemma saveUser_checked:
  assumes "crypto_ok X" "uuid_ok X" "length (u_MasterKey u) = 16"
  shows "saveUser X (Some (svc_storage (checked_services P))) D u m =
    (Ok (), (cput P (user_uuid X (u_Username u))
       (sealed_json X (draws m) (enc_user X u) (user_keys X (u_MasterKey u))) m)\<lparr>draws := Suc (draws m)\<rparr>)"
  using assms
  by (simp add: saveUser_def monad_simps marshal_def hashKDF_ok encryptAndMAC_ok hashed_user_uuid
      user_keys_def sealed_json_def)

lemma StoreFile_checked:
  assumes "crypto_ok X" "uuid_ok X" "length (u_MasterKey (self m)) = 16"
  shows "StoreFile X (checked_services P) filename content m =
    (Ok (), (cput_all P (store_puts X (self m) (draws m) filename content) m)
       \<lparr>draws := draws m + 8 + 2 * block_num (length content), self := with_file X (self m) filename\<rparr>)"
proof -
  define u where "u = (self m)\<lparr>u_Files := Some (files_of (self m))\<rparr>"
  have init: "make_files m = (Ok (), m\<lparr>self := u\<rparr>)"
    by (cases "u_Files (self m)") (auto simp: u_def files_of_def make_files_def modify_def)
  have u: "u_Username u = u_Username (self m)" "u_MasterKey u = u_MasterKey (self m)"
    "u_Files u = Some (files_of (self m))"
    "u\<lparr>u_Files := Some (gm_set filename (access_uuid X (u_Username (self m)) filename) (files_of (self m)))\<rparr>
      = with_file X (self m) filename"
    by (simp_all add: u_def with_file_def)
  show ?thesis
    using assms init unfolding StoreFile_def
    by (simp add: monad_simps randomBytes_ok uuid_New_ok marshal_def Let_def encryptAndMAC_ok
      getPersonalKey_eq getFileKeys_eq length_rand_at hashed_access_uuid store_blocks_checked case_prod_beta
      set_file_def save_self_def saveUser_checked u store_puts_def cput_all_append sealed_json_def
      new_node_def new_access_def new_inode_def fst_block_puts length_ByteToBlock)
      (simp add: eval_nat_numeral)
qed

section \<open>Two calls of a client\<close>

lemma run_two:
  "fst (run_calls X S [k, l] c) = [Ok a, Ok b] \<longleftrightarrow>
     (\<exists>c1. run_call X S k c = (Ok a, c1) \<and> run_call X S l c1 = (Ok b, snd (run_calls X S [k, l] c)))"
  by (auto split: prod.splits outcome.splits)

lemma GetUser_call_Ok:
  "run_call X S (GetUser_call n p) c = (Ok Nothing, c1) \<longleftrightarrow> app_GetUser X S n p c = (Ok (), c1)"
  by (auto simp: bnd_eq_Ok ret_def)

lemma StoreFile_call_Ok:
  "run_call X S (StoreFile_call fn b) c = (Ok Nothing, c1) \<longleftrightarrow> app_StoreFile X S fn b c = (Ok (), c1)"
  by (auto simp: bnd_eq_Ok ret_def)

lemma LoadFile_call_Ok:
  "run_call X S (LoadFile_call fn) c = (Ok (Content b), c1) \<longleftrightarrow> app_LoadFile X S fn c = (Ok b, c1)"
  by (auto simp: bnd_eq_Ok ret_def)

section \<open>The calls on a map\<close>

definition session_of :: "(UUID \<rightharpoonup> bytes) \<Rightarrow> (string \<rightharpoonup> iface) \<Rightarrow> nat \<Rightarrow> User \<Rightarrow> memory session" where
  "session_of \<sigma> K d u = \<lparr>draws = d, backend = \<lparr>mem_store = \<sigma>, mem_keys = K\<rparr>, self = u\<rparr>"

definition account :: "ext \<Rightarrow> (UUID \<rightharpoonup> bytes) \<Rightarrow> string \<Rightarrow> string \<Rightarrow> User \<Rightarrow> bool" where
  "account X \<sigma> username password u \<longleftrightarrow>
     user_at X \<sigma> u \<and> u_Username u = username \<and> u_MasterKey u = master_key X username password"

lemma login_memory:
  assumes "crypto_ok X" "uuid_ok X" "account X \<sigma> username password u"
  shows "app_GetUser X memory_services username password (new_client \<lparr>mem_store = \<sigma>, mem_keys = K\<rparr> d)
    = (Ok (), (new_client \<lparr>mem_store = \<sigma>, mem_keys = K\<rparr> d)\<lparr>has_services := True, user := Some u\<rparr>)"
proof -
  let ?w = "(new_client \<lparr>mem_store = \<sigma>, mem_keys = K\<rparr> d)\<lparr>has_services := True\<rparr>"
  have "GetUser X memory_services username password ?w = (Ok u, ?w)"
    using assms(3) by (intro GetUser_memory [OF assms(1,2)]) (auto simp: account_def user_at_def new_client_def)
  then show ?thesis by (simp add: app_GetUser_def ensureServices_def set_user_def monad_simps)
qed

lemma store_memory:
  assumes "crypto_ok X" "uuid_ok X" "account X \<sigma> username password u" "utf8_valid fn"
    and "can_store X fn content (session_of \<sigma> K d u)"
  defines "s \<equiv> after_store X fn content (session_of \<sigma> K d u)"
  shows "\<exists>w. run_calls X memory_services [GetUser_call username password, StoreFile_call fn content]
      (new_client \<lparr>mem_store = \<sigma>, mem_keys = K\<rparr> d) = ([Ok Nothing, Ok Nothing], w) \<and> mem_store (backend w) = store_of s"
    and "account X (store_of s) username password (self s)"
    and "view X (store_of s) (self s) fn (new_access X d) (new_node X d) (new_inode X d content) content"
proof -
  have s: "StoreFile X memory_services fn content (session_of \<sigma> K d u) = (Ok (), s)"
    using assms(5) unfolding s_def by (intro StoreFile_after [OF assms(1,2)]) (simp add: can_store_def)
  then show "\<exists>w. run_calls X memory_services [GetUser_call username password, StoreFile_call fn content]
      (new_client \<lparr>mem_store = \<sigma>, mem_keys = K\<rparr> d) = ([Ok Nothing, Ok Nothing], w) \<and> mem_store (backend w) = store_of s"
    using login_memory [OF assms(1-3), of K d]
    by (simp add: monad_simps app_StoreFile_def with_user_def new_client_def session_of_def)
  show "view X (store_of s) (self s) fn (new_access X d) (new_node X d) (new_inode X d content) content"
    using after_store_view [OF assms(1,2,5)] by (simp add: s_def session_of_def)
  have "user_wf u" using assms(3) by (simp add: account_def user_at_def)
  then have "user_at X (store_of s) (self s)"
    unfolding s_def by (intro after_store_user [OF assms(1) _ assms(4,5)]) (simp add: session_of_def)
  then show "account X (store_of s) username password (self s)"
    using assms(3) by (simp add: account_def s_def session_of_def with_file_def)
qed

lemma load_memory:
  assumes "crypto_ok X" "uuid_ok X" "account X \<sigma> username password u" "view X \<sigma> u fn a node inode content"
  shows "fst (run_calls X memory_services [GetUser_call username password, LoadFile_call fn]
      (new_client \<lparr>mem_store = \<sigma>, mem_keys = K\<rparr> d)) = [Ok Nothing, Ok (Content content)]"
proof -
  have "LoadFile X memory_services fn (session_of \<sigma> K d u) = (Ok content, session_of \<sigma> K d u)"
    using assms(4) by (intro LoadFile_view [OF assms(1,2)]) (simp add: session_of_def)
  then show ?thesis
    using login_memory [OF assms(1-3), of K d]
    by (simp add: monad_simps app_LoadFile_def with_user_def new_client_def session_of_def)
qed

section \<open>Storing within the promises\<close>

lemma within_store:
  assumes "crypto_ok X" "uuid_ok X" "uuid_typed X" "reads_ok P" "account X \<sigma> username password u"
    and "\<forall>(k, v) \<in> set (store_puts X u d fn content). ok_entry P k v"
  shows "within X P [GetUser_call username password, StoreFile_call fn content] (new_client \<lparr>mem_store = \<sigma>, mem_keys = K\<rparr> d)"
proof -
  let ?w = "new_client \<lparr>mem_store = \<sigma>, mem_keys = K\<rparr> d"
  let ?get = "GetUser_call username password"
  obtain r m1 where get: "run_call X (checked_services P) ?get (instrument ?w) = (r, m1)"
    by (cases "run_call X (checked_services P) ?get (instrument ?w)")
  have m1: "in_bounds m1"
    using asks_reading_call [OF assms(4,3), of ?get] instrument_in_bounds get unfolding asks_def by (metis reading_call.simps(1) snd_conv)
  have "mirrors (holds P (\<lambda>_. True) mem_store mem_keys) ?w (instrument ?w)"
    by (auto simp: mirrors_def holds_def instrument_def new_client_def)
  note sim = simulatesD [OF memory_backend.sim_run_call this, of X ?get]
  have w: "run_call X memory_services ?get ?w = (Ok Nothing, ?w\<lparr>has_services := True, user := Some u\<rparr>)"
    using login_memory [OF assms(1,2,5), of K d] by (simp add: monad_simps)
  have r: "r = Ok Nothing" using sim(1) get m1 w by simp
  have m: "user m1 = Some u" "draws m1 = d"
    using mirrors_client [OF sim(2)] sim(2) get m1 w by (simp_all add: new_client_def mirrors_def)
  have "length (u_MasterKey (self (in_session m1 u))) = 16"
    using assms(1,5) by (simp add: account_def in_session_def)
  note store = StoreFile_checked [OF assms(1,2) this, of P fn content]
  have "in_bounds (snd (run_call X (checked_services P) (StoreFile_call fn content) m1))"
    using store m m1 assms(6) cput_all_bounds [of P "store_puts X u d fn content" "in_session m1 u"]
    by (simp add: app_StoreFile_def with_user_Some monad_simps in_session_def)
  then show ?thesis
    using get r by (auto simp: within_def split: prod.splits outcome.splits)
qed

end
