(* ===== verification/Json_Size.thy ===== *)
theory Json_Size
  imports Json
begin

text \<open>How long a JSON text can get: escaping makes at most six characters of one.\<close>

lemma length_escape_ascii: "length (escape_ascii c) \<le> 6"
  by (simp add: escape_ascii_def Let_def)

lemma length_json_escape: "length (json_escape s) \<le> 6 * length s"
proof (induction s rule: json_escape.induct)
  case (2 c cs)
  show ?case
  proof (cases "code c < 128")
    case True
    then show ?thesis using 2 length_escape_ascii [of c] by (simp add: json_escape.simps(2))
  next
    case False
    let ?n = "utf8_len (c # cs)"
    have n: "?n \<le> Suc (length cs)" using utf8_len_le [of "c # cs"] by simp
    show ?thesis
    proof (cases "?n = 0")
      case True
      then show ?thesis using False 2 by (simp add: json_escape.simps(2))
    next
      case pos: False
      have rest: "length (json_escape (drop (?n - 1) cs)) \<le> 6 * length (drop (?n - 1) cs)"
        using 2(3-5) [OF False refl pos] by blast
      have shape: "length (json_escape (c # cs)) \<le> max 6 ?n + length (json_escape (drop (?n - 1) cs))"
        using False pos by (auto simp: json_escape.simps(2) Let_def)
      have "?n \<le> 4" using utf8_len_cases [of "c # cs"] by auto
      with rest shape n show ?thesis by simp
    qed
  qed
qed simp

lemma length_show_nat: "length (show_nat n) \<le> Suc n"
proof (induction n rule: show_nat.induct)
  case (1 n)
  then show ?case by (cases "n < 10") (auto simp: show_nat.simps [of n])
qed

fun json_bound :: "json \<Rightarrow> nat" where
  "json_bound JNull = 4"
| "json_bound (JBool b) = 5"
| "json_bound (JNum s) = length s"
| "json_bound (JStr s) = 6 * length s + 2"
| "json_bound (JArr xs) = 2 + sum_list (map (\<lambda>v. 1 + json_bound v) xs)"
| "json_bound (JObj kvs) = 2 + sum_list (map (\<lambda>(k, v). 6 * length k + 4 + json_bound v) kvs)"

lemma length_print_sep: "length (print_sep ss) \<le> sum_list (map (\<lambda>s. 1 + length s) ss)"
  by (induction ss rule: print_sep.induct) auto

lemma json_print_bound: "length (json_print j) \<le> json_bound j"
proof (induction j)
  case (JArr xs)
  have "length (print_sep (map json_print xs)) \<le> sum_list (map (\<lambda>v. 1 + length (json_print v)) xs)"
    using length_print_sep [of "map json_print xs"] by (simp add: comp_def)
  also have "\<dots> \<le> sum_list (map (\<lambda>v. 1 + json_bound v) xs)"
    using JArr.IH by (intro sum_list_mono) simp
  finally show ?case by simp
next
  case (JObj kvs)
  have "length (print_sep (map print_member kvs)) \<le> sum_list (map (\<lambda>kv. 1 + length (print_member kv)) kvs)"
    using length_print_sep [of "map print_member kvs"] by (simp add: comp_def)
  also have "\<dots> \<le> sum_list (map (\<lambda>(k, v). 6 * length k + 4 + json_bound v) kvs)"
  proof (intro sum_list_mono)
    fix kv
    assume "kv \<in> set kvs"
    then have "length (json_print (snd kv)) \<le> json_bound (snd kv)" using JObj.IH [of kv "snd kv"] by (simp add: prod_set_defs)
    then show "1 + length (print_member kv) \<le> (case kv of (k, v) \<Rightarrow> 6 * length k + 4 + json_bound v)"
      using length_json_escape [of "fst kv"] by (cases kv) (simp add: json_quote_def)
  qed
  finally show ?case by simp
qed (use length_json_escape in \<open>auto simp: json_quote_def\<close>)

end
