(* ===== verification/Session_Properties.thy ===== *)
theory Session_Properties
  imports Cli_Properties Backend_Store Json_Size
begin

text \<open>
  The whole program at once: a file stored by one run of \<open>sharelock\<close> is printed by another run, on another machine,
  through the client, the network protocol, the server and the database.
\<close>

section \<open>A run of the process on top of them\<close>

text \<open>
  The machine has a host configured that can be dialled, and a session on its disk.
\<close>

definition host_name :: "('db, 'i, 'fs) machine \<Rightarrow> string" where
  "host_name M = (if Getenv (m_env M) ''SHARELOCK_HOST'' \<noteq> [] then Getenv (m_env M) ''SHARELOCK_HOST'' else ''default'')"

definition ready :: "('db, 'i, 'fs) machine \<Rightarrow> 'fs \<Rightarrow> string \<Rightarrow> string \<Rightarrow> bool" where
  "ready M s username password \<longleftrightarrow>
     (\<exists>cfg h. Load (m_fs M) (m_env M) s = (Ok cfg, s) \<and> LoadSession (m_fs M) (m_env M) s = Some (username, password)
        \<and> Get cfg (host_name M) = Some h \<and> Addr h \<noteq> [] \<and> (\<forall>i. dial_error (m_net M) i (TLS h) (Addr h) = None))"

text \<open>The client of a fresh process that has connected.\<close>

definition online :: "'db \<Rightarrow> nat \<Rightarrow> string \<Rightarrow> bool \<Rightarrow> 'db userlib client" where
  "online d n address tls = new_client ((new_userlib d)\<lparr>remoteAddr := address, useTLS := tls\<rparr>) n"

lemma online_looks_like:
  assumes "a \<noteq> []" "\<forall>i. dial_error N i tls a = None" "\<forall>k v. contents d k = Some v \<longrightarrow> length v < 2 ^ 32"
    and "\<forall>k. length k = 16 \<longrightarrow> contents d k = \<sigma> k"
  shows "looks_like (remote_promises fits) (remote_good N contents) (\<lambda>u. contents (remote_db u)) (remote_published contents)
     (online d n a tls) (new_client \<lparr>mem_store = \<sigma>, mem_keys = remote_published contents (new_userlib d)\<rparr> n)"
  using assms
  by (auto simp: looks_like_def online_def new_client_def new_userlib_def remote_good_def isConnected_def remote_published_def
      remote_promises_def)

text \<open>
  What the network client answers, and the map its database then stands for, when the map is a
  \<open>\<sigma>\<close> of its 16-byte keys.
\<close>

lemma online_run:
  assumes "badger_ok (served_by N) contents fits" "badger_calm (served_by N)"
    and "a \<noteq> []" "\<forall>i. dial_error N i tls a = None" "\<forall>k v. contents d k = Some v \<longrightarrow> length v < 2 ^ 32"
    and "\<forall>k. length k = 16 \<longrightarrow> contents d k = \<sigma> k" "\<forall>k. length k = 16 \<longrightarrow> fits k []"
    and "within X (remote_promises fits) ks (new_client \<lparr>mem_store = \<sigma>, mem_keys = remote_published contents (new_userlib d)\<rparr> n)"
    and "run_calls X memory_services ks (new_client \<lparr>mem_store = \<sigma>, mem_keys = remote_published contents (new_userlib d)\<rparr> n)
      = (rs, w)"
  obtains c where "run_calls X (userlib_services N) ks (online d n a tls) = (rs, c)"
    "\<forall>k. length k = 16 \<longrightarrow> contents (remote_db (backend c)) k = mem_store (backend w) k"
    "\<forall>k v. contents (remote_db (backend c)) k = Some v \<longrightarrow> length v < 2 ^ 32"
proof -
  obtain r c where c: "run_calls X (userlib_services N) ks (online d n a tls) = (r, c)"
    by (cases "run_calls X (userlib_services N) ks (online d n a tls)")
  have "r = rs \<and> looks_like (remote_promises fits) (remote_good N contents) (\<lambda>u. contents (remote_db u))
      (remote_published contents) c w"
    using backend_run [OF remote_backend [OF assms(1,2)] online_looks_like [where contents = contents and d = d and \<sigma> = \<sigma>, OF assms(3-6)] assms(8)] c assms(9) by simp
  then show ?thesis
    using that c assms(7) by (auto simp: looks_like_def remote_good_def remote_promises_def)
qed

lemma connected_online:
  "Get cfg (host_name M) = Some h \<Longrightarrow> Addr h \<noteq> [] \<Longrightarrow>
   connected M cfg (new_client (new_userlib d) n) = online d n (Addr h) (TLS h)"
  by (simp add: connected_def host_name_def online_def new_client_def)

lemma with_Disconnect_Ok:
  "m p = (Ok (), p') \<Longrightarrow> \<exists>b. with_Disconnect b' m p = (Ok (), p'\<lparr>cli := (cli p')\<lparr>backend := b\<rparr>\<rparr>) \<and> remote_db b = remote_db (backend (cli p'))"
  by (cases b') (auto simp: with_Disconnect_def on_cli_def on_backend_def Disconnect_def modify_def intro: exI [of _ "backend (cli p')"])

text \<open>A user command in a fresh process: the session is loaded, then the command runs as that user.\<close>

lemma user_command_run:
  assumes "Load (m_fs M) (m_env M) s = (Ok cfg, s)" "LoadSession (m_fs M) (m_env M) s = Some (username, password)"
    and "Get cfg (host_name M) = Some h" "Addr h \<noteq> []" "cmd \<in> set userCommands"
    and "app_GetUser (m_ext M) (services_of M) username password (online d n (Addr h) (TLS h)) = (Ok (), c1)"
    and "run_command M (prog # cmd # args) ((new_process d n s)\<lparr>cli := c1\<rparr>) = (Ok (), p')"
  shows "\<exists>b. main M (prog # cmd # args) (new_process d n s) = (Ok (), p'\<lparr>cli := (cli p')\<lparr>backend := b\<rparr>\<rparr>)
    \<and> remote_db b = remote_db (backend (cli p'))"
proof -
  let ?p = "(new_process d n s)\<lparr>cli := online d n (Addr h) (TLS h)\<rparr>"
  have load: "Load (m_fs M) (m_env M) (disk (new_process d n s)) = (Ok cfg, s)"
    using assms(1) by (simp add: new_process_def)
  have client: "connected M cfg (cli (new_process d n s)) = online d n (Addr h) (TLS h)"
    using connected_online [OF assms(3,4)] by (simp add: new_process_def)
  obtain deferred where "main M (prog # cmd # args) (new_process d n s) =
      with_Disconnect deferred (bnd (require_login M) (\<lambda>_. run_command M (prog # cmd # args))) ?p"
    using main_user_command [OF load assms(5), of prog args] unfolding client by blast
  moreover have "require_login M ?p = (Ok (), (new_process d n s)\<lparr>cli := c1\<rparr>)"
    using assms(2,6) by (simp add: require_login_def new_process_def monad_simps)
  ultimately show ?thesis
    using with_Disconnect_Ok [of "bnd (require_login M) (\<lambda>_. run_command M (prog # cmd # args))" ?p p' deferred] assms(7)
    by (simp add: bnd_Ok)
qed

lemma store_command:
  assumes "path \<noteq> []" "fs_ReadFile (m_fs M) path (disk p) = Ok content"
    and "app_StoreFile (m_ext M) (services_of M) (path_Base path) content (cli p) = (Ok (), c)"
  shows "run_command M [prog, ''store'', ''-f'', path] p = (Ok (), p\<lparr>cli := c, out := out p @ [Str (''ok'' @ line_feed)]\<rparr>)"
  using assms
  by (simp add: run_command_def cmdStore_def flag_simps monad_simps Let_def Println_def print_out_def del: parse_flags.simps(2))

lemma load_command:
  assumes "name \<noteq> []" "app_LoadFile (m_ext M) (services_of M) name (cli p) = (Ok content, c)"
  shows "run_command M [prog, ''load'', ''-f'', name] p = (Ok (), p\<lparr>cli := c, out := out p @ [Str (string_of_bytes content)]\<rparr>)"
  using assms
  by (simp add: run_command_def cmdLoad_def flag_simps monad_simps Let_def print_out_def del: parse_flags.simps(2))

text \<open>
  A user command whose service call has a known answer on the map that the database stands for: the run prints
  what the command makes of that answer, and the database stands for the map the call leaves.
\<close>

lemma command_session:
  assumes net: "badger_ok (served_by (m_net M)) contents fits" "badger_calm (served_by (m_net M))"
    and M: "ready M s username password" "cmd \<in> set userCommands"
    and db: "\<forall>k v. contents d k = Some v \<longrightarrow> length v < 2 ^ 32" "\<forall>k. length k = 16 \<longrightarrow> contents d k = \<sigma> k"
      "\<forall>k. length k = 16 \<longrightarrow> fits k []"
    and "within (m_ext M) (remote_promises fits) [GetUser_call username password, k]
      (new_client \<lparr>mem_store = \<sigma>, mem_keys = remote_published contents (new_userlib d)\<rparr> n)"
    and "run_calls (m_ext M) memory_services [GetUser_call username password, k]
      (new_client \<lparr>mem_store = \<sigma>, mem_keys = remote_published contents (new_userlib d)\<rparr> n) = ([Ok Nothing, Ok a], w)"
    and cmd: "\<And>c1 c2. run_call (m_ext M) (services_of M) k c1 = (Ok a, c2) \<Longrightarrow>
      run_command M (prog # cmd # args) ((new_process d n s)\<lparr>cli := c1\<rparr>) = (Ok (), (new_process d n s)\<lparr>cli := c2, out := printed\<rparr>)"
  obtains p where "main M (prog # cmd # args) (new_process d n s) = (Ok (), p)" "out p = printed"
    "\<forall>k. length k = 16 \<longrightarrow> contents (remote_db (backend (cli p))) k = mem_store (backend w) k"
    "\<forall>k v. contents (remote_db (backend (cli p))) k = Some v \<longrightarrow> length v < 2 ^ 32"
proof -
  obtain cfg h where M': "Load (m_fs M) (m_env M) s = (Ok cfg, s)" "LoadSession (m_fs M) (m_env M) s = Some (username, password)"
    "Get cfg (host_name M) = Some h" "Addr h \<noteq> []" "\<forall>i. dial_error (m_net M) i (TLS h) (Addr h) = None"
    using M(1) unfolding ready_def by blast
  obtain c where c: "run_calls (m_ext M) (services_of M) [GetUser_call username password, k] (online d n (Addr h) (TLS h))
      = ([Ok Nothing, Ok a], c)"
    and left: "\<forall>k. length k = 16 \<longrightarrow> contents (remote_db (backend c)) k = mem_store (backend w) k"
      "\<forall>k v. contents (remote_db (backend c)) k = Some v \<longrightarrow> length v < 2 ^ 32"
    by (rule online_run [OF net M'(4,5) db assms(8,9)])
  obtain c1 where c1: "app_GetUser (m_ext M) (services_of M) username password (online d n (Addr h) (TLS h)) = (Ok (), c1)"
    "run_call (m_ext M) (services_of M) k c1 = (Ok a, c)"
    using run_two [of "m_ext M" "services_of M" "GetUser_call username password" k "online d n (Addr h) (TLS h)" Nothing a] c
    by (auto simp: GetUser_call_Ok simp del: run_calls.simps run_call.simps)
  from user_command_run [OF M'(1-4) M(2) c1(1) cmd [OF c1(2)]] that left show ?thesis by auto
qed

section \<open>A sample account and two sample machines\<close>

definition alice_db :: "bytes \<rightharpoonup> bytes" where
  "alice_db = [user_uuid sample ''alice'' \<mapsto>
     seal sample (rand_at sample 2 16) (bytes_of_string (json_print (enc_user sample alice))) (user_keys sample (master_key sample ''alice'' ''pw''))]"

lemma alice_account: "account sample alice_db ''alice'' ''pw'' alice"
proof -
  have "u_MasterKey alice = master_key sample ''alice'' ''pw''" by (simp add: alice_def new_user_def)
  moreover have "sealed_at sample alice_db (user_uuid sample ''alice'') (enc_user sample alice) (user_keys sample (master_key sample ''alice'' ''pw''))"
    by (rule sealed_atI [of "rand_at sample 2 16"]) (simp_all add: alice_db_def length_rand_at)
  ultimately show ?thesis using alice_wf by (simp add: account_def user_at_def)
qed

lemma length_sealed_json: "length (sealed_json sample i j ks) \<le> json_bound j + 80"
  using json_print_bound [of j] by (simp add: sealed_json_def length_seal length_rand_at)

lemma sample_uuid_length: "length u = 16 \<Longrightarrow> length (x_uuid_string sample u) = 36"
  using sample_uuid_ok by (simp add: uuid_ok_def)

lemma alice_numbers: "rsa_at sample i = sample_rsa i"
  by (simp add: rsa_at_def sample_def)

lemmas bound_simps = enc_mailbox_def enc_access_def enc_inode_def enc_user_def enc_bytes_def enc_uuid_def enc_int_def enc_map_def
  enc_private_def enc_rsa_def new_node_def new_access_def new_inode_def with_file_def files_of_def length_b64_encode
  show_int_def show_nat.simps sample_uuid_length length_uuid_at length_rand_at alice_def new_user_def alice_numbers sample_rsa_def

lemma alice_sizes:
  "json_bound (enc_mailbox sample (new_node sample 6)) < 6000"
  "json_bound (enc_access sample (new_access sample 6)) < 6000"
  "json_bound (enc_inode sample (new_inode sample 6 [1, 2, 3])) < 6000"
  "json_bound (enc_user sample (with_file sample alice ''f'')) < 6000"
  "json_bound (enc_user sample alice) < 6000"
  by (simp_all add: bound_simps block_num_def BlockSize_def)

lemma alice_entries:
  "\<forall>(k, v) \<in> set (store_puts sample alice 6 ''f'' [1, 2, 3]). length k = 16 \<and> length v < 2 ^ 32 \<and> small_entry k v"
proof -
  have json: "length (sealed_json sample i j ks) < 7000" if "json_bound j < 6000" for i j ks
    using length_sealed_json [of i j ks] that by simp
  have block: "ByteToBlock [1, 2, 3] = [\<lparr>fb_BlockUUID = zero_UUID, fb_block = [1, 2, 3]\<rparr>]"
  proof -
    have "block_num (length [1 :: byte, 2, 3]) = Suc 0" by (simp add: block_num_def BlockSize_def)
    then show ?thesis by (simp only: ByteToBlock_def block_loop.simps) (simp add: block_at_def BlockSize_def slice_def)
  qed
  have "\<forall>(k, v) \<in> set (store_puts sample alice 6 ''f'' [1, 2, 3]). length k = 16 \<and> length v < 7000"
    unfolding store_puts_def Let_def block
    using alice_sizes by (auto intro!: json simp: length_uuid_at length_seal length_rand_at)
  then show ?thesis by (fastforce simp: small_entry_def)
qed

text \<open>A disk with a host table, the session of alice and a file.\<close>

definition alice_hosts :: Config where
  "alice_hosts = \<lparr>Hosts = [(''default'', \<lparr>Addr = ''localhost:8080'', TLS = True\<rparr>)], config_file = path_Join [''/c'', ''.hosts'']\<rparr>"

definition alice_disk :: disk where
  "alice_disk = \<lparr>disk_files = [path_Join [''/c'', ''.hosts''] \<mapsto> bytes_of_string (json_indent 0 (enc_hosts (Hosts alice_hosts))),
       path_Join [''/c'', ''.session''] \<mapsto> bytes_of_string (json_print (enc_session
          \<lparr>ss_Username = b64_encode (bytes_of_string ''alice''), ss_Password = b64_encode (bytes_of_string ''pw'')\<rparr>)),
       ''/f'' \<mapsto> [1, 2, 3]], disk_dirs = []\<rparr>"

lemma sample_joins: "path_Join [''/c'', ''.hosts''] = ''/c/.hosts''" "path_Join [''/c'', ''.session''] = ''/c/.session''"
  by (simp_all add: path_Join_def path_Clean_def)

lemma alice_ready: "ready sample_machine alice_disk ''alice'' ''pw''"
proof -
  have "config_ok alice_hosts"
    by (auto intro!: utf8_valid_ascii simp: alice_hosts_def config_ok_def host_ok_def gm_wf_def)
  then have "Load (m_fs sample_machine) (m_env sample_machine) alice_disk = (Ok alice_hosts, alice_disk)"
    by (intro Load_text) (simp_all add: alice_hosts_def alice_disk_def sample_joins)
  moreover have "LoadSession (m_fs sample_machine) (m_env sample_machine) alice_disk = Some (''alice'', ''pw'')"
  proof -
    have "fs_ReadFile disk_fs (sessionPath disk_fs [''SHARELOCK_CONFIG_DIR'' \<mapsto> ''/c''] alice_disk) alice_disk
        = Ok (bytes_of_string (json_print (enc_session
          \<lparr>ss_Username = b64_encode (bytes_of_string ''alice''), ss_Password = b64_encode (bytes_of_string ''pw'')\<rparr>)))"
      by (simp add: alice_disk_def sample_joins)
    from LoadSession_text [OF this] show ?thesis by simp
  qed
  moreover have "Get alice_hosts (host_name sample_machine) = Some \<lparr>Addr = ''localhost:8080'', TLS = True\<rparr>"
    by (simp add: alice_hosts_def Get_def host_name_def Getenv_def)
  moreover have "dial_error (m_net sample_machine) i t a = None" for i t a
    by (simp add: sample_machine_def sample_network_def)
  ultimately show ?thesis unfolding ready_def by fastforce
qed

section \<open>End to end\<close>

text \<open>
  C1: the whole program, end to end. A user with an account runs \<open>sharelock store\<close> on one machine and
  \<open>sharelock load\<close> on another, both logged in and configured with the same server: the first run
  reports ok, and the second prints exactly the bytes of the file that was stored, under its base name. Between
  them lie the flags, the session file, the client, the encryption, the protocol, the server and the
  database, of which only the last two are shared. The user's identifiers must be fresh, and the entries
  must be small enough for the database and for a 32-bit length.
\<close>

theorem stored_file_is_printed:
  assumes "crypto_ok (m_ext M)" "uuid_ok (m_ext M)" "uuid_typed (m_ext M)"
    and "badger_ok (served_by (m_net M)) contents fits" "badger_calm (served_by (m_net M))"
    and "m_ext M' = m_ext M" "m_net M' = m_net M"
    and "ready M s username password" "ready M' s' username password"
    and "path \<noteq> []" "fs_ReadFile (m_fs M) path s = Ok content" "utf8_valid (path_Base path)"
    and "account (m_ext M) (contents d) username password u"
    and "can_store (m_ext M) (path_Base path) content (session_of (contents d) (remote_published contents (new_userlib d)) n u)"
    and "\<forall>k v. contents d k = Some v \<longrightarrow> length v < 2 ^ 32" "\<forall>k. length k = 16 \<longrightarrow> fits k []"
    and "\<forall>(k, v) \<in> set (store_puts (m_ext M) u n (path_Base path) content). length k = 16 \<and> length v < 2 ^ 32 \<and> fits k v"
  shows "\<exists>p p'. main M [prog, ''store'', ''-f'', path] (new_process d n s) = (Ok (), p) \<and> out p = [Str (''ok'' @ line_feed)]
    \<and> main M' [prog', ''load'', ''-f'', path_Base path] (new_process (remote_db (backend (cli p))) n' s') = (Ok (), p')
    \<and> out p' = [Str (string_of_bytes content)]"
proof -
  let ?X = "m_ext M" and ?fn = "path_Base path"
  let ?K = "\<lambda>d. remote_published contents (new_userlib d)"
  let ?s = "after_store ?X ?fn content (session_of (contents d) (?K d) n u)"
  note stored = store_memory [OF assms(1,2,13,12,14)]
  have reads: "reads_ok (remote_promises fits)" using assms(16) by (simp add: reads_ok_def remote_promises_def)
  have entries: "\<forall>(k, v) \<in> set (store_puts ?X u n ?fn content). ok_entry (remote_promises fits) k v"
    using assms(17) by (simp add: remote_promises_def)
  obtain w where w: "run_calls ?X memory_services [GetUser_call username password, StoreFile_call ?fn content]
      (new_client \<lparr>mem_store = contents d, mem_keys = ?K d\<rparr> n) = ([Ok Nothing, Ok Nothing], w)" "mem_store (backend w) = store_of ?s"
    using stored(1) by blast
  obtain p where p: "main M [prog, ''store'', ''-f'', path] (new_process d n s) = (Ok (), p)" "out p = [Str (''ok'' @ line_feed)]"
    "\<forall>k. length k = 16 \<longrightarrow> contents (remote_db (backend (cli p))) k = mem_store (backend w) k"
    "\<forall>k v. contents (remote_db (backend (cli p))) k = Some v \<longrightarrow> length v < 2 ^ 32"
  proof (rule command_session [OF assms(4,5,8) _ assms(15) _ assms(16) within_store [OF assms(1-3) reads assms(13) entries] w(1)])
    fix c1 c2
    assume "run_call ?X (services_of M) (StoreFile_call ?fn content) c1 = (Ok Nothing, c2)"
    then show "run_command M [prog, ''store'', ''-f'', path] ((new_process d n s)\<lparr>cli := c1\<rparr>)
        = (Ok (), (new_process d n s)\<lparr>cli := c2, out := [Str (''ok'' @ line_feed)]\<rparr>)"
      using assms(10,11) unfolding StoreFile_call_Ok by (subst store_command [of path M _ content c2]) (simp_all add: new_process_def)
  qed (simp_all add: userCommands_def)
  let ?d = "remote_db (backend (cli p))"
  obtain w' where load: "run_calls (m_ext M') memory_services [GetUser_call username password, LoadFile_call ?fn]
      (new_client \<lparr>mem_store = store_of ?s, mem_keys = ?K ?d\<rparr> n') = ([Ok Nothing, Ok (Content content)], w')"
    using load_memory [OF assms(1,2) stored(2,3), of "?K ?d" n'] assms(6) by (metis surjective_pairing)
  have within: "within (m_ext M') (remote_promises fits) [GetUser_call username password, LoadFile_call ?fn]
      (new_client \<lparr>mem_store = store_of ?s, mem_keys = ?K ?d\<rparr> n')"
    unfolding assms(6) by (rule within_reading [OF reads assms(3)]) simp
  have agree: "\<forall>k. length k = 16 \<longrightarrow> contents ?d k = store_of ?s k" using p(3) w(2) by simp
  have net: "badger_ok (served_by (m_net M')) contents fits" "badger_calm (served_by (m_net M'))"
    using assms(4,5,7) by simp_all
  obtain p' where "main M' [prog', ''load'', ''-f'', ?fn] (new_process ?d n' s') = (Ok (), p')"
    "out p' = [Str (string_of_bytes content)]"
  proof (rule command_session [OF net assms(9) _ p(4) agree assms(16) within load])
    fix c1 c2
    assume "run_call (m_ext M') (services_of M') (LoadFile_call ?fn) c1 = (Ok (Content content), c2)"
    then show "run_command M' [prog', ''load'', ''-f'', ?fn] ((new_process ?d n' s')\<lparr>cli := c1\<rparr>)
        = (Ok (), (new_process ?d n' s')\<lparr>cli := c2, out := [Str (string_of_bytes content)]\<rparr>)"
      unfolding LoadFile_call_Ok by (subst load_command [of ?fn M' _ content c2]) (simp_all add: new_process_def path_Base_nonempty)
  qed (simp_all add: userCommands_def)
  then show ?thesis using p(1,2) by blast
qed

theorem stored_file_is_printed_witness:
  "\<exists>p p'. main sample_machine [''sharelock'', ''store'', ''-f'', ''/f''] (new_process alice_db 6 alice_disk) = (Ok (), p)
    \<and> main sample_machine [''sharelock'', ''load'', ''-f'', ''f''] (new_process (remote_db (backend (cli p))) 100 alice_disk) = (Ok (), p')
    \<and> out p' = [Str (string_of_bytes [1, 2, 3])]"
proof -
  have base: "path_Base ''/f'' = ''f''" by (simp add: path_Base_def path_Split_def)
  have can: "can_store sample ''f'' [1, 2, 3] (session_of (id alice_db) K 6 alice)" for K
    by (rule alice_can_store) (auto simp: session_of_def alice_db_def sample_ids_def sample_name_ids byte_of_char_def)
  have net: "badger_ok (served_by (m_net sample_machine)) id small_entry" "badger_calm (served_by (m_net sample_machine))"
    using map_badger_ok map_badger_calm by (simp_all add: sample_machine_def sample_network_def)
  have "length (seal sample (rand_at sample 2 16) (bytes_of_string (json_print (enc_user sample alice))) ks) < 2 ^ 32" for ks
    using json_print_bound [of "enc_user sample alice"] alice_sizes(5) by (simp add: length_seal length_rand_at)
  then have sizes: "\<forall>k v. id alice_db k = Some v \<longrightarrow> length v < 2 ^ 32"
    by (simp add: alice_db_def)
  have content: "fs_ReadFile (m_fs sample_machine) ''/f'' alice_disk = Ok [1, 2, 3]"
    by (simp add: alice_disk_def)
  have name: "utf8_valid ''f''" by (rule utf8_valid_ascii) auto
  have reads: "\<forall>k :: bytes. length k = 16 \<longrightarrow> small_entry k []" by (auto simp: small_entry_def)
  show ?thesis
    using stored_file_is_printed [where M = sample_machine and M' = sample_machine and path = "''/f''" and d = alice_db
        and contents = id and fits = small_entry and u = alice and n = 6 and prog = "''sharelock''" and prog' = "''sharelock''" and n' = 100,
        OF _ _ _ net refl refl alice_ready alice_ready _ content] can alice_account alice_entries sizes name reads
    by (auto simp: base sample_uuid_typed)
qed

end
