(* ===== verification/Server_Start.thy ===== *)
theory Server_Start
  imports Server_Properties Go_Flag
begin

text \<open>
  How the server starts: the command \<open>cmd/server/main.go\<close> with its flags, and \<open>New\<close> and the part of \<open>Run\<close>
  before the accept loop of \<open>internal/server/server.go\<close>. Opening the database, loading the
  certificate and listening are the outside's: \<open>boot\<close> says what they answer.
\<close>

record 'db boot =
  badger_Open :: "string \<Rightarrow> string + 'db"
  LoadX509KeyPair :: "string \<Rightarrow> string \<Rightarrow> string option"
  Listen :: "bool \<Rightarrow> string \<Rightarrow> string option"

record server_config =
  srv_Addr :: string
  srv_DataDir :: string
  srv_Cert :: string
  srv_Key :: string
  srv_TLSEnabled :: bool

text \<open>\<open>store.Open\<close>, and the server with its store.\<close>

definition Store_Open :: "'db boot \<Rightarrow> string \<Rightarrow> (go_error, 'db) outcome" where
  "Store_Open W dir = (case badger_Open W dir of Inl e \<Rightarrow> Err (External e) | Inr d \<Rightarrow> Ok d)"

definition New_server :: "'db boot \<Rightarrow> server_config \<Rightarrow> (go_error, 'db \<times> server_config) outcome" where
  "New_server W cfg = obind (Store_Open W (srv_DataDir cfg)) (\<lambda>s. Ok (s, cfg))"

text \<open>\<open>Run\<close> up to the accept loop, which it then never leaves: the state the loop starts in.\<close>

definition Run :: "'db boot \<Rightarrow> 'db \<times> server_config \<Rightarrow> (go_error, 'db server) outcome" where
  "Run W = (\<lambda>(contents, cfg).
     if srv_TLSEnabled cfg then
       (case LoadX509KeyPair W (srv_Cert cfg) (srv_Key cfg) of
         Some e \<Rightarrow> Err (External e)
       | None \<Rightarrow> (case Listen W True (srv_Addr cfg) of
           Some e \<Rightarrow> Err (External e)
         | None \<Rightarrow> Ok (server_start contents)))
     else (case Listen W False (srv_Addr cfg) of
         Some e \<Rightarrow> Err (External e)
       | None \<Rightarrow> Ok (server_start contents)))"

text \<open>The line the server logs when it starts to accept.\<close>

definition listening_line :: "server_config \<Rightarrow> string" where
  "listening_line cfg =
     (let proto = (if srv_TLSEnabled cfg then ''TLS'' else ''TCP'') in
      ''server listening on '' @ srv_Addr cfg @ '' ('' @ proto @ '', data: '' @ srv_DataDir cfg @ '')'')"

text \<open>
  How \<open>main\<close> ends: \<open>log.Fatal\<close> with its message (exit code 1), the exit of \<open>flag.Parse\<close>, or in the accept
  loop. \<open>flag.Parse\<close> of the command line stops with code 2 at a bad flag and with 0 at \<open>-h\<close>.
\<close>

datatype 'db started = Fatal "piece list" | Exited nat | Serving string "'db server"

definition server_flags :: "flag list" where
  "server_flags =
     [String_flag ''address'' ''localhost:8080'' ''listen address'',
      String_flag ''dir'' ''./data'' ''data directory'',
      String_flag ''cert'' [] ''TLS cert file (required if -tls=true)'',
      String_flag ''key'' [] ''TLS key file (required if -tls=true)'',
      Bool_flag ''tls'' True ''enable TLS encryption'']"

text \<open>\<open>main\<close> after the flags are read.\<close>

definition start_server :: "'db boot \<Rightarrow> server_config \<Rightarrow> 'db started" where
  "start_server W cfg =
     (if srv_TLSEnabled cfg \<and> (srv_Cert cfg = [] \<or> srv_Key cfg = [])
      then Fatal [Str ''-cert and -key are required when -tls=true'']
      else case New_server W cfg of
          Err e \<Rightarrow> Fatal [Str ''server init: '', ErrText e]
        | Panic p \<Rightarrow> Fatal [Str p]
        | Ok srv \<Rightarrow> (case Run W srv of
            Err e \<Rightarrow> Fatal [ErrText e]
          | Panic p \<Rightarrow> Fatal [Str p]
          | Ok s \<Rightarrow> Serving (listening_line cfg) s))"

definition server_main :: "'db boot \<Rightarrow> string list \<Rightarrow> 'db started" where
  "server_main W args = (case parse_flags server_flags args (default_values server_flags) of
     BadFlag msg \<Rightarrow> Exited 2
   | HelpWanted \<Rightarrow> Exited 0
   | Parsed vals rest \<Rightarrow> start_server W
       \<lparr>srv_Addr = string_value vals ''address'', srv_DataDir = string_value vals ''dir'',
        srv_Cert = string_value vals ''cert'', srv_Key = string_value vals ''key'',
        srv_TLSEnabled = bool_value vals ''tls''\<rparr>)"

lemma start_server_serves:
  "start_server W cfg = Serving line s \<longleftrightarrow>
     (\<exists>d. badger_Open W (srv_DataDir cfg) = Inr d \<and> s = server_start d)
   \<and> (srv_TLSEnabled cfg \<longrightarrow> srv_Cert cfg \<noteq> [] \<and> srv_Key cfg \<noteq> [] \<and> LoadX509KeyPair W (srv_Cert cfg) (srv_Key cfg) = None)
   \<and> Listen W (srv_TLSEnabled cfg) (srv_Addr cfg) = None \<and> line = listening_line cfg"
  by (auto simp: start_server_def New_server_def Store_Open_def Run_def split: sum.splits if_splits option.splits)

end
