(* ===== verification/Spec2Isabelle.thy ===== *)
theory Spec2Isabelle
  imports Crypto_Properties Invitation_Properties Session_Properties Server_Start
begin

text \<open>
  ShareLock, an end-to-end encrypted file store: a client library (\<open>internal/client/encryption\<close>)
  that encrypts, shares and revokes files; the library \<open>internal/userlib\<close> with the cryptography and
  the data and key stores, kept in the process or behind a server; the server
  (\<open>internal/server\<close>, \<open>cmd/server\<close>), a key-value store over Badger; and the command line
  (\<open>cmd/client\<close>, \<open>internal/client/app\<close>, \<open>config\<close>, \<open>netstream\<close>). The command line calls the client object,
  which calls the three services, which call a storage and a key store through interfaces;
  these are maps in memory, or the stores of \<open>userlib\<close>, whose operations go over one TCP
  connection each to \<open>handleConn\<close> of the server.

  \<^bold>\<open>How code becomes definitions.\<close> A Go function that changes state is a computation (\<open>comp\<close> of
  \<open>Prelude\<close>): a function of the state to an outcome - a value, a returned error, or a panic - and
  the state it leaves, also when it fails. \<open>bnd\<close> is the statement sequence with early return,
  \<open>map_err\<close> is error wrapping, \<open>attempt\<close> is \<open>if err != nil { continue }\<close>. Structs are records, maps
  that are marshalled or ranged over are association lists sorted by key (\<open>gomap\<close>), byte slices are lists
  of \<open>8 word\<close>, a Go string is a list of characters of 8 bits. A struct that is passed by pointer and changed
  (the \<open>User\<close>) is part of the state. Randomness is drawn from a numbered supply (\<open>draws\<close>).

  \<^bold>\<open>The theories.\<close>

  \<^item> \<open>Prelude\<close>: bytes, outcomes, computations, maps. \<open>Base64\<close>, \<open>Json_Text\<close>, \<open>Json\<close>, \<open>Json_Indent\<close>: the
    packages \<open>encoding/base64\<close> and \<open>encoding/json\<close>, printer, parser and their round trips.
    \<open>Go_External\<close>: the code outside \<open>src/\<close> as the record \<open>ext\<close>, with the predicates the hypotheses name; the errors.
    \<open>Sample_External\<close>: a concrete \<open>ext\<close> that satisfies all of them.
  \<^item> \<open>Userlib_Crypto\<close>: the cryptographic helpers of \<open>userlib.go\<close>, AES-CTR written out.
    \<open>Crypto_Utils\<close>: \<open>utils.go\<close>. \<open>File_Blocks\<close>: \<open>File.go\<close>. \<open>Client_Types\<close>: the structs of \<open>encryption.go\<close> and
    \<open>access.go\<close> with their JSON.
  \<^item> \<open>Services\<close>, \<open>File_Service\<close>, \<open>Invitation_Service\<close>: the interfaces and the three services of \<open>service.go\<close>, every
    operation over any backend. \<open>Memory_Storage\<close>: the maps of \<open>memory.go\<close>.
  \<^item> \<open>User_Service\<close>, \<open>File_Correct\<close>, \<open>File_Properties\<close>, \<open>Invitation_Correct\<close>, \<open>Revoke_Correct\<close>,
    \<open>Invitation_Properties\<close>, \<open>Crypto_Properties\<close>: what the services do on the maps. The \<open>Correct\<close> theories give each operation in
    closed form (\<open>StoreFile_after\<close> and its kin) over the abstraction \<open>view\<close>: a user's access record, mailbox node, inode and content
    under a name. The \<open>Properties\<close> theories draw the consequences: what is stored, shared, appended and kept through a
    revocation is loaded; what is revoked, forged or does not authenticate is not; and the limits of the code, such as a block
    copied over another block of its file, which nothing notices. That two MAC keys are told apart is asked only of the record at hand.
  \<^item> \<open>Wire\<close>, \<open>Server\<close>, \<open>Server_Correct\<close>, \<open>Server_Properties\<close>, \<open>Server_Start\<close>: the protocol of both ends, \<open>store.go\<close>,
    \<open>handler.go\<close>, \<open>server.go\<close> and \<open>cmd/server/main.go\<close>. A connection is shown equal to a reference that first splits its bytes into
    requests; the database to a map; and the interleavings of the goroutines (\<open>server_step\<close>, one step per accept, arriving bytes, handled
    request or close) to one global order of the requests.
  \<^item> \<open>Userlib_Store\<close>: the data and key stores of \<open>userlib.go\<close>, local and remote, and the adapters of \<open>memory.go\<close>.
    \<open>App\<close>: the client object of \<open>app.go\<close> and sequences of its calls.
  \<^item> \<open>Backend\<close>: the interface between services and stores as the locales \<open>readable_backend\<close> and
    \<open>storage_backend\<close>; inside them each service operation simulates the same operation on an instrumented memory that checks the
    identifiers it is asked for. \<open>Backend_Types\<close>: which identifiers the services ask for. \<open>App_Backend\<close>, \<open>Userlib_Correct\<close>,
    \<open>Backend_Properties\<close>: the interpretations for the maps, the local stores and the network, and the refinement of whole sessions.
  \<^item> \<open>Go_Os\<close>, \<open>Go_Flag\<close>: what the commands use of \<open>path\<close>, \<open>os\<close>, \<open>fmt\<close> and \<open>flag\<close>. \<open>Config\<close>: \<open>config.go\<close>.
    \<open>Netstream\<close>: \<open>netstream.go\<close> and \<open>ReadFileTLS\<close>. \<open>Cli\<close>: \<open>cmd/client/main.go\<close>, one run of the process. \<open>Cli_Properties\<close>: what holds of it.
  \<^item> \<open>Json_Size\<close>, \<open>Backend_Store\<close>, \<open>Session_Properties\<close>: the theorem over all of the above, from the flags of one run that stores a file to what
    another run on another machine prints. It composes the closed form of \<open>StoreFile\<close>, the refinement of the map by the network, and the run of the process.

  \<^bold>\<open>Bounds and fuel.\<close> The only fuel is that of \<open>json_parse\<close>, one more than the length of the text, which every value of the text uses up slower than
    its characters; the round trips show it is enough for whatever is printed. All loops of the program terminate by structure or
    by a measure; \<open>handleConn\<close> by the bytes left to read, and \<open>handle_rounds\<close> counts its rounds (\<open>connection_ends\<close>). Lengths on the wire are \<open>32 word\<close>, the bandwidth counter wraps at 64 bits.

  \<^bold>\<open>What is assumed of the outside.\<close> \<open>crypto_ok\<close>, \<open>rsa_ok\<close>, \<open>uuid_ok\<close>, \<open>uuid_typed\<close>, \<open>order_ok\<close>: lengths and inverses of the primitives, UUIDs of 16
    bytes, each key once in a range loop. Fresh UUIDs and hashes that do not collide are hypotheses of the theorems that need them (\<open>can_store\<close> and its kin),
    about the identifiers of that operation only. \<open>badger_ok\<close>: reads and writes of Badger for the entries it accepts. \<open>filesys_ok\<close>: a file holds what
    was written to it.

  \<^bold>\<open>Where the model abstracts.\<close> Once dialled, a connection delivers all bytes in order, and writing to it does not fail. A request is handled in
    one step: Badger's transactions are serialisable. A slice that \<open>MemoryStorage\<close> stores is not changed afterwards by its owner, as is the case in the services, so
    aliasing is not modelled. The error constructors \<open>MailboxNotFound\<close>, \<open>InodeNotFound\<close> and \<open>BlockNotFound\<close> stand for
    messages that differ in a parenthesis; the texts of errors and of \<open>%q\<close> are left symbolic in what the commands print. TLS is a property of the dial, not of the bytes;
    the code verifies no certificate (\<open>InsecureSkipVerify\<close>), so nothing is claimed about who the server is.

  \<^bold>\<open>Not modelled.\<close> The cryptographic primitives, RSA key generation, Badger, TLS and the file system are parameters: their code is not in the repository.
    Tests, benchmarks and the debug output of \<open>userlib\<close> are left out. A stream that never ends (\<open>read\<close> against this
    repository's server) has no value in the model: \<open>stream\<close> describes peers that close.
\<close>

end
